(* ===== verification/Prelude.thy ===== *)
theory Prelude
  imports Main "HOL-Library.Sublist"
begin

text \<open>
  What every component shares: Go's fixed-width integers (values of type \<open>int\<close>, with the
  wrap-around of a width written out where the code can reach it), slices as lists, Go maps as
  partial functions, and the generic loops the sources repeat: first-wins deduplication over a
  \<open>seen\<close> map, prefix truncation \<open>xs[:n]\<close>, and stages that only drop elements.
\<close>

named_theorems stage_intros \<open>stages that return a subsequence of their input\<close>
named_theorems eval_simps \<open>definitions a witness unfolds to compute\<close>

section \<open>Integers of a width\<close>

type_synonym int32 = int
type_synonym int64 = int
type_synonym bytes = string

definition wrap_signed :: "nat \<Rightarrow> int \<Rightarrow> int" where
  "wrap_signed w x = (x + 2 ^ (w - 1)) mod 2 ^ w - 2 ^ (w - 1)"

abbreviation wrap32 :: "int \<Rightarrow> int32" where
  "wrap32 \<equiv> wrap_signed 32"

abbreviation wrap64 :: "int \<Rightarrow> int64" where
  "wrap64 \<equiv> wrap_signed 64"

lemma wrap_signed_id:
  assumes "- (2 ^ (w - 1)) \<le> x" "x < 2 ^ (w - 1)" "0 < w"
  shows "wrap_signed w x = x"
proof -
  have "(2::int) ^ w = 2 * 2 ^ (w - 1)" using assms(3) by (metis power_eq_if not_gr_zero)
  then have "(x + 2 ^ (w - 1)) mod 2 ^ w = x + 2 ^ (w - 1)"
    using assms by (intro mod_pos_pos_trivial) auto
  then show ?thesis by (simp add: wrap_signed_def)
qed

lemma wrap32_id: "- 2147483648 \<le> x \<Longrightarrow> x < 2147483648 \<Longrightarrow> wrap32 x = x"
  by (rule wrap_signed_id) simp_all

lemma wrap64_id: "- 9223372036854775808 \<le> x \<Longrightarrow> x < 9223372036854775808 \<Longrightarrow> wrap64 x = x"
  by (rule wrap_signed_id) simp_all

text \<open>Go's \<open>%\<close> truncates towards zero: the result has the sign of the dividend.\<close>

definition go_rem :: "int \<Rightarrow> int \<Rightarrow> int" where
  "go_rem a b = (if a < 0 then - (- a mod b) else a mod b)"

lemma go_rem_bounds: "0 < b \<Longrightarrow> \<bar>go_rem a b\<bar> < b"
  by (simp add: go_rem_def)

lemma go_rem_nonneg: "0 \<le> a \<Longrightarrow> 0 < b \<Longrightarrow> 0 \<le> go_rem a b"
  by (simp add: go_rem_def)

section \<open>Slices\<close>

text \<open>\<open>xs[:n]\<close> for an \<open>n\<close> the code has checked to be positive and below the length.\<close>

definition upto_n :: "int \<Rightarrow> 'a list \<Rightarrow> 'a list" where
  "upto_n n xs = take (nat n) xs"

lemma upto_n_subseq [stage_intros]: "subseq (upto_n n xs) xs"
  unfolding upto_n_def by (rule prefix_imp_subseq) (rule take_is_prefix)

lemma length_upto_n [simp]: "length (upto_n n xs) = min (nat n) (length xs)"
  by (simp add: upto_n_def min.commute)

lemma find_snoc:
  "find P (xs @ [y]) = (case find P xs of Some z \<Rightarrow> Some z | None \<Rightarrow> if P y then Some y else None)"
  by (induction xs) auto

lemma find_Some_set: "find P vs = Some v \<Longrightarrow> v \<in> set vs \<and> P v"
  by (induction vs) (auto split: if_splits)

section \<open>Results of fallible calls\<close>

text \<open>\<open>v, err := x; if err != nil { return err }; ...\<close>: the left summand is the error.\<close>

definition and_then :: "'e + 'a \<Rightarrow> ('a \<Rightarrow> 'e + 'b) \<Rightarrow> 'e + 'b" where
  "and_then x f = (case x of Inl e \<Rightarrow> Inl e | Inr v \<Rightarrow> f v)"

lemma and_then_simps [simp]:
  "and_then (Inl e) f = Inl e" "and_then (Inr v) f = f v"
  by (simp_all add: and_then_def)

lemma and_then_Inr: "(and_then x f = Inr w) = (\<exists>v. x = Inr v \<and> f v = Inr w)"
  by (cases x) auto

lemma and_then_Inl: "(and_then x f = Inl e) = (x = Inl e \<or> (\<exists>v. x = Inr v \<and> f v = Inl e))"
  by (cases x) auto

text \<open>A loop over steps that may fail, left at the first error.\<close>

fun fold_try :: "('p \<Rightarrow> 's \<Rightarrow> 'e + 's) \<Rightarrow> 'p list \<Rightarrow> 's \<Rightarrow> 'e + 's" where
  "fold_try step [] s = Inr s"
| "fold_try step (p # ps) s = and_then (step p s) (fold_try step ps)"

lemma fold_try_invariant:
  assumes "fold_try step ps s = Inr s'" "I s"
    and "\<And>p t t'. p \<in> set ps \<Longrightarrow> I t \<Longrightarrow> step p t = Inr t' \<Longrightarrow> I t'"
  shows "I s'"
  using assms
proof (induction ps arbitrary: s)
  case (Cons p ps)
  obtain t where t: "step p s = Inr t" "fold_try step ps t = Inr s'"
    using Cons.prems(1) by (auto simp: and_then_Inr)
  have "I t" using Cons.prems(3)[of p s t] Cons.prems(2) t(1) by simp
  then show ?case using Cons.IH[OF t(2)] Cons.prems(3) by (meson list.set_intros(2))
qed simp

lemma set_map_filter: "set (List.map_filter f xs) = {y. \<exists>x\<in>set xs. f x = Some y}"
  by (induction xs) (auto simp: List.map_filter_simps split: option.splits)

lemma upto_n_set: "set (upto_n n xs) \<subseteq> set xs"
  unfolding upto_n_def by (rule set_take_subset)

section \<open>First-wins deduplication\<close>

text \<open>The loop \<open>for _, it := range xs { if seen[key] {continue}; seen[key] = {}; out = append(out, it) }\<close>.\<close>

fun dedup_on :: "('a \<Rightarrow> 'k) \<Rightarrow> 'k set \<Rightarrow> 'a list \<Rightarrow> 'a list" where
  "dedup_on key seen [] = []"
| "dedup_on key seen (x # xs) =
     (if key x \<in> seen then dedup_on key seen xs
      else x # dedup_on key (insert (key x) seen) xs)"

lemma dedup_on_subseq [stage_intros]: "subseq (dedup_on key seen xs) xs"
  by (induction xs arbitrary: seen) auto

lemma keys_dedup_on: "key ` set (dedup_on key seen xs) = key ` set xs - seen"
  by (induction xs arbitrary: seen) auto

lemma distinct_dedup_on: "distinct (map key (dedup_on key seen xs))"
  using keys_dedup_on[of key] by (induction xs arbitrary: seen) auto

lemma dedup_on_disjoint: "x \<in> set (dedup_on key seen xs) \<Longrightarrow> key x \<notin> seen"
  using keys_dedup_on[of key seen xs] by auto

lemma dedup_on_id: "distinct (map key xs) \<Longrightarrow> key ` set xs \<inter> seen = {} \<Longrightarrow> dedup_on key seen xs = xs"
  by (induction xs arbitrary: seen) auto

lemma dedup_on_append:
  "dedup_on key seen (xs @ ys) = dedup_on key seen xs @ dedup_on key (seen \<union> key ` set xs) ys"
  by (induction xs arbitrary: seen) (auto simp: insert_absorb)

lemma dedup_on_idem [simp]: "dedup_on key seen (dedup_on key seen xs) = dedup_on key seen xs"
  using keys_dedup_on[of key seen xs] by (intro dedup_on_id) (auto simp: distinct_dedup_on)

text \<open>Which representative of a key is kept: the first one in the list.\<close>

lemma dedup_on_first:
  "x \<in> set (dedup_on key seen xs) \<longleftrightarrow>
   key x \<notin> seen \<and> (\<exists>us vs. xs = us @ x # vs \<and> key x \<notin> key ` set us)"
proof (induction xs arbitrary: seen)
  case Nil
  show ?case by simp
next
  case (Cons y ys)
  show ?case
  proof (cases "key y = key x")
    case True
    have "(\<exists>us vs. y # ys = us @ x # vs \<and> key x \<notin> key ` set us) \<longleftrightarrow> y = x"
    proof
      assume "\<exists>us vs. y # ys = us @ x # vs \<and> key x \<notin> key ` set us"
      then obtain us vs where *: "y # ys = us @ x # vs" "key x \<notin> key ` set us" by blast
      then show "y = x" using True by (cases us) auto
    next
      assume "y = x"
      then show "\<exists>us vs. y # ys = us @ x # vs \<and> key x \<notin> key ` set us" by fastforce
    qed
    then show ?thesis using True Cons.IH by (auto dest: dedup_on_disjoint)
  next
    case False
    have "(\<exists>us vs. y # ys = us @ x # vs \<and> key x \<notin> key ` set us) \<longleftrightarrow>
          (\<exists>us vs. ys = us @ x # vs \<and> key x \<notin> key ` set us)" (is "?L \<longleftrightarrow> ?R")
    proof
      assume ?L
      then obtain us vs where *: "y # ys = us @ x # vs" "key x \<notin> key ` set us" by blast
      then show ?R using False by (cases us) auto
    next
      assume ?R
      then obtain us vs where "ys = us @ x # vs" "key x \<notin> key ` set us" by blast
      then show ?L using False by (intro exI[of _ "y # us"] exI[of _ vs]) auto
    qed
    then show ?thesis using False Cons.IH by auto
  qed
qed

section \<open>Stages that only drop elements\<close>

text \<open>
  The contract of every filter, cap and sampling step of the funnel: its result is a subsequence
  of its input, so it neither invents, duplicates nor reorders candidates.
\<close>

lemma subseq_set: "subseq xs ys \<Longrightarrow> set xs \<subseteq> set ys"
  by (induction rule: list_emb.induct) auto

lemma sorted_wrt_subseq: "subseq xs ys \<Longrightarrow> sorted_wrt P ys \<Longrightarrow> sorted_wrt P xs"
proof (induction rule: list_emb.induct)
  case (list_emb_Cons2 x y xs ys)
  then show ?case using subseq_set[of xs ys] by auto
qed auto

lemma distinct_sorted_wrt_neq: "distinct xs = sorted_wrt (\<noteq>) xs"
  by (induction xs) auto

lemma subseq_distinct: "subseq xs ys \<Longrightarrow> distinct ys \<Longrightarrow> distinct xs"
  using sorted_wrt_subseq[of xs ys "(\<noteq>)"] by (simp add: distinct_sorted_wrt_neq)

locale drop_stage =
  fixes run :: "'a list \<Rightarrow> 'a list"
  assumes run_subseq: "subseq (run xs) xs"
begin

lemma run_Nil [simp]: "run [] = []"
  using run_subseq[of "[]"] by simp

lemma run_set: "set (run xs) \<subseteq> set xs"
  by (rule subseq_set[OF run_subseq])

lemma run_length: "length (run xs) \<le> length xs"
  by (rule list_emb_length[OF run_subseq])

lemma run_distinct: "distinct (map f xs) \<Longrightarrow> distinct (map f (run xs))"
  using subseq_map[OF run_subseq, of f xs] by (rule subseq_distinct)

lemma run_sorted_wrt: "sorted_wrt P xs \<Longrightarrow> sorted_wrt P (run xs)"
  by (rule sorted_wrt_subseq[OF run_subseq])

end

text \<open>A chain of such stages is one, which is how a policy list is justified.\<close>

locale drop_chain =
  fixes stage :: "'p \<Rightarrow> 'a list \<Rightarrow> 'a list"
  assumes each: "drop_stage (stage p)"
begin

lemma fold_subseq: "subseq (fold stage ps xs) xs"
proof (induction ps arbitrary: xs)
  case Nil
  show ?case by simp
next
  case (Cons p ps)
  show ?case using Cons[of "stage p xs"] drop_stage.run_subseq[OF each, of p xs]
    by (simp add: subseq_order.order_trans)
qed

end

sublocale drop_chain \<subseteq> chain: drop_stage "fold stage ps"
  for ps
  by unfold_locales (rule fold_subseq)

lemma drop_stage_filter: "drop_stage (filter P)"
  by unfold_locales (rule subseq_filter_left)

end
