(* ===== verification/Go_Float.thy ===== *)
theory Go_Float
  imports Prelude "HOL-Library.Log_Nat"
begin

text \<open>
  Go's \<open>float64\<close> and \<open>float32\<close>: IEEE-754 binary64/binary32 values with round to nearest, ties
  to even, gradual underflow, infinities and NaN, as the compiler emits them on amd64 (no fused
  multiply-add). A finite value is its exact rational; only zero needs a sign of its own.
\<close>

section \<open>Rounding a rational to a binary floating-point grid\<close>

definition ilog2 :: "rat \<Rightarrow> int" where
  "ilog2 x = (case quotient_of x of (a, b) \<Rightarrow>
     let k = bitlen a - bitlen b in if 2 powi k \<le> x then k else k - 1)"

definition round_half_even :: "rat \<Rightarrow> int" where
  "round_half_even q =
     (let f = \<lfloor>q\<rfloor>; d = q - of_int f in
      if d < 1 / 2 then f else if d > 1 / 2 then f + 1 else if even f then f else f + 1)"

definition quantum :: "nat \<Rightarrow> int \<Rightarrow> rat \<Rightarrow> int" where
  "quantum p emin x = max emin (ilog2 x - int p + 1)"

definition round_abs :: "nat \<Rightarrow> int \<Rightarrow> rat \<Rightarrow> rat" where
  "round_abs p emin x =
     (if x = 0 then 0
      else of_int (round_half_even (x / 2 powi (quantum p emin x))) * 2 powi (quantum p emin x))"

definition round_bin :: "nat \<Rightarrow> int \<Rightarrow> rat \<Rightarrow> rat" where
  "round_bin p emin x = (if x < 0 then - round_abs p emin (- x) else round_abs p emin x)"

subsection \<open>The binary logarithm\<close>

lemma bitlen_pos_bounds:
  assumes "0 < (a::int)"
  shows "2 powi (bitlen a - 1) \<le> (of_int a :: rat)" and "(of_int a :: rat) < 2 powi (bitlen a)"
proof -
  have b: "2 ^ nat (bitlen a - 1) \<le> a \<and> a < 2 ^ nat (bitlen a)"
    using bitlen_bounds[OF assms] .
  have p: "0 < bitlen a"
    using assms bitlen_eq_zero_iff[of a] bitlen_nonneg[of a] by linarith
  have "(of_int (2 ^ nat (bitlen a - 1)) :: rat) \<le> of_int a"
    using b by (simp only: of_int_le_iff)
  then show "2 powi (bitlen a - 1) \<le> (of_int a :: rat)"
    using p by (simp add: power_int_def)
  have "(of_int a :: rat) < of_int (2 ^ nat (bitlen a))"
    using b by (simp only: of_int_less_iff)
  then show "(of_int a :: rat) < 2 powi (bitlen a)"
    using p by (simp add: power_int_def)
qed

lemma ilog2_bounds:
  assumes "0 < x"
  shows "2 powi (ilog2 x) \<le> x" and "x < 2 powi (ilog2 x + 1)"
proof -
  obtain a b where q: "quotient_of x = (a, b)" by (cases "quotient_of x")
  have b: "0 < b" using quotient_of_denom_pos[OF q] .
  have x: "x = of_int a / of_int b" using quotient_of_div[OF q] .
  have a: "0 < a" using assms b unfolding x by (simp add: zero_less_divide_iff)
  let ?k = "bitlen a - bitlen b"
  have "x < 2 powi (bitlen a) / 2 powi (bitlen b - 1)"
    unfolding x using bitlen_pos_bounds[OF a] bitlen_pos_bounds[OF b] b a
    by (intro frac_less) auto
  also have "\<dots> = 2 powi (?k + 1)"
    by (simp add: power_int_diff[symmetric] algebra_simps)
  finally have up: "x < 2 powi (?k + 1)" .
  have "2 powi (bitlen a - 1) / 2 powi (bitlen b) \<le> x"
    unfolding x using bitlen_pos_bounds[OF a] bitlen_pos_bounds[OF b] b a
    by (intro frac_le) auto
  moreover have "(2::rat) powi (bitlen a - 1) / 2 powi (bitlen b) = 2 powi (?k - 1)"
    by (simp add: power_int_diff[symmetric] algebra_simps)
  ultimately have lo: "2 powi (?k - 1) \<le> x" by simp
  show "2 powi (ilog2 x) \<le> x" and "x < 2 powi (ilog2 x + 1)"
    using up lo by (auto simp: ilog2_def q Let_def)
qed

lemma powi2_le_iff [simp]: "((2::rat) powi m \<le> 2 powi n) = (m \<le> n)"
  using power_int_strict_increasing[of n m "2::rat"] power_int_increasing[of m n "2::rat"]
  by (meson linorder_not_le one_le_numeral one_less_numeral_iff semiring_norm(76))

lemma powi2_less_iff [simp]: "((2::rat) powi m < 2 powi n) = (m < n)"
  by (simp flip: linorder_not_le)

lemma ilog2_leI: "0 < x \<Longrightarrow> x < 2 powi (k + 1) \<Longrightarrow> ilog2 x \<le> k"
  using ilog2_bounds(1)[of x] by (metis linorder_not_le order_le_less_trans powi2_less_iff zle_add1_eq_le)

lemma ilog2_geI: "0 < x \<Longrightarrow> 2 powi k \<le> x \<Longrightarrow> k \<le> ilog2 x"
  using ilog2_bounds(2)[of x] by (metis order_le_less_trans powi2_less_iff zle_add1_eq_le)

lemma ilog2_mono: "0 < x \<Longrightarrow> x \<le> y \<Longrightarrow> ilog2 x \<le> ilog2 y"
  using ilog2_geI[of y "ilog2 x"] ilog2_bounds(1)[of x] by simp

subsection \<open>Rounding to an integer\<close>

lemma round_half_even_of_int [simp]: "round_half_even (of_int n) = n"
  by (simp add: round_half_even_def)

lemma round_half_even_mono: "x \<le> y \<Longrightarrow> round_half_even x \<le> round_half_even y"
proof -
  assume "x \<le> y"
  show ?thesis
  proof (cases "\<lfloor>x\<rfloor> = \<lfloor>y\<rfloor>")
    case True
    then show ?thesis using \<open>x \<le> y\<close> by (auto simp: round_half_even_def Let_def)
  next
    case False
    then have "\<lfloor>x\<rfloor> + 1 \<le> \<lfloor>y\<rfloor>" using floor_mono[OF \<open>x \<le> y\<close>] by linarith
    then show ?thesis by (auto simp: round_half_even_def Let_def)
  qed
qed

lemma round_half_even_le: "x \<le> of_int n \<Longrightarrow> round_half_even x \<le> n"
  using round_half_even_mono[of x "of_int n"] by simp

lemma round_half_even_ge: "of_int n \<le> x \<Longrightarrow> n \<le> round_half_even x"
  using round_half_even_mono[of "of_int n" x] by simp

lemma round_half_even_double: "1 \<le> x \<Longrightarrow> of_int (round_half_even x) \<le> 2 * x"
proof -
  assume x: "1 \<le> x"
  have "of_int (round_half_even x) \<le> x + 1/2"
    by (auto simp: round_half_even_def Let_def) linarith+
  with x show ?thesis by linarith
qed


subsection \<open>Rounding to the grid\<close>

lemma round_abs_quantum_le:
  assumes "0 < x" "x \<le> of_int n * 2 powi (quantum p emin x)"
  shows "round_abs p emin x \<le> of_int n * 2 powi (quantum p emin x)"
proof -
  let ?q = "(2::rat) powi (quantum p emin x)"
  have "x / ?q \<le> of_int n" using assms(2) by (simp add: divide_le_eq)
  then have "round_half_even (x / ?q) \<le> n" by (rule round_half_even_le)
  then have "(of_int (round_half_even (x / ?q)) :: rat) \<le> of_int n" by simp
  then show ?thesis using assms(1) by (simp add: round_abs_def)
qed

lemma round_abs_quantum_ge:
  assumes "0 < x" "of_int n * 2 powi (quantum p emin x) \<le> x"
  shows "of_int n * 2 powi (quantum p emin x) \<le> round_abs p emin x"
proof -
  let ?q = "(2::rat) powi (quantum p emin x)"
  have "of_int n \<le> x / ?q" using assms(2) by (simp add: le_divide_eq)
  then have "n \<le> round_half_even (x / ?q)" by (rule round_half_even_ge)
  then have "(of_int n :: rat) \<le> of_int (round_half_even (x / ?q))" by simp
  then show ?thesis using assms(1) by (simp add: round_abs_def)
qed

lemma round_abs_nonneg: "0 \<le> x \<Longrightarrow> 0 \<le> round_abs p emin x"
  using round_abs_quantum_ge[of x 0 p emin] by (cases "x = 0") (auto simp: round_abs_def)

lemma round_abs_mono:
  assumes "0 \<le> x" "x \<le> y" "0 < p"
  shows "round_abs p emin x \<le> round_abs p emin y"
proof (cases "x = 0")
  case True
  then show ?thesis using round_abs_nonneg[of y p emin] assms by (simp add: round_abs_def)
next
  case False
  then have x: "0 < x" and y: "0 < y" using assms by auto
  let ?e1 = "quantum p emin x" and ?e2 = "quantum p emin y"
  have le: "?e1 \<le> ?e2" using ilog2_mono[OF x assms(2)] by (simp add: quantum_def)
  show ?thesis
  proof (cases "?e1 = ?e2")
    case True
    have "x / 2 powi ?e2 \<le> y / 2 powi ?e2"
      using assms(2) by (intro divide_right_mono) auto
    then show ?thesis using x y True by (auto simp: round_abs_def round_half_even_mono)
  next
    case False
    with le have lt: "?e1 < ?e2" by simp
    let ?l = "ilog2 y"
    have e2l: "?e2 \<le> ?l" and lx: "ilog2 x < ?l"
      using lt assms(3) by (auto simp: quantum_def split: if_splits)
    have pow1: "(2::rat) powi ?l = of_int (2 ^ nat (?l - ?e1)) * 2 powi ?e1"
      using le e2l by (simp flip: power_int_add power_int_of_nat)
    have pow2: "(2::rat) powi ?l = of_int (2 ^ nat (?l - ?e2)) * 2 powi ?e2"
      using e2l by (simp flip: power_int_add power_int_of_nat)
    have "x < 2 powi (ilog2 x + 1)" using ilog2_bounds(2)[OF x] .
    also have "(2::rat) powi (ilog2 x + 1) \<le> 2 powi ?l" using lx by simp
    finally have "x \<le> 2 powi ?l" by simp
    then have "round_abs p emin x \<le> 2 powi ?l"
      using round_abs_quantum_le[OF x, of "2 ^ nat (?l - ?e1)" p emin] pow1 by simp
    also have "2 powi ?l \<le> round_abs p emin y"
      using round_abs_quantum_ge[OF y, of "2 ^ nat (?l - ?e2)" p emin] pow2
        ilog2_bounds(1)[OF y] by simp
    finally show ?thesis .
  qed
qed

lemma round_abs_exact:
  assumes "0 \<le> m" "m < 2 ^ p" "emin \<le> e"
  shows "round_abs p emin (of_int m * 2 powi e) = of_int m * 2 powi e"
proof (cases "m = 0")
  case True
  then show ?thesis by (simp add: round_abs_def)
next
  case False
  let ?x = "of_int m * 2 powi e :: rat"
  have x: "0 < ?x" using False assms(1) by simp
  have "(of_int m :: rat) < of_int (2 ^ p)" using assms(2) by (simp only: of_int_less_iff)
  then have "?x < 2 ^ p * 2 powi e" by simp
  also have "(2::rat) ^ p * 2 powi e = 2 powi (e + int p - 1 + 1)"
    by (simp add: power_int_add)
  finally have "ilog2 ?x \<le> e + int p - 1" using x by (intro ilog2_leI) simp_all
  then have q: "quantum p emin ?x \<le> e" using assms(3) by (simp add: quantum_def)
  define Q where "Q = quantum p emin ?x"
  define k where "k = (2 ^ nat (e - Q) :: int)"
  have e: "(2::rat) powi e = of_int k * 2 powi Q"
    using q unfolding k_def Q_def[symmetric] by (simp flip: power_int_add power_int_of_nat)
  then have "?x / 2 powi Q = of_int (m * k)" by (simp add: field_simps)
  then have "round_half_even (?x / 2 powi Q) = m * k"
    by (simp only: round_half_even_of_int)
  moreover have "round_abs p emin ?x = of_int (round_half_even (?x / 2 powi Q)) * 2 powi Q"
    using False by (simp add: round_abs_def Q_def)
  ultimately show ?thesis by (simp add: e)
qed

lemma round_abs_double:
  assumes "2 powi emin \<le> x" "0 < p"
  shows "round_abs p emin x \<le> 2 * x"
proof -
  have x: "0 < x" using assms(1) by (rule less_le_trans[rotated]) simp
  have "emin \<le> ilog2 x" using ilog2_geI[OF x assms(1)] .
  then have "quantum p emin x \<le> ilog2 x" using assms(2) by (auto simp: quantum_def)
  then have "2 powi (quantum p emin x) \<le> x"
    using ilog2_bounds(1)[OF x] by (meson order_trans powi2_le_iff)
  then have "1 \<le> x / 2 powi (quantum p emin x)" by (simp add: le_divide_eq)
  from round_half_even_double[OF this] x show ?thesis
    by (simp add: round_abs_def pos_le_divide_eq)
qed


lemma round_bin_0 [simp]: "round_bin p emin 0 = 0"
  by (simp add: round_bin_def round_abs_def)

lemma round_bin_minus: "round_bin p emin (- x) = - round_bin p emin x"
  by (auto simp: round_bin_def round_abs_def)

lemma round_bin_nonneg: "0 \<le> x \<Longrightarrow> 0 \<le> round_bin p emin x"
  by (simp add: round_bin_def round_abs_nonneg)

lemma round_bin_mono:
  assumes "x \<le> y" "0 < p"
  shows "round_bin p emin x \<le> round_bin p emin y"
proof (cases "x < 0")
  case x: True
  show ?thesis
  proof (cases "y < 0")
    case True
    then show ?thesis using x assms round_abs_mono[of "- y" "- x" p emin]
      by (simp add: round_bin_def)
  next
    case False
    then show ?thesis using x round_abs_nonneg[of y p emin] round_abs_nonneg[of "- x" p emin]
      by (simp add: round_bin_def)
  qed
next
  case False
  then show ?thesis using assms round_abs_mono[of x y p emin] by (simp add: round_bin_def)
qed

lemma round_bin_exact:
  assumes "\<bar>m\<bar> < 2 ^ p" "emin \<le> e"
  shows "round_bin p emin (of_int m * 2 powi e) = of_int m * 2 powi e"
proof (cases "m < 0")
  case True
  have *: "round_abs p emin (of_int (- m) * 2 powi e) = of_int (- m) * 2 powi e"
    using assms True by (intro round_abs_exact) auto
  have "(of_int m * 2 powi e :: rat) < 0" using True by (simp add: mult_less_0_iff)
  with * show ?thesis by (simp add: round_bin_def)
next
  case False
  then have "round_abs p emin (of_int m * 2 powi e) = of_int m * 2 powi e"
    using assms by (intro round_abs_exact) auto
  moreover have "0 \<le> (of_int m * 2 powi e :: rat)" using False by simp
  ultimately show ?thesis by (simp add: round_bin_def)
qed

lemma round_bin_double:
  assumes "2 powi emin \<le> x" "0 < p"
  shows "round_bin p emin x \<le> 2 * x"
proof -
  have "0 < x" using assms(1) by (rule less_le_trans[rotated]) simp
  then show ?thesis using round_abs_double[OF assms] by (simp add: round_bin_def)
qed

section \<open>The values of \<open>float64\<close> and their operations\<close>

text \<open>
  \<open>NegZero\<close> is \<open>-0\<close>; \<open>Fin 0\<close> is \<open>+0\<close>; \<open>Inf True\<close> is minus infinity. A \<open>float32\<close> is a
  \<open>float64\<close> whose value lies on the narrower grid, which is how Go converts it back.
\<close>

datatype float64 = NaN | Inf bool | NegZero | Fin rat

type_synonym float32 = float64

fun fval :: "float64 \<Rightarrow> rat" where
  "fval (Fin x) = x"
| "fval _ = 0"

fun fneg_sign :: "float64 \<Rightarrow> bool" where
  "fneg_sign (Fin x) = (x < 0)"
| "fneg_sign (Inf s) = s"
| "fneg_sign NegZero = True"
| "fneg_sign NaN = False"

definition is_finite :: "float64 \<Rightarrow> bool" where
  "is_finite x = (case x of NaN \<Rightarrow> False | Inf _ \<Rightarrow> False | _ \<Rightarrow> True)"

text \<open>Round an exact result; \<open>s\<close> is the sign a zero result gets.\<close>

definition fmake :: "nat \<Rightarrow> int \<Rightarrow> int \<Rightarrow> bool \<Rightarrow> rat \<Rightarrow> float64" where
  "fmake p emin emax s x =
     (let r = round_bin p emin x in
      if r = 0 then (if s then NegZero else Fin 0)
      else if 2 powi emax \<le> \<bar>r\<bar> then Inf (r < 0) else Fin r)"

abbreviation mk64 :: "bool \<Rightarrow> rat \<Rightarrow> float64" where
  "mk64 \<equiv> fmake 53 (-1074) 1024"

abbreviation mk32 :: "bool \<Rightarrow> rat \<Rightarrow> float64" where
  "mk32 \<equiv> fmake 24 (-149) 128"

text \<open>A literal, and the conversion \<open>float64(n)\<close> of an integer.\<close>

definition flit :: "rat \<Rightarrow> float64" where
  "flit x = mk64 False x"

definition float_of_int :: "int \<Rightarrow> float64" where
  "float_of_int n = mk64 False (of_int n)"

definition float32_of_int :: "int \<Rightarrow> float32" where
  "float32_of_int n = mk32 False (of_int n)"

definition to_float32 :: "float64 \<Rightarrow> float32" where
  "to_float32 x = (if is_finite x then mk32 (fneg_sign x) (fval x) else x)"

fun fneg :: "float64 \<Rightarrow> float64" where
  "fneg NaN = NaN"
| "fneg (Inf s) = Inf (\<not> s)"
| "fneg NegZero = Fin 0"
| "fneg (Fin x) = (if x = 0 then NegZero else Fin (- x))"

definition fadd :: "float64 \<Rightarrow> float64 \<Rightarrow> float64" where
  "fadd a b =
     (case (a, b) of
        (NaN, _) \<Rightarrow> NaN
      | (_, NaN) \<Rightarrow> NaN
      | (Inf s, Inf t) \<Rightarrow> (if s = t then Inf s else NaN)
      | (Inf s, _) \<Rightarrow> Inf s
      | (_, Inf t) \<Rightarrow> Inf t
      | _ \<Rightarrow> mk64 (fneg_sign a \<and> fneg_sign b) (fval a + fval b))"

definition fsub :: "float64 \<Rightarrow> float64 \<Rightarrow> float64" where
  "fsub a b = fadd a (fneg b)"

definition fmul :: "float64 \<Rightarrow> float64 \<Rightarrow> float64" where
  "fmul a b =
     (let s = (fneg_sign a \<noteq> fneg_sign b) in
      if a = NaN \<or> b = NaN then NaN
      else if is_finite a \<and> is_finite b then mk64 s (fval a * fval b)
      else if (is_finite a \<and> fval a = 0) \<or> (is_finite b \<and> fval b = 0) then NaN
      else Inf s)"

definition fdiv :: "float64 \<Rightarrow> float64 \<Rightarrow> float64" where
  "fdiv a b =
     (let s = (fneg_sign a \<noteq> fneg_sign b) in
      if a = NaN \<or> b = NaN then NaN
      else if \<not> is_finite a then (if is_finite b then Inf s else NaN)
      else if \<not> is_finite b then (if s then NegZero else Fin 0)
      else if fval b = 0 then (if fval a = 0 then NaN else Inf s)
      else mk64 s (fval a / fval b))"

text \<open>\<open>a < b\<close> and \<open>a <= b\<close>: false when either side is NaN; \<open>a > b\<close> is \<open>flt b a\<close>.\<close>

fun flt :: "float64 \<Rightarrow> float64 \<Rightarrow> bool" where
  "flt NaN _ = False"
| "flt _ NaN = False"
| "flt (Inf s) (Inf t) = (s \<and> \<not> t)"
| "flt (Inf s) _ = s"
| "flt _ (Inf t) = (\<not> t)"
| "flt a b = (fval a < fval b)"

definition fle :: "float64 \<Rightarrow> float64 \<Rightarrow> bool" where
  "fle a b = (a \<noteq> NaN \<and> b \<noteq> NaN \<and> \<not> flt b a)"

text \<open>
  \<open>int(x)\<close>: truncation towards zero. Out of range (and for NaN) the language leaves the result to
  the implementation; amd64's instruction gives the least integer.
\<close>

definition int_of_float :: "float64 \<Rightarrow> int" where
  "int_of_float x =
     (let t = (if fval x < 0 then - \<lfloor>- fval x\<rfloor> else \<lfloor>fval x\<rfloor>) in
      if is_finite x \<and> - (2 ^ 63) \<le> t \<and> t < 2 ^ 63 then t else - (2 ^ 63))"


subsection \<open>Evaluating exact results\<close>

text \<open>Small dyadic numbers are their own rounding; \<open>fmake_exact\<close> evaluates a concrete result.\<close>

definition on_grid :: "nat \<Rightarrow> int \<Rightarrow> rat \<Rightarrow> bool" where
  "on_grid p emin x =
     (\<exists>m e. \<bar>m\<bar> < 2 ^ p \<and> emin \<le> e \<and> x = of_int m * 2 powi e)"

lemma on_gridI: "\<bar>m\<bar> < 2 ^ p \<Longrightarrow> emin \<le> e \<Longrightarrow> x = of_int m * 2 powi e \<Longrightarrow> on_grid p emin x"
  unfolding on_grid_def by blast

lemma round_bin_on_grid: "on_grid p emin x \<Longrightarrow> round_bin p emin x = x"
  unfolding on_grid_def by (auto intro: round_bin_exact)

lemma on_grid_dyadic:
  assumes "\<bar>m\<bar> < 2 ^ p" "emin \<le> - int k"
  shows "on_grid p emin (of_int m / 2 ^ k)"
  using assms by (intro on_gridI[of m p emin "- int k"]) (auto simp: power_int_minus divide_inverse)

lemma on_grid_int: "\<bar>m\<bar> < 2 ^ p \<Longrightarrow> emin \<le> 0 \<Longrightarrow> on_grid p emin (of_int m)"
  using on_grid_dyadic[of m p emin 0] by simp

lemma on_grid_nums:
  assumes "0 < p" "emin \<le> 0"
  shows "on_grid p emin 0" "on_grid p emin 1" "on_grid p emin (-1)"
proof -
  have "(1::int) < 2 ^ p" using assms(1) by simp
  then show "on_grid p emin 0" "on_grid p emin 1" "on_grid p emin (-1)"
    using on_grid_int[of 0 p emin] on_grid_int[of 1 p emin] on_grid_int[of "-1" p emin] assms
    by simp_all
qed

lemma round_bin_1 [simp]: "0 < p \<Longrightarrow> emin \<le> 0 \<Longrightarrow> round_bin p emin 1 = 1"
  by (intro round_bin_on_grid on_grid_nums)

lemma fmake_on_grid:
  assumes "on_grid p emin x" "\<bar>x\<bar> < 2 powi emax"
  shows "fmake p emin emax s x = (if x = 0 then (if s then NegZero else Fin 0) else Fin x)"
  using assms by (simp add: fmake_def round_bin_on_grid)

lemma mk64_dyadic:
  assumes "\<bar>m\<bar> < 2 ^ 53" "k \<le> 1074" "x = of_int m / 2 ^ k"
  shows "mk64 s x = (if x = 0 then (if s then NegZero else Fin 0) else Fin x)"
proof (rule fmake_on_grid)
  show "on_grid 53 (- 1074) x" using assms on_grid_dyadic[of m 53 "-1074" k] by simp
  have "\<bar>x\<bar> \<le> \<bar>of_int m\<bar>"
    using assms(3) by (simp add: divide_le_eq mult_le_cancel_left1)
  also have "\<bar>of_int m :: rat\<bar> < of_int (2 ^ 53)"
    using assms(1) by (metis of_int_abs of_int_less_iff)
  also have "(of_int (2 ^ 53) :: rat) < 2 powi 1024" by (simp add: power_int_def)
  finally show "\<bar>x\<bar> < 2 powi 1024" .
qed

subsection \<open>Order and sign\<close>

lemma fmake_sign_cases:
  "fmake p emin emax s x = NegZero \<or> fmake p emin emax s x = Fin 0 \<or>
   (\<exists>t. fmake p emin emax s x = Inf t) \<or> fmake p emin emax s x = Fin (round_bin p emin x)"
  by (auto simp: fmake_def Let_def)

lemma fmake_not_NaN [simp]: "fmake p emin emax s x \<noteq> NaN"
  by (auto simp: fmake_def Let_def)

lemma flt_asym: "flt a b \<Longrightarrow> \<not> flt b a"
  by (cases "(a, b)" rule: flt.cases) auto

lemma flt_irrefl [simp]: "\<not> flt a a"
  using flt_asym by blast

lemma flt_not_NaN: "flt a b \<Longrightarrow> a \<noteq> NaN \<and> b \<noteq> NaN"
  by (cases "(a, b)" rule: flt.cases) auto

lemma flt_trans: "flt a b \<Longrightarrow> flt b c \<Longrightarrow> flt a c"
  by (cases a; cases b; cases c) auto

lemma flt_linear: "a \<noteq> NaN \<Longrightarrow> b \<noteq> NaN \<Longrightarrow> c \<noteq> NaN \<Longrightarrow> flt a c \<Longrightarrow> flt a b \<or> flt b c"
  by (cases a; cases b; cases c) auto

lemma is_finite_simps [simp]:
  "is_finite (Fin x)" "is_finite NegZero" "\<not> is_finite NaN" "\<not> is_finite (Inf s)"
  by (simp_all add: is_finite_def)


subsection \<open>Arithmetic notation\<close>

text \<open>\<open>+\<close>, \<open>*\<close>, \<open>/\<close>, \<open><\<close> and so on stand for the operations above, so the models read like the code.\<close>

instantiation float64 :: "{ord, zero, one, plus, minus, uminus, times, inverse}"
begin

definition zero_float64 :: float64 where
  "zero_float64 = Fin 0"

definition one_float64 :: float64 where
  "one_float64 = Fin 1"

definition plus_float64 :: "float64 \<Rightarrow> float64 \<Rightarrow> float64" where
  "plus_float64 = fadd"

definition minus_float64 :: "float64 \<Rightarrow> float64 \<Rightarrow> float64" where
  "minus_float64 = fsub"

definition uminus_float64 :: "float64 \<Rightarrow> float64" where
  "uminus_float64 = fneg"

definition times_float64 :: "float64 \<Rightarrow> float64 \<Rightarrow> float64" where
  "times_float64 = fmul"

definition divide_float64 :: "float64 \<Rightarrow> float64 \<Rightarrow> float64" where
  "divide_float64 = fdiv"

definition inverse_float64 :: "float64 \<Rightarrow> float64" where
  "inverse_float64 x = fdiv (Fin 1) x"

definition less_float64 :: "float64 \<Rightarrow> float64 \<Rightarrow> bool" where
  "less_float64 = flt"

definition less_eq_float64 :: "float64 \<Rightarrow> float64 \<Rightarrow> bool" where
  "less_eq_float64 = fle"

instance ..

end

lemmas float_ops =
  zero_float64_def one_float64_def plus_float64_def minus_float64_def uminus_float64_def
  times_float64_def divide_float64_def less_float64_def less_eq_float64_def


subsection \<open>Values that are not negative\<close>

definition nonneg :: "float64 \<Rightarrow> bool" where
  "nonneg x = (x \<noteq> NaN \<and> \<not> x < 0)"

lemma nonneg_simps [simp]:
  "nonneg (Fin x) = (0 \<le> x)" "nonneg NegZero" "nonneg (Inf s) = (\<not> s)" "\<not> nonneg NaN"
  by (auto simp: nonneg_def float_ops)

lemma nonneg_cases: "nonneg x \<Longrightarrow> x = NegZero \<or> x = Inf False \<or> (\<exists>r. x = Fin r \<and> 0 \<le> r)"
  by (cases x) auto

lemma nonneg_sign: "nonneg x \<Longrightarrow> x \<noteq> NegZero \<Longrightarrow> \<not> fneg_sign x"
  by (cases x) auto

lemma fmake_nonneg: "0 \<le> x \<Longrightarrow> nonneg (fmake p emin emax s x)"
  using round_bin_nonneg[of x p emin] by (auto simp: fmake_def Let_def)

lemma nonneg_div:
  assumes "nonneg a" "is_finite a" "0 < r"
  shows "nonneg (a / Fin r)"
  using nonneg_cases[OF assms(1)] assms
  by (auto simp: float_ops fdiv_def Let_def intro!: fmake_nonneg)

lemma nonneg_mult:
  assumes "nonneg a" "0 < r"
  shows "nonneg (Fin r * a)"
  using nonneg_cases[OF assms(1)] assms
  by (auto simp: float_ops fmul_def Let_def intro!: fmake_nonneg)

lemma mk64_lower:
  assumes "on_grid 53 (-1074) a" "a \<le> x" "c < a" "c < 0" "- 1 \<le> a"
  shows "Fin c < mk64 s x"
proof -
  have "a \<le> round_bin 53 (-1074) x"
    using round_bin_mono[OF assms(2), of 53 "-1074"] round_bin_on_grid[OF assms(1)] by simp
  with assms show ?thesis
    by (auto simp: fmake_def Let_def float_ops)
qed


subsection \<open>Every result lies on the grid\<close>

lemma on_grid_minus: "on_grid p emin (- x) = on_grid p emin x"
proof -
  have "on_grid p emin (- x)" if "on_grid p emin x" for x
  proof -
    obtain m e where "\<bar>m\<bar> < 2 ^ p" "emin \<le> e" "x = of_int m * 2 powi e"
      using \<open>on_grid p emin x\<close> unfolding on_grid_def by blast
    then show ?thesis by (intro on_gridI[of "- m" p emin e]) auto
  qed
  from this[of x] this[of "- x"] show ?thesis by auto
qed

lemma on_grid_round_abs:
  assumes "0 < x" "0 < p"
  shows "on_grid p emin (round_abs p emin x)"
proof -
  let ?q = "quantum p emin x"
  let ?n = "round_half_even (x / 2 powi ?q)"
  have "x < 2 powi (ilog2 x + 1)" by (rule ilog2_bounds(2)[OF assms(1)])
  also have "\<dots> \<le> 2 powi (?q + int p)" by (simp add: quantum_def)
  also have "\<dots> = 2 ^ p * 2 powi ?q" by (simp add: power_int_add)
  finally have "x / 2 powi ?q \<le> of_int (2 ^ p)" by (simp add: divide_le_eq)
  then have up: "?n \<le> 2 ^ p" by (rule round_half_even_le)
  have lo: "0 \<le> ?n" using assms by (intro round_half_even_ge) simp
  have r: "round_abs p emin x = of_int ?n * 2 powi ?q" using assms by (simp add: round_abs_def)
  have q: "emin \<le> ?q" by (simp add: quantum_def)
  show ?thesis
  proof (cases "?n = 2 ^ p")
    case True
    have "round_abs p emin x = of_int (2 ^ (p - 1)) * 2 powi (?q + 1)"
      unfolding r True using assms(2) by (cases p) (simp_all add: power_int_add)
    then show ?thesis using q assms(2) by (intro on_gridI[of "2 ^ (p - 1)" p emin "?q + 1"]) auto
  next
    case False
    then show ?thesis using r up lo q by (intro on_gridI[of ?n p emin ?q]) auto
  qed
qed

lemma on_grid_round_bin:
  assumes "0 < p" "emin \<le> 0"
  shows "on_grid p emin (round_bin p emin x)"
  using on_grid_round_abs[OF _ assms(1), of x emin] on_grid_round_abs[OF _ assms(1), of "- x" emin]
    on_grid_nums(1)[OF assms]
  by (cases "x = 0") (auto simp: round_bin_def round_abs_def on_grid_minus)

definition valid64 :: "float64 \<Rightarrow> bool" where
  "valid64 x = (case x of Fin r \<Rightarrow> on_grid 53 (-1074) r \<and> \<bar>r\<bar> < 2 powi 1024 | _ \<Rightarrow> True)"

lemma valid64_mk64: "valid64 (mk64 s x)"
  by (auto simp: fmake_def Let_def valid64_def on_grid_round_bin on_grid_nums not_le)

end
