(* ===== verification/Recsys_Items.thy ===== *)
theory Recsys_Items
  imports Go_Float
begin

text \<open>
  The vocabulary of \<open>pkg/recsyskit\<close> (\<open>item.go\<close>, \<open>context.go\<close>, \<open>exclusive.go\<close>,
  \<open>rank_client.go\<close>): one record per struct, fields prefixed by the struct. A Go map is a partial
  function; where nil and empty differ to the code it is an option of one. A pointer result is an
  option, a \<open>(value, error)\<close> result a sum with \<open>Inl\<close> for the error.
\<close>

section \<open>Errors\<close>

text \<open>Every error value and run-time panic of the modelled code.\<close>

datatype go_error =
    NilPanic
  | IndexPanic
  | ClosedChannelPanic
  | UnknownRecallType string
  | BackendError string
  | NoEndpoints
  | NilDoer
  | AllEndpointsFailed
  | UpstreamHTTP int string
  | TransportError string
  | RankNotConfigured
  | RankCallFailed go_error
  | MissingRankedGroups
  | EmptyItemScores
  | DecodeError string
  | TFNotConfigured
  | TFMissingOutput string
  | TFCannotParse string
  | FMEmptyPath
  | FMEmptyFile
  | FMBadHeader nat
  | FMBadFactor
  | FMShortLine nat nat
  | FMBadNumber string
  | TransEmptyFile
  | TransBadHeader string
  | TransBadLine string
  | TransInvalidField string
  | TransSumMismatch int int
  | CipherTooShort
  | InvalidPaddingByte
  | BadCipherLength
  | HexError
  | InvalidTrim
  | InvalidKeySize nat
  | PasswordMissing

section \<open>Items\<close>

type_synonym ItemID = int64

record ItemInfo =
  it_ID :: ItemID
  it_RecallType :: string
  it_Score :: float64
  it_Extra :: "(string \<rightharpoonup> string) option"
  it_HasPortrait :: bool

text \<open>The composite literal \<open>ItemInfo{ID: id, RecallType: rt}\<close>: every other field zero.\<close>

definition mk_item :: "ItemID \<Rightarrow> string \<Rightarrow> ItemInfo" where
  "mk_item i rt = \<lparr>it_ID = i, it_RecallType = rt, it_Score = Fin 0, it_Extra = None, it_HasPortrait = False\<rparr>"

lemma mk_item_simps [simp]:
  "it_ID (mk_item i rt) = i" "it_RecallType (mk_item i rt) = rt" "it_Score (mk_item i rt) = Fin 0"
  "it_Extra (mk_item i rt) = None" "it_HasPortrait (mk_item i rt) = False"
  by (simp_all add: mk_item_def)

record ItemGroup =
  gr_Name :: string
  gr_ItemIDs :: "ItemID list"
  gr_RetCount :: int32

record ItemScores =
  sc_ItemID :: ItemID
  sc_PreRankScore :: float32
  sc_RankScore :: float32
  sc_ReRankScore :: float32

record RankedItemGroup =
  rg_Name :: string
  rg_Items :: "ItemScores list"

record ExpInfo =
  ei_PreRankExpID :: int32
  ei_RankExpID :: int32
  ei_ReRankExpID :: int32

text \<open>Results of exclusive recall lanes, by recall type.\<close>

type_synonym ExclusivePool = "string \<rightharpoonup> ItemInfo list"

section \<open>Request context and the ranking interface\<close>

record RequestContext =
  rc_UUID :: string
  rc_UserID :: int64
  rc_Section :: int32
  rc_ExpIDs :: "int32 list"
  rc_DisablePersonal :: int32
  rc_DeviceID :: string
  rc_TerminalModel :: string
  rc_OSType :: string
  rc_UserGroup :: string
  rc_Exposure :: "(ItemID \<rightharpoonup> int) option"
  rc_UserFeat :: bytes

definition zero_ctx :: RequestContext where
  "zero_ctx = \<lparr>rc_UUID = [], rc_UserID = 0, rc_Section = 0, rc_ExpIDs = [], rc_DisablePersonal = 0,
     rc_DeviceID = [], rc_TerminalModel = [], rc_OSType = [], rc_UserGroup = [], rc_Exposure = None,
     rc_UserFeat = []\<rparr>"

record MultiRankRequest =
  mq_Ctx :: RequestContext
  mq_Groups :: "ItemGroup list"
  mq_PreRankTrunc :: int32
  mq_RankTrunc :: int32
  mq_RankProfile :: string

record MultiRankResponse =
  mp_UUID :: string
  mp_UserID :: int64
  mp_Exp :: ExpInfo
  mp_Groups :: "RankedItemGroup list"

text \<open>\<open>RankClient.MultiRank\<close>: an error, or a response pointer.\<close>

type_synonym RankClient = "MultiRankRequest \<Rightarrow> go_error + MultiRankResponse option"

section \<open>Reading a Go map\<close>

text \<open>\<open>m[k]\<close> on a map with default value \<open>d\<close> for an absent key.\<close>

definition map_get :: "'v \<Rightarrow> ('k \<rightharpoonup> 'v) \<Rightarrow> 'k \<Rightarrow> 'v" where
  "map_get d m k = (case m k of None \<Rightarrow> d | Some v \<Rightarrow> v)"

lemma map_get_upd [simp]: "map_get d (m(k \<mapsto> v)) j = (if j = k then v else map_get d m j)"
  by (simp add: map_get_def)

lemma map_get_empty [simp]: "map_get d Map.empty k = d"
  by (simp add: map_get_def)

end
