(* ===== verification/Funnel_Config.thy ===== *)
theory Funnel_Config
  imports Recsys_Items
begin

text \<open>
  \<open>pkg/recsyskit/funnel_config.go\<close> and \<open>services/recommend/internal/centerconfig/resolve.go\<close>: the
  funnel and center configuration structures, and the choice of an experiment variant and a user
  group. Pointers into a configuration slice are options of the element.
\<close>

section \<open>Choosing a variant: the shared contract\<close>

text \<open>
  Four places of the code pick an AB variant from a slice for the experiment ids of a request. The
  contract: the first request id that some variant carries decides, and the first such variant
  wins; otherwise the first variant with id 0; otherwise the first variant.
\<close>

definition ab_variant :: "('v \<Rightarrow> int32) \<Rightarrow> int32 list \<Rightarrow> 'v list \<Rightarrow> 'v option" where
  "ab_variant exp_of es vs =
     (case find (\<lambda>e. e \<in> exp_of ` set vs) es of
        Some e \<Rightarrow> find (\<lambda>v. exp_of v = e) vs
      | None \<Rightarrow>
          if 0 \<in> exp_of ` set vs then find (\<lambda>v. exp_of v = 0) vs
          else (case vs of [] \<Rightarrow> None | v # _ \<Rightarrow> Some v))"

lemma find_exists: "x \<in> set vs \<Longrightarrow> P x \<Longrightarrow> \<exists>v. find P vs = Some v"
  by (induction vs) auto

lemma find_image: "e \<in> f ` set vs \<Longrightarrow> \<exists>v \<in> set vs. find (\<lambda>v. f v = e) vs = Some v \<and> f v = e"
  using find_exists[of _ vs "\<lambda>v. f v = e"] find_Some_set by fastforce

lemma find_no_image: "e \<notin> f ` set vs \<Longrightarrow> find (\<lambda>v. f v = e) vs = None"
  by (auto simp: find_None_iff)

locale ab_pick =
  fixes exp_of :: "'v \<Rightarrow> int32" and pick :: "int32 list \<Rightarrow> 'v list \<Rightarrow> 'v option"
  assumes pick_Nil: "pick es [] = None"
    and pick_hit: "e \<in> exp_of ` set vs \<Longrightarrow> pick (e # es) vs = find (\<lambda>v. exp_of v = e) vs"
    and pick_skip: "e \<notin> exp_of ` set vs \<Longrightarrow> pick (e # es) vs = pick es vs"
    and pick_zero: "0 \<in> exp_of ` set vs \<Longrightarrow> pick [] vs = find (\<lambda>v. exp_of v = 0) vs"
    and pick_first: "0 \<notin> exp_of ` set vs \<Longrightarrow> vs \<noteq> [] \<Longrightarrow> pick [] vs = Some (hd vs)"
begin

text \<open>The laws determine the choice, so all implementations agree with one specification.\<close>

lemma pick_spec: "pick es vs = ab_variant exp_of es vs"
proof (induction es)
  case Nil
  show ?case
    by (cases vs) (auto simp: ab_variant_def pick_Nil pick_zero pick_first)
next
  case (Cons e es)
  then show ?case
    by (cases "e \<in> exp_of ` set vs") (simp_all add: ab_variant_def pick_hit pick_skip)
qed

lemma pick_total: "vs \<noteq> [] \<Longrightarrow> \<exists>v \<in> set vs. pick es vs = Some v"
proof (induction es)
  case Nil
  then show ?case
    using pick_first[of vs] pick_zero[of vs] find_image[of 0 exp_of vs]
    by (cases "0 \<in> exp_of ` set vs") auto
next
  case (Cons e es)
  then show ?case
    using pick_hit[of e vs es] pick_skip[of e vs es] find_image[of e exp_of vs]
    by (cases "e \<in> exp_of ` set vs") auto
qed

lemma pick_member: "pick es vs = Some v \<Longrightarrow> v \<in> set vs"
  using pick_total[of vs es] pick_Nil[of es] by (cases "vs = []") auto

text \<open>Experiment ids without a variant do not influence the choice.\<close>

lemma pick_filter: "pick (filter (\<lambda>e. e \<in> exp_of ` set vs) es) vs = pick es vs"
proof (induction es)
  case (Cons e es)
  then show ?case by (cases "e \<in> exp_of ` set vs") (simp_all add: pick_hit pick_skip)
qed simp

lemma pick_unknown:
  "(\<forall>e\<in>set es. e \<notin> exp_of ` set vs) \<Longrightarrow> pick es vs = pick [] vs"
  by (induction es) (simp_all add: pick_skip)

end

text \<open>The nested loops over request ids and variants, left at the first match.\<close>

fun find_by_exps :: "('v \<Rightarrow> int32) \<Rightarrow> int32 list \<Rightarrow> 'v list \<Rightarrow> 'v option" where
  "find_by_exps exp_of [] vs = None"
| "find_by_exps exp_of (e # es) vs =
     (case find (\<lambda>v. exp_of v = e) vs of Some v \<Rightarrow> Some v | None \<Rightarrow> find_by_exps exp_of es vs)"

definition pick_variant :: "('v \<Rightarrow> int32) \<Rightarrow> int32 list \<Rightarrow> 'v list \<Rightarrow> 'v option" where
  "pick_variant exp_of expIDs vs =
     (case find_by_exps exp_of expIDs vs of
        Some v \<Rightarrow> Some v
      | None \<Rightarrow>
          (case find (\<lambda>v. exp_of v = 0) vs of
             Some v \<Rightarrow> Some v
           | None \<Rightarrow> (case vs of [] \<Rightarrow> None | v # _ \<Rightarrow> Some v)))"

interpretation variant: ab_pick exp_of "pick_variant exp_of" for exp_of
proof
  fix es e and vs :: "'a list"
  show "pick_variant exp_of es [] = None"
    by (induction es) (auto simp: pick_variant_def)
  show "e \<in> exp_of ` set vs \<Longrightarrow> pick_variant exp_of (e # es) vs = find (\<lambda>v. exp_of v = e) vs"
    using find_image[of e exp_of vs] by (auto simp: pick_variant_def)
  show "e \<notin> exp_of ` set vs \<Longrightarrow> pick_variant exp_of (e # es) vs = pick_variant exp_of es vs"
    by (simp add: pick_variant_def find_no_image)
  show "0 \<in> exp_of ` set vs \<Longrightarrow> pick_variant exp_of [] vs = find (\<lambda>v. exp_of v = 0) vs"
    using find_image[of 0 exp_of vs] by (auto simp: pick_variant_def)
  show "0 \<notin> exp_of ` set vs \<Longrightarrow> vs \<noteq> [] \<Longrightarrow> pick_variant exp_of [] vs = Some (hd vs)"
    by (cases vs) (auto simp: pick_variant_def find_no_image)
qed

section \<open>\<open>PickABVariantIndex\<close>\<close>

fun scan_exps :: "int32 list \<Rightarrow> nat \<Rightarrow> (nat \<Rightarrow> int32) \<Rightarrow> nat option" where
  "scan_exps [] n expOf = None"
| "scan_exps (e # es) n expOf =
     (case find (\<lambda>i. expOf i = e) [0..<n] of Some i \<Rightarrow> Some i | None \<Rightarrow> scan_exps es n expOf)"

definition PickABVariantIndex :: "int32 list \<Rightarrow> nat \<Rightarrow> (nat \<Rightarrow> int32) \<Rightarrow> nat" where
  "PickABVariantIndex expIDs n expOf =
     (if n = 0 then 0
      else
        (case scan_exps expIDs n expOf of
           Some i \<Rightarrow> i
         | None \<Rightarrow> (case find (\<lambda>i. expOf i = 0) [0..<n] of Some i \<Rightarrow> i | None \<Rightarrow> 0)))"

lemma find_map: "find P (map f xs) = map_option f (find (P \<circ> f) xs)"
  by (induction xs) auto

lemma find_nth: "find P vs = map_option (\<lambda>i. vs ! i) (find (\<lambda>i. P (vs ! i)) [0..<length vs])"
  using find_map[of P "(!) vs" "[0..<length vs]"] by (simp add: map_nth comp_def)

lemma scan_exps_find_by_exps:
  "map_option (\<lambda>i. vs ! i) (scan_exps es (length vs) (\<lambda>j. exp_of (vs ! j))) = find_by_exps exp_of es vs"
proof (induction es)
  case (Cons e es)
  then show ?case
    using find_nth[of "\<lambda>v. exp_of v = e" vs]
    by (cases "find (\<lambda>i. exp_of (vs ! i) = e) [0..<length vs]") auto
qed simp

lemma scan_exps_bound: "scan_exps es n expOf = Some i \<Longrightarrow> i < n"
  by (induction es) (auto split: option.splits dest: find_Some_set)

lemma PickABVariantIndex_bound: "0 < n \<Longrightarrow> PickABVariantIndex expIDs n expOf < n"
  by (auto simp: PickABVariantIndex_def split: option.splits dest: find_Some_set scan_exps_bound)

text \<open>Indexing with its result, as the callers do after checking that the slice is not empty.\<close>

lemma PickABVariantIndex_pick_variant:
  assumes "vs \<noteq> []"
  shows "Some (vs ! PickABVariantIndex es (length vs) (\<lambda>j. exp_of (vs ! j))) = pick_variant exp_of es vs"
proof (cases "scan_exps es (length vs) (\<lambda>j. exp_of (vs ! j))")
  case None
  then have "find_by_exps exp_of es vs = None"
    using scan_exps_find_by_exps[of vs es exp_of] by simp
  with None assms show ?thesis
    using find_nth[of "\<lambda>v. exp_of v = 0" vs]
    by (cases "find (\<lambda>i. exp_of (vs ! i) = 0) [0..<length vs]")
      (auto simp: PickABVariantIndex_def pick_variant_def hd_conv_nth[symmetric] split: list.splits)
next
  case (Some i)
  then have "find_by_exps exp_of es vs = Some (vs ! i)"
    using scan_exps_find_by_exps[of vs es exp_of] by simp
  with Some assms show ?thesis by (simp add: PickABVariantIndex_def pick_variant_def)
qed

section \<open>Funnel configuration (\<open>funnel_config.go\<close>)\<close>

record RecallMergeRule =
  rr_RecallType :: string
  rr_RecallNum :: int
  rr_MergeMaxNum :: int
  rr_SampleFold :: int
  rr_UseTopKIndex :: int

record FilterPolicy =
  fp_Type :: string
  fp_BackoffAfter :: int

record ShowControlCfg =
  sw_MaxItems :: int

record FilterAbVariant =
  fa_ExpID :: int32
  fa_FilterPolicies :: "FilterPolicy list"

record RecallAbVariant =
  ra_ExpID :: int32
  ra_ExclusiveRecallList :: "RecallMergeRule list"
  ra_RecallAndMergeList :: "RecallMergeRule list"

record ShowAbVariant =
  sa_ExpID :: int32
  sa_ShowControl :: ShowControlCfg

record FunnelUserGroup =
  fg_UserGroup :: string
  fg_AllMergeNum :: int
  fg_FilterPolicies :: "FilterPolicy list"
  fg_ExclusiveRecallList :: "RecallMergeRule list"
  fg_RecallAndMergeList :: "RecallMergeRule list"
  fg_FinalRetCount :: int
  fg_ShowControl :: ShowControlCfg
  fg_FilterAb :: "FilterAbVariant list"
  fg_RecallAb :: "RecallAbVariant list"
  fg_ShowAb :: "ShowAbVariant list"

record FunnelVariant =
  fv_ExpID :: int32
  fv_UserGroupList :: "FunnelUserGroup list"

record FunnelLibrary =
  fl_MapRecommend :: "FunnelVariant list"

text \<open>The loops of \<open>ResolveFunnel\<close>: a variant with an id, the first request id that has one, a group by name.\<close>

fun funnel_with_exp :: "int32 \<Rightarrow> FunnelVariant list \<Rightarrow> FunnelVariant option" where
  "funnel_with_exp e [] = None"
| "funnel_with_exp e (v # vs) = (if fv_ExpID v = e then Some v else funnel_with_exp e vs)"

fun funnel_by_exps :: "int32 list \<Rightarrow> FunnelVariant list \<Rightarrow> FunnelVariant option" where
  "funnel_by_exps [] vs = None"
| "funnel_by_exps (e # es) vs =
     (case funnel_with_exp e vs of Some v \<Rightarrow> Some v | None \<Rightarrow> funnel_by_exps es vs)"

definition funnel_variant :: "int32 list \<Rightarrow> FunnelVariant list \<Rightarrow> FunnelVariant option" where
  "funnel_variant expIDs vs =
     (if vs = [] then None
      else
        (case funnel_by_exps expIDs vs of
           Some v \<Rightarrow> Some v
         | None \<Rightarrow> (case funnel_with_exp 0 vs of Some v \<Rightarrow> Some v | None \<Rightarrow> Some (vs ! 0))))"

fun funnel_named :: "string \<Rightarrow> FunnelUserGroup list \<Rightarrow> FunnelUserGroup option" where
  "funnel_named u [] = None"
| "funnel_named u (g # gs) = (if fg_UserGroup g = u then Some g else funnel_named u gs)"

definition ResolveFunnel ::
  "FunnelLibrary option \<Rightarrow> int32 list \<Rightarrow> string \<Rightarrow> FunnelUserGroup option" where
  "ResolveFunnel lib expIDs userGroup =
     (case lib of
        None \<Rightarrow> None
      | Some l \<Rightarrow>
          (case funnel_variant expIDs (fl_MapRecommend l) of
             None \<Rightarrow> None
           | Some v \<Rightarrow>
               if fv_UserGroupList v = [] then None
               else
                 (case (if userGroup \<noteq> [] then funnel_named userGroup (fv_UserGroupList v) else None) of
                    Some g \<Rightarrow> Some g
                  | None \<Rightarrow> Some (fv_UserGroupList v ! 0))))"

definition funnel_ResolvedFilterPolicies ::
  "FunnelUserGroup option \<Rightarrow> int32 list \<Rightarrow> FilterPolicy list" where
  "funnel_ResolvedFilterPolicies go expIDs =
     (case go of
        None \<Rightarrow> []
      | Some g \<Rightarrow>
          if fg_FilterAb g = [] then fg_FilterPolicies g
          else
            let i = PickABVariantIndex expIDs (length (fg_FilterAb g)) (\<lambda>j. fa_ExpID (fg_FilterAb g ! j))
            in fa_FilterPolicies (fg_FilterAb g ! i))"

definition funnel_ResolvedRecallLists ::
  "FunnelUserGroup option \<Rightarrow> int32 list \<Rightarrow> RecallMergeRule list \<times> RecallMergeRule list" where
  "funnel_ResolvedRecallLists go expIDs =
     (case go of
        None \<Rightarrow> ([], [])
      | Some g \<Rightarrow>
          if fg_RecallAb g = [] then (fg_ExclusiveRecallList g, fg_RecallAndMergeList g)
          else
            let i = PickABVariantIndex expIDs (length (fg_RecallAb g)) (\<lambda>j. ra_ExpID (fg_RecallAb g ! j))
            in (ra_ExclusiveRecallList (fg_RecallAb g ! i), ra_RecallAndMergeList (fg_RecallAb g ! i)))"

definition funnel_ResolvedShowControl :: "FunnelUserGroup option \<Rightarrow> int32 list \<Rightarrow> ShowControlCfg" where
  "funnel_ResolvedShowControl go expIDs =
     (case go of
        None \<Rightarrow> \<lparr>sw_MaxItems = 0\<rparr>
      | Some g \<Rightarrow>
          if fg_ShowAb g = [] then fg_ShowControl g
          else
            let i = PickABVariantIndex expIDs (length (fg_ShowAb g)) (\<lambda>j. sa_ExpID (fg_ShowAb g ! j))
            in sa_ShowControl (fg_ShowAb g ! i))"

section \<open>Center configuration (\<open>centerconfig/resolve.go\<close>)\<close>

record 'g mapRecommendVariant =
  mv_ExpID :: int32
  mv_UserGroupList :: "'g list"

text \<open>The tail of \<open>resolveMapRecommend\<close>: the named group, else the first one.\<close>

definition pick_group :: "('g \<Rightarrow> string) \<Rightarrow> string \<Rightarrow> 'g list \<Rightarrow> 'g option" where
  "pick_group group_of userGroup gs =
     (case gs of
        [] \<Rightarrow> None
      | g # _ \<Rightarrow>
          (case (if userGroup \<noteq> [] then find (\<lambda>h. group_of h = userGroup) gs else None) of
             Some h \<Rightarrow> Some h
           | None \<Rightarrow> Some g))"

definition resolveMapRecommend ::
  "'g mapRecommendVariant list \<Rightarrow> int32 list \<Rightarrow> string \<Rightarrow> ('g \<Rightarrow> string) \<Rightarrow> 'g option" where
  "resolveMapRecommend lib expIDs userGroup userGroupOf =
     (case pick_variant mv_ExpID expIDs lib of
        None \<Rightarrow> None
      | Some v \<Rightarrow> pick_group userGroupOf userGroup (mv_UserGroupList v))"

record RecallUserGroup =
  ru_UserGroup :: string
  ru_AllMergeNum :: int
  ru_ExclusiveRecallList :: "RecallMergeRule list"
  ru_RecallAndMergeList :: "RecallMergeRule list"
  ru_FinalRetCount :: int
  ru_RecallAb :: "RecallAbVariant list"

record RecallLibrary =
  rl_MapRecommend :: "RecallUserGroup mapRecommendVariant list"

definition ResolveRecall :: "RecallLibrary option \<Rightarrow> int32 list \<Rightarrow> string \<Rightarrow> RecallUserGroup option" where
  "ResolveRecall lib expIDs userGroup =
     (case lib of
        None \<Rightarrow> None
      | Some l \<Rightarrow> resolveMapRecommend (rl_MapRecommend l) expIDs userGroup ru_UserGroup)"

definition center_ResolvedRecallLists ::
  "RecallUserGroup option \<Rightarrow> int32 list \<Rightarrow> RecallMergeRule list \<times> RecallMergeRule list" where
  "center_ResolvedRecallLists go expIDs =
     (case go of
        None \<Rightarrow> ([], [])
      | Some g \<Rightarrow>
          if ru_RecallAb g = [] then (ru_ExclusiveRecallList g, ru_RecallAndMergeList g)
          else
            let i = PickABVariantIndex expIDs (length (ru_RecallAb g)) (\<lambda>j. ra_ExpID (ru_RecallAb g ! j))
            in (ra_ExclusiveRecallList (ru_RecallAb g ! i), ra_RecallAndMergeList (ru_RecallAb g ! i)))"

record RuleFilterStrategy =
  rf_FilterType :: string
  rf_ValidityTime :: int
  rf_ExposureLimit :: int
  rf_ForcedRatio :: int

record FeatureFilterStrategy =
  ff_FilterType :: string
  ff_WhiteListLabel :: string

record filterAbVariant =
  fb_ExpID :: int32
  fb_RuleFilterStrategyList :: "RuleFilterStrategy list"
  fb_FeatureFilterStrategyList :: "FeatureFilterStrategy list"

record filterUserGroup =
  fu_UserGroup :: string
  fu_KeepItemNum :: int
  fu_RuleFilterStrategyList :: "RuleFilterStrategy list"
  fu_FeatureFilterStrategyList :: "FeatureFilterStrategy list"
  fu_FilterAb :: "filterAbVariant list"

record FilterLibrary =
  ftl_MapRecommend :: "filterUserGroup mapRecommendVariant list"

definition ResolveFilter :: "FilterLibrary option \<Rightarrow> int32 list \<Rightarrow> string \<Rightarrow> filterUserGroup option" where
  "ResolveFilter lib expIDs userGroup =
     (case lib of
        None \<Rightarrow> None
      | Some l \<Rightarrow> resolveMapRecommend (ftl_MapRecommend l) expIDs userGroup fu_UserGroup)"

definition ResolvedRuleAndFeature ::
  "filterUserGroup option \<Rightarrow> int32 list \<Rightarrow> RuleFilterStrategy list \<times> FeatureFilterStrategy list" where
  "ResolvedRuleAndFeature go expIDs =
     (case go of
        None \<Rightarrow> ([], [])
      | Some g \<Rightarrow>
          if fu_FilterAb g = [] then (fu_RuleFilterStrategyList g, fu_FeatureFilterStrategyList g)
          else
            let i = PickABVariantIndex expIDs (length (fu_FilterAb g)) (\<lambda>j. fb_ExpID (fu_FilterAb g ! j))
            in (fb_RuleFilterStrategyList (fu_FilterAb g ! i), fb_FeatureFilterStrategyList (fu_FilterAb g ! i)))"

record ForcedInsertRule =
  fi_RecallType :: string
  fi_ForcedInsertCount :: int
  fi_ExtractMethod :: string

record ShowStrategy =
  ss_ShowControlType :: string
  ss_Method :: string
  ss_TopNShowControl :: int
  ss_RecallTypeList :: string
  ss_ScoreControlFactor :: float64
  ss_PageNum :: int
  ss_PageSize :: int
  ss_PageInsertCount :: int
  ss_MMRConstant :: float64
  ss_MMRDimension :: int
  ss_ForcedInsert :: "ForcedInsertRule list"
  ss_Comment :: string

record showAbVariant =
  sv_ExpID :: int32
  sv_StrategyList :: "ShowStrategy list"

record showUserGroup =
  su_UserGroup :: string
  su_StrategyList :: "ShowStrategy list"
  su_ShowAb :: "showAbVariant list"

record ShowLibrary =
  sl_MapRecommend :: "showUserGroup mapRecommendVariant list"

definition ResolveShow :: "ShowLibrary option \<Rightarrow> int32 list \<Rightarrow> string \<Rightarrow> showUserGroup option" where
  "ResolveShow lib expIDs userGroup =
     (case lib of
        None \<Rightarrow> None
      | Some l \<Rightarrow> resolveMapRecommend (sl_MapRecommend l) expIDs userGroup su_UserGroup)"

definition ResolvedStrategyList :: "showUserGroup option \<Rightarrow> int32 list \<Rightarrow> ShowStrategy list" where
  "ResolvedStrategyList go expIDs =
     (case go of
        None \<Rightarrow> []
      | Some g \<Rightarrow>
          if su_ShowAb g = [] then su_StrategyList g
          else
            let i = PickABVariantIndex expIDs (length (su_ShowAb g)) (\<lambda>j. sv_ExpID (su_ShowAb g ! j))
            in sv_StrategyList (su_ShowAb g ! i))"

text \<open>The bundle of the three split files (\<open>bundle.go\<close>).\<close>

record CenterBundle =
  cb_Recall :: "RecallLibrary option"
  cb_Filter :: "FilterLibrary option"
  cb_Show :: "ShowLibrary option"

section \<open>Properties\<close>

lemma pick_group_None: "pick_group f u gs = None \<longleftrightarrow> gs = []"
  by (auto simp: pick_group_def split: list.splits option.splits)

lemma pick_group_mem: "pick_group f u gs = Some g \<Longrightarrow> g \<in> set gs"
  by (auto simp: pick_group_def split: list.splits option.splits if_splits dest: find_Some_set)

text \<open>C7: indexing a non-empty variant slice with \<open>PickABVariantIndex\<close> stays in bounds and selects the
  variant the map resolvers select: the first request experiment id that is configured, in request
  order, then experiment 0, then the first variant.\<close>

theorem PickABVariantIndex_selects:
  assumes "vs \<noteq> []"
  shows "let i = PickABVariantIndex expIDs (length vs) (\<lambda>j. exp_of (vs ! j)) in
    i < length vs \<and> Some (vs ! i) = ab_variant exp_of expIDs vs"
  using assms PickABVariantIndex_bound[of "length vs"] PickABVariantIndex_pick_variant[OF assms]
  by (simp add: variant.pick_spec Let_def)

theorem PickABVariantIndex_selects_witness:
  "let vs = [(0, ''base''), (7, ''seven''), (7, ''late'')];
       i = PickABVariantIndex [9, 7, 0] (length vs) (\<lambda>j. fst (vs ! j)) in
    i < length vs \<and> Some (vs ! i) = ab_variant fst [9, 7, 0] vs"
  unfolding Let_def by (rule PickABVariantIndex_selects[unfolded Let_def]) simp

lemma pick_group_named:
  assumes "pick_group f u gs = Some h"
  shows "if u \<noteq> [] \<and> u \<in> f ` set gs then f h = u else h = hd gs"
proof (cases "find (\<lambda>h. f h = u) gs")
  case None
  then have "u \<notin> f ` set gs" by (auto simp: find_None_iff)
  then show ?thesis using assms None by (auto simp: pick_group_def split: list.splits if_splits)
next
  case (Some k)
  then show ?thesis using assms find_Some_set[OF Some]
    by (auto simp: pick_group_def split: list.splits if_splits)
qed

text \<open>The user group a center library resolves to belongs to the variant chosen for the request; it
  is the group the caller named when that variant has it, and the variant's first group otherwise.\<close>

theorem resolveMapRecommend_group:
  "case resolveMapRecommend lib expIDs userGroup userGroupOf of
     None \<Rightarrow> lib = [] \<or> (\<exists>v\<in>set lib. mv_UserGroupList v = [])
   | Some g \<Rightarrow> \<exists>v. ab_variant mv_ExpID expIDs lib = Some v \<and> v \<in> set lib \<and> g \<in> set (mv_UserGroupList v) \<and>
       (if userGroup \<noteq> [] \<and> userGroup \<in> userGroupOf ` set (mv_UserGroupList v)
        then userGroupOf g = userGroup else g = hd (mv_UserGroupList v))"
proof (cases "pick_variant mv_ExpID expIDs lib")
  case None
  then have "lib = []" using variant.pick_total[of lib mv_ExpID expIDs] by force
  then show ?thesis using None by (simp add: resolveMapRecommend_def)
next
  case (Some v)
  then have v: "ab_variant mv_ExpID expIDs lib = Some v" "v \<in> set lib"
    using variant.pick_spec[of mv_ExpID expIDs lib] variant.pick_member by fastforce+
  show ?thesis
  proof (cases "mv_UserGroupList v")
    case Nil
    then show ?thesis using Some v by (auto simp: resolveMapRecommend_def pick_group_def)
  next
    case (Cons g gs)
    then obtain h where h: "pick_group userGroupOf userGroup (mv_UserGroupList v) = Some h"
      using pick_group_None[of userGroupOf userGroup "mv_UserGroupList v"] by (metis list.distinct(1) option.exhaust)
    have "resolveMapRecommend lib expIDs userGroup userGroupOf = Some h"
      using Some h by (simp add: resolveMapRecommend_def)
    then show ?thesis using v pick_group_mem[OF h] pick_group_named[OF h] by auto
  qed
qed

lemma funnel_with_exp_find: "funnel_with_exp e vs = find (\<lambda>v. fv_ExpID v = e) vs"
  by (induction vs) auto

lemma funnel_by_exps_find: "funnel_by_exps es vs = find_by_exps fv_ExpID es vs"
  by (induction es) (auto simp: funnel_with_exp_find split: option.split)

lemma funnel_variant_pick: "funnel_variant es vs = pick_variant fv_ExpID es vs"
proof -
  have "find_by_exps fv_ExpID es [] = None" by (induction es) auto
  then show ?thesis
    by (auto simp: funnel_variant_def pick_variant_def funnel_by_exps_find funnel_with_exp_find split: option.split list.split)
qed

interpretation funnel: ab_pick fv_ExpID funnel_variant
  unfolding funnel_variant_pick by (rule variant.ab_pick_axioms)

text \<open>
  The contract of both resolvers: the variant of the experiment contract, and in it the first group with the
  name asked for, or else its first group.
\<close>

definition resolve_contract ::
  "('v \<Rightarrow> int32) \<Rightarrow> ('v \<Rightarrow> 'g list) \<Rightarrow> ('g \<Rightarrow> string) \<Rightarrow> 'v list \<Rightarrow> int32 list \<Rightarrow> string \<Rightarrow> 'g option" where
  "resolve_contract expOf groupsOf nameOf vs es u =
     (case ab_variant expOf es vs of
        None \<Rightarrow> None
      | Some v \<Rightarrow>
          (case filter (\<lambda>g. u \<noteq> [] \<and> nameOf g = u) (groupsOf v) @ groupsOf v of [] \<Rightarrow> None | g # _ \<Rightarrow> Some g))"

lemma find_filter: "find P xs = (case filter P xs of [] \<Rightarrow> None | x # _ \<Rightarrow> Some x)"
  by (induction xs) auto

lemma pick_group_contract:
  "pick_group f u gs = (case filter (\<lambda>g. u \<noteq> [] \<and> f g = u) gs @ gs of [] \<Rightarrow> None | g # _ \<Rightarrow> Some g)"
  by (cases "u = []") (auto simp: pick_group_def find_filter split: list.split)

lemma funnel_named_find: "funnel_named u gs = find (\<lambda>g. fg_UserGroup g = u) gs"
  by (induction gs) auto

lemma resolveMapRecommend_contract:
  "resolveMapRecommend vs es u nameOf = resolve_contract mv_ExpID mv_UserGroupList nameOf vs es u"
  unfolding resolveMapRecommend_def resolve_contract_def variant.pick_spec pick_group_contract by (rule refl)

lemma ResolveFunnel_contract:
  "ResolveFunnel (Some lib) es u = resolve_contract fv_ExpID fv_UserGroupList fg_UserGroup (fl_MapRecommend lib) es u"
proof -
  have g: "(if gs = [] then None
         else case (if u \<noteq> [] then funnel_named u gs else None) of Some g \<Rightarrow> Some g | None \<Rightarrow> Some (gs ! 0)) =
      pick_group fg_UserGroup u gs" for gs
    by (auto simp: pick_group_def funnel_named_find split: list.split option.split)
  show ?thesis
    unfolding ResolveFunnel_def resolve_contract_def funnel.pick_spec pick_group_contract[symmetric] option.case g by (rule refl)
qed

lemma ab_variant_map: "ab_variant f es (map g vs) = map_option g (ab_variant (f \<circ> g) es vs)"
  by (auto simp: ab_variant_def find_map comp_def image_image split: option.split list.split)

text \<open>C8: the funnel resolver and the center resolver, two copies of the same loops, both meet one contract: the
  variant of the first request id that has one, else of id 0, else the first; and in it the first group of the
  name asked for, else the first. So they agree on their two shapes of configuration, and experiment ids that no
  variant carries never change the resolved group.\<close>

theorem ResolveFunnel_center_equiv:
  "ResolveFunnel (Some lib) expIDs userGroup =
     resolve_contract fv_ExpID fv_UserGroupList fg_UserGroup (fl_MapRecommend lib) expIDs userGroup
   \<and> resolveMapRecommend variants expIDs userGroup userGroupOf =
     resolve_contract mv_ExpID mv_UserGroupList userGroupOf variants expIDs userGroup
   \<and> ResolveFunnel (Some lib) expIDs userGroup =
     resolveMapRecommend
       (map (\<lambda>v. \<lparr>mv_ExpID = fv_ExpID v, mv_UserGroupList = fv_UserGroupList v\<rparr>) (fl_MapRecommend lib))
       expIDs userGroup fg_UserGroup
   \<and> ResolveFunnel (Some lib) expIDs userGroup =
     ResolveFunnel (Some lib) (filter (\<lambda>e. e \<in> fv_ExpID ` set (fl_MapRecommend lib)) expIDs) userGroup"
proof -
  have "ResolveFunnel (Some lib) expIDs userGroup =
     resolveMapRecommend
       (map (\<lambda>v. \<lparr>mv_ExpID = fv_ExpID v, mv_UserGroupList = fv_UserGroupList v\<rparr>) (fl_MapRecommend lib))
       expIDs userGroup fg_UserGroup"
    by (simp add: ResolveFunnel_contract resolveMapRecommend_contract resolve_contract_def ab_variant_map comp_def
        split: option.split)
  then show ?thesis
    using ResolveFunnel_contract resolveMapRecommend_contract by (auto simp: ResolveFunnel_def funnel.pick_filter)
qed

end
