(* ===== verification/Item_Filters.thy ===== *)
theory Item_Filters
  imports Funnel_Config
begin

text \<open>
  The filters between merge and rank: \<open>pkg/recsyskit/funnel_filter.go\<close>, the filter half of
  \<open>centerconfig/apply.go\<close>, and \<open>services/recommend/internal/filter\<close>. Every one of them is shown to
  be a stage that only drops candidates, and every policy list to be a single predicate.
\<close>

section \<open>Funnel policies (\<open>funnel_filter.go\<close>)\<close>

definition filterExposureBackoff :: "ItemInfo list \<Rightarrow> (ItemID \<rightharpoonup> int) \<Rightarrow> int \<Rightarrow> ItemInfo list" where
  "filterExposureBackoff items exposure after =
     filter (\<lambda>it. \<not> after \<le> map_get 0 exposure (it_ID it)) items"

definition apply_policy :: "RequestContext \<Rightarrow> FilterPolicy \<Rightarrow> ItemInfo list \<Rightarrow> ItemInfo list" where
  "apply_policy rctx p out =
     (if fp_Type p = ''exposure_backoff'' then
        (case rc_Exposure rctx of
           None \<Rightarrow> out
         | Some exposure \<Rightarrow>
             if fp_BackoffAfter p \<le> 0 then out
             else filterExposureBackoff out exposure (fp_BackoffAfter p))
      else out)"

definition ApplyFilterPolicies :: "RequestContext \<Rightarrow> FilterPolicy list \<Rightarrow> ItemInfo list \<Rightarrow> ItemInfo list" where
  "ApplyFilterPolicies rctx policies items =
     (if policies = [] \<or> items = [] then items else fold (apply_policy rctx) policies items)"

definition ApplyShowControl :: "ShowControlCfg \<Rightarrow> ItemInfo list \<Rightarrow> ItemInfo list" where
  "ApplyShowControl cfg items =
     (if sw_MaxItems cfg \<le> 0 \<or> int (length items) \<le> sw_MaxItems cfg then items
      else upto_n (sw_MaxItems cfg) items)"

section \<open>Rule and feature filters (\<open>centerconfig/apply.go\<close>)\<close>

definition filterLiveExposure :: "ItemInfo list \<Rightarrow> RequestContext \<Rightarrow> int \<Rightarrow> ItemInfo list" where
  "filterLiveExposure items rctx limit =
     (case rc_Exposure rctx of
        None \<Rightarrow> items
      | Some exposure \<Rightarrow>
          if limit \<le> 0 \<or> items = [] then items
          else filter (\<lambda>it. \<not> limit < map_get 0 exposure (it_ID it)) items)"

definition apply_rule :: "RequestContext \<Rightarrow> RuleFilterStrategy \<Rightarrow> ItemInfo list \<Rightarrow> ItemInfo list" where
  "apply_rule rctx rule out =
     (if rf_FilterType rule = ''LiveExposure'' then filterLiveExposure out rctx (rf_ExposureLimit rule)
      else out)"

definition ApplyRuleFilters :: "RequestContext \<Rightarrow> RuleFilterStrategy list \<Rightarrow> ItemInfo list \<Rightarrow> ItemInfo list" where
  "ApplyRuleFilters rctx rules items = fold (apply_rule rctx) rules items"

definition filterFeatureLess :: "ItemInfo list \<Rightarrow> ItemInfo list" where
  "filterFeatureLess items = (if items = [] then items else filter it_HasPortrait items)"

definition filterLabelWhiteList :: "ItemInfo list \<Rightarrow> string \<Rightarrow> ItemInfo list" where
  "filterLabelWhiteList items label =
     (if label = [] \<or> items = [] then items
      else filter (\<lambda>it. case it_Extra it of None \<Rightarrow> False | Some m \<Rightarrow> map_get [] m ''label'' = label) items)"

definition apply_feature :: "FeatureFilterStrategy \<Rightarrow> ItemInfo list \<Rightarrow> ItemInfo list" where
  "apply_feature rule out =
     (if ff_FilterType rule = ''FeatureLess'' then filterFeatureLess out
      else if ff_FilterType rule = ''LabelTypeWhiteList'' then filterLabelWhiteList out (ff_WhiteListLabel rule)
      else out)"

definition ApplyFeatureFilters :: "FeatureFilterStrategy list \<Rightarrow> ItemInfo list \<Rightarrow> ItemInfo list" where
  "ApplyFeatureFilters rules items = fold apply_feature rules items"

definition CapKeepItemNum :: "int \<Rightarrow> ItemInfo list \<Rightarrow> ItemInfo list" where
  "CapKeepItemNum keep items =
     (if keep \<le> 0 \<or> int (length items) \<le> keep then items else upto_n keep items)"

section \<open>The \<open>filter\<close> package of the service\<close>

definition filter_ApplyFeatureLess :: "ItemInfo list \<Rightarrow> ItemInfo list" where
  "filter_ApplyFeatureLess items = filter it_HasPortrait items"

definition filter_ApplyRuleFilters ::
  "RequestContext \<Rightarrow> RuleFilterStrategy list \<Rightarrow> ItemInfo list \<Rightarrow> ItemInfo list" where
  "filter_ApplyRuleFilters rctx rules items = ApplyRuleFilters rctx rules items"

definition filter_apply_feature :: "FeatureFilterStrategy \<Rightarrow> ItemInfo list \<Rightarrow> ItemInfo list" where
  "filter_apply_feature rule out =
     (if ff_FilterType rule = ''FeatureLess'' then filter_ApplyFeatureLess out
      else if ff_FilterType rule = ''LabelTypeWhiteList'' then ApplyFeatureFilters [rule] out
      else out)"

definition filter_ApplyFeatureFilters :: "FeatureFilterStrategy list \<Rightarrow> ItemInfo list \<Rightarrow> ItemInfo list" where
  "filter_ApplyFeatureFilters rules items = fold filter_apply_feature rules items"

definition ApplyToExclusivePool ::
  "RequestContext \<Rightarrow> RuleFilterStrategy list \<Rightarrow> FeatureFilterStrategy list \<Rightarrow> ExclusivePool \<Rightarrow> ExclusivePool" where
  "ApplyToExclusivePool rctx rules feats pool =
     (\<lambda>recallType.
        case pool recallType of
          None \<Rightarrow> None
        | Some items \<Rightarrow>
            let items' = filter_ApplyFeatureFilters feats (filter_ApplyRuleFilters rctx rules items)
            in if items' \<noteq> [] then Some items' else None)"

section \<open>Every filter only drops candidates\<close>

lemma apply_policy_filter:
  "apply_policy rctx p = filter (\<lambda>it. \<not> (fp_Type p = ''exposure_backoff'' \<and> 0 < fp_BackoffAfter p \<and>
     (\<exists>m. rc_Exposure rctx = Some m \<and> fp_BackoffAfter p \<le> map_get 0 m (it_ID it))))"
  by (rule ext, cases "rc_Exposure rctx") (auto simp: apply_policy_def filterExposureBackoff_def)

definition rule_keeps :: "RequestContext \<Rightarrow> RuleFilterStrategy \<Rightarrow> ItemInfo \<Rightarrow> bool" where
  "rule_keeps rctx rule it =
     (rf_FilterType rule = ''LiveExposure'' \<and> 0 < rf_ExposureLimit rule \<longrightarrow>
      (case rc_Exposure rctx of None \<Rightarrow> True | Some m \<Rightarrow> map_get 0 m (it_ID it) \<le> rf_ExposureLimit rule))"

lemma apply_rule_filter: "apply_rule rctx rule = filter (rule_keeps rctx rule)"
proof
  fix xs
  show "apply_rule rctx rule xs = filter (rule_keeps rctx rule) xs"
    by (cases "rc_Exposure rctx")
      (auto simp: apply_rule_def filterLiveExposure_def rule_keeps_def not_less intro!: filter_cong)
qed

definition feature_keeps :: "FeatureFilterStrategy \<Rightarrow> ItemInfo \<Rightarrow> bool" where
  "feature_keeps rule it =
     ((ff_FilterType rule = ''FeatureLess'' \<longrightarrow> it_HasPortrait it) \<and>
      (ff_FilterType rule = ''LabelTypeWhiteList'' \<and> ff_WhiteListLabel rule \<noteq> [] \<longrightarrow>
        (case it_Extra it of None \<Rightarrow> False | Some m \<Rightarrow> map_get [] m ''label'' = ff_WhiteListLabel rule)))"

lemma apply_feature_filter: "apply_feature rule = filter (feature_keeps rule)"
  by (rule ext) (auto simp: apply_feature_def filterFeatureLess_def filterLabelWhiteList_def
      feature_keeps_def intro!: filter_cong)

lemma filter_apply_feature_eq: "filter_apply_feature rule = apply_feature rule"
  by (rule ext) (auto simp: filter_apply_feature_def apply_feature_def filter_ApplyFeatureLess_def
      filterFeatureLess_def ApplyFeatureFilters_def)

lemma fold_filters:
  "(\<And>p. f p = filter (keeps p)) \<Longrightarrow> fold f ps xs = filter (\<lambda>x. \<forall>p\<in>set ps. keeps p x) xs"
  by (induction ps arbitrary: xs) (simp_all add: conj_commute)

interpretation policies: drop_chain "apply_policy rctx" for rctx
  by unfold_locales (simp add: apply_policy_filter subseq_filter_left)

interpretation rules: drop_chain "apply_rule rctx" for rctx
  by unfold_locales (simp add: apply_rule_filter subseq_filter_left)

interpretation features: drop_chain apply_feature
  by unfold_locales (simp add: apply_feature_filter subseq_filter_left)

interpretation keep_cap: drop_stage "CapKeepItemNum keep" for keep
  by unfold_locales (simp add: CapKeepItemNum_def upto_n_subseq)

interpretation show_cap: drop_stage "ApplyShowControl cfg" for cfg
  by unfold_locales (simp add: ApplyShowControl_def upto_n_subseq)

lemma ApplyFilterPolicies_fold: "ApplyFilterPolicies rctx ps xs = fold (apply_policy rctx) ps xs"
  by (simp add: ApplyFilterPolicies_def)

interpretation policy_stage: drop_stage "ApplyFilterPolicies rctx ps" for rctx ps
  by unfold_locales (simp add: ApplyFilterPolicies_fold policies.fold_subseq)

interpretation rule_stage: drop_stage "ApplyRuleFilters rctx rules" for rctx rules
  by unfold_locales (simp add: ApplyRuleFilters_def rules.fold_subseq)

interpretation feature_stage: drop_stage "filter_ApplyFeatureFilters feats" for feats
  by unfold_locales (simp add: filter_ApplyFeatureFilters_def filter_apply_feature_eq[abs_def] features.fold_subseq)

section \<open>Properties\<close>

text \<open>C6: a rule list keeps exactly the candidates that no active \<open>LiveExposure\<close> rule finds exposed more
  often than its limit, in their order; other rule types and a missing exposure table change nothing.\<close>

theorem ApplyRuleFilters_keeps:
  "ApplyRuleFilters rctx rules items =
   filter (\<lambda>it. \<not> (\<exists>r\<in>set rules. \<exists>m. rf_FilterType r = ''LiveExposure'' \<and> 0 < rf_ExposureLimit r \<and>
      rc_Exposure rctx = Some m \<and> rf_ExposureLimit r < map_get 0 m (it_ID it))) items"
  unfolding ApplyRuleFilters_def fold_filters[OF apply_rule_filter]
  by (intro filter_cong refl) (force simp: rule_keeps_def split: option.splits)

text \<open>C9: the service's feature filters agree with the config package's, and what they keep satisfies every
  listed strategy: a portrait under \<open>FeatureLess\<close>, the white-listed label under \<open>LabelTypeWhiteList\<close>.\<close>

theorem feature_filters_equiv:
  "filter_ApplyFeatureFilters rules items = ApplyFeatureFilters rules items
   \<and> ApplyFeatureFilters rules items = filter (\<lambda>it. \<not> (\<exists>r\<in>set rules.
       (ff_FilterType r = ''FeatureLess'' \<and> \<not> it_HasPortrait it) \<or>
       (ff_FilterType r = ''LabelTypeWhiteList'' \<and> ff_WhiteListLabel r \<noteq> [] \<and>
        Option.bind (it_Extra it) (\<lambda>m. Some (map_get [] m ''label'')) \<noteq> Some (ff_WhiteListLabel r)))) items"
  unfolding filter_ApplyFeatureFilters_def ApplyFeatureFilters_def filter_apply_feature_eq[abs_def]
    fold_filters[OF apply_feature_filter]
  by (intro conjI refl filter_cong) (auto simp: feature_keeps_def split: option.splits)

text \<open>The two exposure gates differ by one: \<open>LiveExposure\<close> with limit \<open>n\<close> is \<open>exposure_backoff\<close> with
  threshold \<open>n + 1\<close>, so an item shown exactly \<open>n\<close> times passes the first and fails a backoff of \<open>n\<close>.\<close>

theorem exposure_gates:
  "apply_rule rctx \<lparr>rf_FilterType = ''LiveExposure'', rf_ValidityTime = t, rf_ExposureLimit = int (Suc n), rf_ForcedRatio = r\<rparr> items
   = apply_policy rctx \<lparr>fp_Type = ''exposure_backoff'', fp_BackoffAfter = int (Suc n) + 1\<rparr> items"
  unfolding apply_rule_filter apply_policy_filter
  by (intro filter_cong refl) (auto simp: rule_keeps_def split: option.splits)

text \<open>Filtering the exclusive pool filters each lane on its own and drops lanes that become empty.\<close>

theorem ApplyToExclusivePool_lanes:
  "ApplyToExclusivePool rctx rules feats pool rt =
   (case pool rt of
      None \<Rightarrow> None
    | Some lane \<Rightarrow>
        (case filter (\<lambda>it. list_all (\<lambda>r. rule_keeps rctx r it) rules \<and> list_all (\<lambda>f. feature_keeps f it) feats) lane of
           [] \<Rightarrow> None | it # its \<Rightarrow> Some (it # its)))"
proof -
  have "filter_ApplyFeatureFilters feats (filter_ApplyRuleFilters rctx rules lane) =
     filter (\<lambda>it. list_all (\<lambda>r. rule_keeps rctx r it) rules \<and> list_all (\<lambda>f. feature_keeps f it) feats) lane" for lane
    by (simp add: list_all_iff filter_ApplyFeatureFilters_def filter_ApplyRuleFilters_def ApplyRuleFilters_def
        filter_apply_feature_eq[abs_def] fold_filters[OF apply_rule_filter] fold_filters[OF apply_feature_filter])
  then show ?thesis by (simp add: ApplyToExclusivePool_def Let_def split: option.split list.split)
qed

end
