(* ===== verification/Recall_Merge.thy ===== *)
theory Recall_Merge
  imports Recsys_Items
begin

text \<open>
  \<open>pkg/recsyskit/funnel_merge.go\<close> and \<open>services/recommend/internal/merge\<close>: merging recall lanes
  with first-wins deduplication under a total cap, and the sampling of one lane.
\<close>

section \<open>Merging lanes\<close>

text \<open>The closure \<open>appendUnique\<close>, on the captured \<open>seen\<close> and \<open>out\<close>.\<close>

type_synonym merge_state = "ItemID set \<times> ItemInfo list"

definition merge_full :: "int \<Rightarrow> ItemInfo list \<Rightarrow> bool" where
  "merge_full allMergeNum out = (0 < allMergeNum \<and> allMergeNum \<le> int (length out))"

fun appendUnique :: "int \<Rightarrow> merge_state \<Rightarrow> ItemInfo list \<Rightarrow> merge_state" where
  "appendUnique allMergeNum st [] = st"
| "appendUnique allMergeNum (seen, out) (it # batch) =
     (if it_ID it \<in> seen then appendUnique allMergeNum (seen, out) batch
      else
        let seen' = insert (it_ID it) seen; out' = out @ [it] in
        if merge_full allMergeNum out' then (seen', out')
        else appendUnique allMergeNum (seen', out') batch)"

text \<open>One of the two loops over batches; the flag says that it returned from the function.\<close>

fun merge_batches :: "int \<Rightarrow> merge_state \<Rightarrow> ItemInfo list list \<Rightarrow> merge_state \<times> bool" where
  "merge_batches allMergeNum st [] = (st, False)"
| "merge_batches allMergeNum st (batch # rest) =
     (let st' = appendUnique allMergeNum st batch in
      if merge_full allMergeNum (snd st') then (st', True)
      else merge_batches allMergeNum st' rest)"

definition MergeRecallLanes ::
  "ItemInfo list list \<Rightarrow> ItemInfo list list \<Rightarrow> int \<Rightarrow> ItemInfo list" where
  "MergeRecallLanes exclusive main allMergeNum =
     (case merge_batches allMergeNum ({}, []) exclusive of
        (st, True) \<Rightarrow> snd st
      | (st, False) \<Rightarrow> snd (fst (merge_batches allMergeNum st main)))"

definition Lanes :: "ItemInfo list list \<Rightarrow> ItemInfo list list \<Rightarrow> int \<Rightarrow> ItemInfo list" where
  "Lanes exclusive main allMergeNum = MergeRecallLanes exclusive main allMergeNum"

definition MainOnly :: "ItemInfo list list \<Rightarrow> int \<Rightarrow> ItemInfo list" where
  "MainOnly main allMergeNum = MergeRecallLanes [] main allMergeNum"

text \<open>The specification: concatenate, deduplicate by id, cut to the cap.\<close>

definition cap_list :: "int \<Rightarrow> 'a list \<Rightarrow> 'a list" where
  "cap_list n xs = (if 0 < n then take (nat n) xs else xs)"

definition merge_spec :: "ItemInfo list list \<Rightarrow> int \<Rightarrow> ItemInfo list" where
  "merge_spec lanes n = cap_list n (dedup_on it_ID {} (concat lanes))"

lemma cap_list_full: "merge_full n (cap_list n xs) \<Longrightarrow> cap_list n (xs @ ys) = cap_list n xs"
  by (auto simp: merge_full_def cap_list_def min_def split: if_splits)

lemma appendUnique_spec:
  assumes "\<not> merge_full n out"
  shows "snd (appendUnique n (seen, out) b) = cap_list n (out @ dedup_on it_ID seen b)"
    and "\<not> merge_full n (snd (appendUnique n (seen, out) b)) \<Longrightarrow>
      appendUnique n (seen, out) b = (seen \<union> it_ID ` set b, out @ dedup_on it_ID seen b)"
  using assms
proof (induction b arbitrary: seen out)
  case Nil
  { case 1 then show ?case by (auto simp: cap_list_def merge_full_def) }
  { case 2 then show ?case by simp }
next
  case (Cons x b)
  { case (1 seen out)
    show ?case
    proof (cases "it_ID x \<in> seen")
      case True
      then show ?thesis using Cons.IH(1) 1 by simp
    next
      case False
      show ?thesis
      proof (cases "merge_full n (out @ [x])")
        case True
        then have "nat n = Suc (length out)" using 1 by (auto simp: merge_full_def)
        then show ?thesis using False True by (simp add: cap_list_def merge_full_def)
      next
        case nf: False
        then show ?thesis using False Cons.IH(1)[OF nf] by simp
      qed
    qed }
  { case (2 seen out)
    show ?case
    proof (cases "it_ID x \<in> seen")
      case True
      then show ?thesis using Cons.IH(2) 2 by (auto simp: insert_absorb)
    next
      case False
      then have nf: "\<not> merge_full n (out @ [x])" using 2 by (auto split: if_splits)
      then show ?thesis using False Cons.IH(2)[of "insert (it_ID x) seen" "out @ [x]"] 2 by simp
    qed }
qed

lemma merge_batches_spec:
  assumes "\<not> merge_full n out"
  shows "snd (fst (merge_batches n (seen, out) bs)) = cap_list n (out @ dedup_on it_ID seen (concat bs))"
    and "\<not> snd (merge_batches n (seen, out) bs) \<Longrightarrow> merge_batches n (seen, out) bs =
      ((seen \<union> it_ID ` set (concat bs), out @ dedup_on it_ID seen (concat bs)), False) \<and>
      \<not> merge_full n (out @ dedup_on it_ID seen (concat bs))"
  using assms
proof (induction bs arbitrary: seen out)
  case Nil
  { case 1 then show ?case by (auto simp: cap_list_def merge_full_def) }
  { case 2 then show ?case by simp }
next
  case (Cons b bs)
  { case (1 seen out)
    let ?st = "appendUnique n (seen, out) b"
    show ?case
    proof (cases "merge_full n (snd ?st)")
      case True
      have "merge_full n (cap_list n (out @ dedup_on it_ID seen b))"
        using True unfolding appendUnique_spec(1)[OF 1] .
      from cap_list_full[OF this] show ?thesis
        using True by (simp add: appendUnique_spec(1)[OF 1] dedup_on_append Let_def)
    next
      case False
      note st = appendUnique_spec(2)[OF 1 False]
      show ?thesis using False st Cons.IH(1)[of "out @ dedup_on it_ID seen b"]
        by (simp add: dedup_on_append Let_def)
    qed }
  { case (2 seen out)
    let ?st = "appendUnique n (seen, out) b"
    have nf: "\<not> merge_full n (snd ?st)" using 2 by (auto simp: Let_def)
    note st = appendUnique_spec(2)[OF 2(2) nf]
    show ?case using nf st 2(1) Cons.IH(2)[of "seen \<union> it_ID ` set b" "out @ dedup_on it_ID seen b"]
      by (simp add: dedup_on_append Let_def Un_assoc image_Un) }
qed

lemma MergeRecallLanes_merge_spec:
  "MergeRecallLanes exclusive main n = merge_spec (exclusive @ main) n"
proof -
  have e: "\<not> merge_full n []" by (simp add: merge_full_def)
  show ?thesis
  proof (cases "snd (merge_batches n ({}, []) exclusive)")
    case True
    then have "\<exists>st. merge_batches n ({}, []) exclusive = (st, True)" by (metis prod.collapse)
    moreover have "merge_full n (snd (fst (merge_batches n st bs)))" if "snd (merge_batches n st bs)" for st bs
      using that by (induction bs arbitrary: st) (auto simp: Let_def split: if_splits)
    ultimately show ?thesis
      using merge_batches_spec(1)[OF e, of "{}" exclusive] True
        cap_list_full[of n "dedup_on it_ID {} (concat exclusive)"]
      by (fastforce simp: MergeRecallLanes_def merge_spec_def dedup_on_append)
  next
    case False
    note st = merge_batches_spec(2)[OF e False]
    then show ?thesis
      using merge_batches_spec(1)[of n "dedup_on it_ID {} (concat exclusive)"]
      by (simp add: MergeRecallLanes_def merge_spec_def dedup_on_append)
  qed
qed

section \<open>Sampling one lane\<close>

text \<open>\<open>for i := 0; i < len(items); i += fold { picked = append(picked, items[i]) }\<close>.\<close>

function sample_loop :: "'a list \<Rightarrow> nat \<Rightarrow> nat \<Rightarrow> 'a list" where
  "sample_loop items step i =
     (if i < length items \<and> 0 < step then items ! i # sample_loop items step (i + step) else [])"
  by pat_completeness auto
termination
  by (relation "measure (\<lambda>(items, step, i). length items - i)") auto

declare sample_loop.simps [simp del]

definition ApplySampleFoldAndCap :: "'a list \<Rightarrow> int \<Rightarrow> int \<Rightarrow> 'a list" where
  "ApplySampleFoldAndCap items sampleFold mergeMax =
     (if items = [] then []
      else
        let step = (if sampleFold \<le> 0 then 1 else sampleFold);
            picked = sample_loop items (nat step) 0
        in if 0 < mergeMax \<and> mergeMax < int (length picked) then upto_n mergeMax picked else picked)"

lemma sample_loop_unfold:
  "i < length xs \<Longrightarrow> 0 < f \<Longrightarrow> sample_loop xs f i = xs ! i # sample_loop xs f (i + f)"
  "length xs \<le> i \<Longrightarrow> sample_loop xs f i = []"
  by (simp_all add: sample_loop.simps[of xs f i])

lemma sample_loop_subseq: "subseq (sample_loop xs f i) (drop i xs)"
proof (induction xs f i rule: sample_loop.induct)
  case (1 xs f i)
  show ?case
  proof (cases "i < length xs \<and> 0 < f")
    case True
    have "drop (i + f) xs = drop (f - 1) (drop (Suc i) xs)" using True by (simp add: add.commute)
    then have "subseq (drop (i + f) xs) (drop (Suc i) xs)"
      by (metis suffix_drop suffix_imp_subseq)
    then have "subseq (sample_loop xs f (i + f)) (drop (Suc i) xs)"
      using 1 True subseq_order.order_trans by blast
    then show ?thesis using True by (simp add: sample_loop_unfold Cons_nth_drop_Suc[symmetric])
  next
    case False
    then have "sample_loop xs f i = []" by (subst sample_loop.simps) simp
    then show ?thesis by simp
  qed
qed

lemma sample_loop_length:
  "0 < f \<Longrightarrow> length (sample_loop xs f i) = (length xs - i + (f - 1)) div f"
proof (induction xs f i rule: sample_loop.induct)
  case (1 xs f i)
  show ?case
  proof (cases "i < length xs")
    case True
    then have "length (sample_loop xs f i) = Suc ((length xs - (i + f) + (f - 1)) div f)"
      using 1 by (simp add: sample_loop_unfold)
    also have "\<dots> = (length xs - i + (f - 1)) div f"
    proof (cases "length xs - i \<le> f")
      case True
      have "(length xs - i - 1 + f) div f = 1 + (length xs - i - 1) div f"
        using 1(2) by simp
      then show ?thesis using True \<open>i < length xs\<close> 1(2)
        by (simp add: algebra_simps)
    next
      case False
      then have "length xs - i + (f - 1) = (length xs - (i + f) + (f - 1)) + f" by simp
      then show ?thesis using 1(2) by (metis Suc_eq_plus1 div_add_self2 less_numeral_extra(3))
    qed
    finally show ?thesis .
  next
    case False
    then show ?thesis using 1(2) by (simp add: sample_loop_unfold)
  qed
qed

lemma sample_loop_nth:
  "0 < f \<Longrightarrow> k < length (sample_loop xs f i) \<Longrightarrow> sample_loop xs f i ! k = xs ! (i + k * f)"
proof (induction xs f i arbitrary: k rule: sample_loop.induct)
  case (1 xs f i)
  then have i: "i < length xs"
    by (metis list.size(3) not_less not_less0 sample_loop_unfold(2))
  show ?case
  proof (cases k)
    case 0
    then show ?thesis using i 1(2) by (simp add: sample_loop_unfold)
  next
    case (Suc j)
    then show ?thesis using 1 i by (simp add: sample_loop_unfold add.assoc)
  qed
qed

lemma ApplySampleFoldAndCap_subseq [stage_intros]:
  "subseq (ApplySampleFoldAndCap xs sampleFold mergeMax) xs"
proof -
  have "subseq (sample_loop xs f 0) xs" for f using sample_loop_subseq[of xs f 0] by simp
  then show ?thesis
    by (auto simp: ApplySampleFoldAndCap_def Let_def intro: subseq_order.order_trans upto_n_subseq)
qed

interpretation sample_cap: drop_stage "\<lambda>xs. ApplySampleFoldAndCap xs sampleFold mergeMax"
  for sampleFold mergeMax
  by unfold_locales (rule ApplySampleFoldAndCap_subseq)

section \<open>Properties\<close>

text \<open>C4: \<open>MergeRecallLanes\<close> is exactly: concatenate the exclusive and then the main lanes, keep the
  first candidate of each item id, and cut the result to \<open>allMergeNum\<close> when that is positive; its
  early returns never change the result.\<close>

theorem MergeRecallLanes_refines:
  "MergeRecallLanes exclusive main allMergeNum =
   (let uniq = dedup_on it_ID {} (concat exclusive @ concat main)
    in if 0 < allMergeNum then take (nat allMergeNum) uniq else uniq)"
  by (simp add: MergeRecallLanes_merge_spec merge_spec_def cap_list_def)

lemma cap_list_subseq [stage_intros]: "subseq (cap_list n xs) xs"
  by (simp add: cap_list_def prefix_imp_subseq take_is_prefix)

lemma merge_spec_distinct: "distinct (map it_ID (merge_spec lanes n))"
  unfolding merge_spec_def
  using subseq_map[OF cap_list_subseq] distinct_dedup_on by (rule subseq_distinct)

lemma merge_spec_subseq: "subseq (merge_spec lanes n) (concat lanes)"
  unfolding merge_spec_def using cap_list_subseq dedup_on_subseq by (rule subseq_order.order_trans)

text \<open>C5: the merged pool has no duplicate ids, keeps the recall order and only candidates of the lanes;
  with a positive cap it holds at most that many, and without one every recalled id is kept.\<close>

theorem MergeRecallLanes_pool:
  "let pool = MergeRecallLanes exclusive main allMergeNum in
     distinct (map it_ID pool)
     \<and> subseq pool (concat exclusive @ concat main)
     \<and> (if 0 < allMergeNum then length pool \<le> nat allMergeNum
        else it_ID ` set pool = it_ID ` set (concat exclusive @ concat main))"
  using merge_spec_distinct[of "exclusive @ main" allMergeNum]
    merge_spec_subseq[of "exclusive @ main" allMergeNum]
  by (auto simp: MergeRecallLanes_merge_spec Let_def merge_spec_def cap_list_def keys_dedup_on)

text \<open>Sampling a lane with fold \<open>k\<close> picks exactly the candidates at positions \<open>0, k, 2k, ...\<close>
  (\<open>k = 1\<close> when the fold is not positive) and then caps them when \<open>mergeMax\<close> is positive.\<close>

theorem ApplySampleFoldAndCap_picks:
  "ApplySampleFoldAndCap items sampleFold mergeMax =
   (let k = (if sampleFold \<le> 0 then 1 else nat sampleFold);
        n = (length items + k - 1) div k
    in map (\<lambda>j. items ! (j * k)) [0..<if 0 < mergeMax then min (nat mergeMax) n else n])"
proof -
  define k where "k = (if sampleFold \<le> 0 then 1 else nat sampleFold)"
  have k: "0 < k" by (simp add: k_def)
  have kk: "nat (if sampleFold \<le> 0 then 1 else sampleFold) = k" by (simp add: k_def)
  let ?n = "(length items + k - 1) div k"
  have len: "length (sample_loop items k 0) = ?n"
    using sample_loop_length[OF k, of items 0] k by simp
  have loop: "sample_loop items k 0 = map (\<lambda>j. items ! (j * k)) [0..<?n]"
    using sample_loop_nth[OF k, of _ items 0] len by (intro nth_equalityI) simp_all
  have "ApplySampleFoldAndCap items sampleFold mergeMax =
      (if 0 < mergeMax \<and> mergeMax < int ?n then take (nat mergeMax) (sample_loop items k 0)
       else sample_loop items k 0)"
    unfolding ApplySampleFoldAndCap_def Let_def kk upto_n_def len
    by (simp add: sample_loop_unfold(2))
  also have "\<dots> = map (\<lambda>j. items ! (j * k)) [0..<if 0 < mergeMax then min (nat mergeMax) ?n else ?n]"
  proof -
    have "(if 0 < mergeMax then min (nat mergeMax) ?n else ?n) =
        (if 0 < mergeMax \<and> mergeMax < int ?n then nat mergeMax else ?n)"
      by (simp split: if_split)
    moreover have "mergeMax < int ?n \<Longrightarrow> nat mergeMax \<le> ?n" by linarith
    ultimately show ?thesis unfolding loop by (simp add: take_map take_upt)
  qed
  finally show ?thesis unfolding Let_def k_def .
qed

end
