(* ===== verification/Pipeline.thy ===== *)
theory Pipeline
  imports Recall_Merge "HOL-Library.Multiset"
begin

text \<open>
  \<open>pkg/recsyskit/pipeline.go\<close>: the generic funnel (recall, filter, rank, show) over plugged-in
  stages, and the reordering by rank scores, of which the repository has three copies (here,
  \<open>internal/pipeline/center.go\<close> and \<open>internal/logic/recommendlogic.go\<close>). A stage is a function of
  the request that may fail.
\<close>

section \<open>Reordering by rank scores\<close>

text \<open>\<open>index[it.ID] = it\<close> for every item: a later duplicate overwrites.\<close>

definition index_by_id :: "ItemInfo list \<Rightarrow> (ItemID \<rightharpoonup> ItemInfo)" where
  "index_by_id items = fold (\<lambda>it m. m(it_ID it \<mapsto> it)) items Map.empty"

text \<open>The items of the index in score order; \<open>float64(sc.RankScore)\<close> is exact.\<close>

fun place_scores :: "(ItemID \<rightharpoonup> ItemInfo) \<Rightarrow> ItemScores list \<Rightarrow> ItemInfo list" where
  "place_scores index [] = []"
| "place_scores index (sc # scs) =
     (case index (sc_ItemID sc) of
        Some it \<Rightarrow> it\<lparr>it_Score := sc_RankScore sc\<rparr> # place_scores index scs
      | None \<Rightarrow> place_scores index scs)"

definition append_unseen :: "ItemInfo list \<Rightarrow> ItemInfo list \<Rightarrow> ItemInfo list" where
  "append_unseen out items = out @ filter (\<lambda>it. it_ID it \<notin> it_ID ` set out) items"

definition kit_reorderByRank :: "ItemInfo list \<Rightarrow> ItemScores list \<Rightarrow> ItemInfo list" where
  "kit_reorderByRank items scores =
     (if scores = [] then items else append_unseen (place_scores (index_by_id items) scores) items)"

definition center_reorderByRank :: "ItemInfo list \<Rightarrow> ItemScores list \<Rightarrow> ItemInfo list" where
  "center_reorderByRank items scores = append_unseen (place_scores (index_by_id items) scores) items"

section \<open>The generic pipeline\<close>

definition ids :: "ItemInfo list \<Rightarrow> ItemID list" where
  "ids items = map it_ID items"

type_synonym RecallStage = "RequestContext \<Rightarrow> go_error + ItemInfo list"
type_synonym FilterStage = "RequestContext \<Rightarrow> ItemInfo list \<Rightarrow> go_error + ItemInfo list"
type_synonym ShowControlStage = "RequestContext \<Rightarrow> ItemInfo list \<Rightarrow> go_error + ItemInfo list"

record Pipeline =
  pl_Recall :: "RecallStage list"
  pl_Filter :: "FilterStage list"
  pl_Rank :: "RankClient option"
  pl_ShowControl :: "ShowControlStage option"

definition recall_step :: "RequestContext \<Rightarrow> RecallStage \<Rightarrow> ItemInfo list \<Rightarrow> go_error + ItemInfo list" where
  "recall_step rctx s items = and_then (s rctx) (\<lambda>new. Inr (items @ new))"

definition apply_reply :: "ItemInfo list \<Rightarrow> MultiRankResponse option \<Rightarrow> ItemInfo list" where
  "apply_reply items resp =
     (case resp of
        None \<Rightarrow> items
      | Some r \<Rightarrow> (case mp_Groups r of [] \<Rightarrow> items | g # _ \<Rightarrow> kit_reorderByRank items (rg_Items g)))"

definition rank_step :: "RankClient option \<Rightarrow> RequestContext \<Rightarrow> ItemInfo list \<Rightarrow> go_error + ItemInfo list" where
  "rank_step client rctx items =
     (case client of
        None \<Rightarrow> Inr items
      | Some multiRank \<Rightarrow>
          if items = [] then Inr items
          else
            (let groups = [\<lparr>gr_Name = ''Main'', gr_ItemIDs = ids items,
                            gr_RetCount = wrap32 (int (length items))\<rparr>] in
             and_then
               (multiRank \<lparr>mq_Ctx = rctx, mq_Groups = groups, mq_PreRankTrunc = 0, mq_RankTrunc = 0,
                           mq_RankProfile = []\<rparr>)
               (\<lambda>resp. Inr (apply_reply items resp))))"

definition Pipeline_Run :: "Pipeline \<Rightarrow> RequestContext \<Rightarrow> ItemInfo list \<Rightarrow> go_error + ItemInfo list" where
  "Pipeline_Run p rctx main =
     and_then (fold_try (recall_step rctx) (pl_Recall p) main)
       (\<lambda>recalled. and_then (fold_try (\<lambda>s. s rctx) (pl_Filter p) recalled)
          (\<lambda>kept. and_then (rank_step (pl_Rank p) rctx kept)
             (\<lambda>ranked. case pl_ShowControl p of None \<Rightarrow> Inr ranked | Some s \<Rightarrow> s rctx ranked)))"

section \<open>Reordering is a permutation\<close>

lemma fold_index:
  "fold (\<lambda>it m. m(it_ID it \<mapsto> it)) items m i =
     (case find (\<lambda>it. it_ID it = i) (rev items) of Some it \<Rightarrow> Some it | None \<Rightarrow> m i)"
  by (induction items arbitrary: m) (auto simp: find_snoc split: option.split)

lemma index_by_id_find: "index_by_id items i = find (\<lambda>it. it_ID it = i) (rev items)"
  by (simp add: index_by_id_def fold_index split: option.splits)

lemma index_by_id_Some: "index_by_id items i = Some it \<Longrightarrow> it \<in> set items \<and> it_ID it = i"
  by (auto simp: index_by_id_find find_Some_iff) (metis nth_mem set_rev length_rev)

lemma index_by_id_None: "index_by_id items i = None \<longleftrightarrow> i \<notin> it_ID ` set items"
  by (auto simp: index_by_id_find find_None_iff)

lemma place_scores_ids:
  "map it_ID (place_scores (index_by_id items) scs) =
   filter (\<lambda>i. i \<in> it_ID ` set items) (map sc_ItemID scs)"
proof (induction scs)
  case (Cons sc scs)
  then show ?case
    using index_by_id_Some[of items "sc_ItemID sc"] index_by_id_None[of items "sc_ItemID sc"]
    by (cases "index_by_id items (sc_ItemID sc)") auto
qed simp

lemma center_reorder_ids:
  "map it_ID (center_reorderByRank items scores) =
   filter (\<lambda>i. i \<in> it_ID ` set items) (map sc_ItemID scores) @
   filter (\<lambda>i. i \<notin> sc_ItemID ` set scores) (map it_ID items)"
proof -
  let ?out = "place_scores (index_by_id items) scores"
  have out: "it_ID ` set ?out = it_ID ` set items \<inter> sc_ItemID ` set scores"
    using arg_cong[OF place_scores_ids[of items scores], of set] by auto
  have "filter (\<lambda>it. it_ID it \<notin> it_ID ` set ?out) items =
        filter (\<lambda>it. it_ID it \<notin> sc_ItemID ` set scores) items"
    by (rule filter_cong) (auto simp: out)
  then show ?thesis
    by (simp add: center_reorderByRank_def append_unseen_def place_scores_ids filter_map comp_def)
qed

lemma kit_center_reorder: "kit_reorderByRank items scores = center_reorderByRank items scores"
  by (simp add: kit_reorderByRank_def center_reorderByRank_def append_unseen_def)

lemma center_reorder_set: "it_ID ` set (center_reorderByRank items scores) = it_ID ` set items"
  using arg_cong[OF center_reorder_ids[of items scores], of set] by auto

lemma center_reorder_mset:
  assumes "distinct (map it_ID items)" "distinct (map sc_ItemID scores)"
  shows "distinct (map it_ID (center_reorderByRank items scores))"
    and "length (center_reorderByRank items scores) = length items"
proof -
  show d: "distinct (map it_ID (center_reorderByRank items scores))"
    unfolding center_reorder_ids using assms by (auto simp del: filter_map)
  have "length (center_reorderByRank items scores) = card (it_ID ` set (center_reorderByRank items scores))"
    using distinct_card[OF d] by simp
  also have "\<dots> = length items"
    using center_reorder_set distinct_card[OF assms(1)] by simp
  finally show "length (center_reorderByRank items scores) = length items" .
qed

lemma place_scores_recall_type:
  "it \<in> set (place_scores (index_by_id items) scs) \<Longrightarrow>
   \<exists>it0\<in>set items. it_ID it = it_ID it0 \<and> it_RecallType it = it_RecallType it0"
proof (induction scs)
  case (Cons sc scs)
  show ?case
  proof (cases "index_by_id items (sc_ItemID sc)")
    case (Some it0)
    show ?thesis
    proof (cases "it = it0\<lparr>it_Score := sc_RankScore sc\<rparr>")
      case True
      then show ?thesis using index_by_id_Some[OF Some] by (intro bexI[of _ it0]) auto
    qed (use Cons Some in auto)
  qed (use Cons in simp)
qed simp

lemma center_reorder_provenance:
  "it \<in> set (center_reorderByRank items scores) \<Longrightarrow>
   \<exists>it0\<in>set items. it_ID it = it_ID it0 \<and> it_RecallType it = it_RecallType it0"
  using place_scores_recall_type by (auto simp: center_reorderByRank_def append_unseen_def)

text \<open>C10: reordering by rank lists first the scored ids the pool has, in score order, and then every
  item the ranker left out, in pool order; so no candidate is lost and none is invented, whatever
  the ranker answers.\<close>

theorem reorderByRank_ids:
  "map it_ID (kit_reorderByRank items scores) =
     filter (\<lambda>i. i \<in> it_ID ` set items) (map sc_ItemID scores) @
     filter (\<lambda>i. i \<notin> sc_ItemID ` set scores) (map it_ID items)
   \<and> it_ID ` set (kit_reorderByRank items scores) = it_ID ` set items
   \<and> kit_reorderByRank items scores = center_reorderByRank items scores"
  by (simp add: kit_center_reorder center_reorder_ids center_reorder_set)

text \<open>C11: with distinct ids on both sides reordering is a permutation of the pool's ids.\<close>

theorem reorderByRank_permutes:
  assumes "distinct (map it_ID items)" "distinct (map sc_ItemID scores)"
  shows "mset (map it_ID (center_reorderByRank items scores)) = mset (map it_ID items)"
  using center_reorder_mset(1)[OF assms] assms(1) center_reorder_set[of items scores]
  by (metis list.set_map set_eq_iff_mset_eq_distinct)

lemma reorderByRank_permutes_witness:
  "mset (map it_ID (center_reorderByRank [mk_item 1 ''a'', mk_item 2 ''b'']
      [\<lparr>sc_ItemID = 2, sc_PreRankScore = 0, sc_RankScore = 1, sc_ReRankScore = 0\<rparr>])) =
   mset (map it_ID [mk_item 1 ''a'', mk_item 2 ''b''])"
  by (rule reorderByRank_permutes) simp_all

section \<open>What a run may return\<close>

lemma recall_steps:
  assumes "fold_try (recall_step rctx) ss items = Inr out"
  shows "out = items @ concat (map (\<lambda>s. case s rctx of Inl _ \<Rightarrow> [] | Inr new \<Rightarrow> new) ss)"
  using assms
proof (induction ss arbitrary: items)
  case (Cons s ss)
  then show ?case by (cases "s rctx") (fastforce simp: recall_step_def[abs_def])+
qed simp

lemma rank_step_ids:
  assumes "rank_step c rctx items = Inr out"
  shows "it_ID ` set out = it_ID ` set items"
proof -
  have "out = items \<or> (\<exists>resp. out = apply_reply items resp)"
    using assms by (auto simp: rank_step_def Let_def and_then_Inr split: option.splits if_splits)
  moreover have "it_ID ` set (apply_reply items resp) = it_ID ` set items" for resp
    by (auto simp: apply_reply_def kit_center_reorder center_reorder_set split: option.split list.split)
  ultimately show ?thesis by auto
qed

lemma recall_steps_ok: "fold_try (recall_step rctx) ss items = Inr out \<Longrightarrow> list_all (\<lambda>s. \<not> isl (s rctx)) ss"
proof (induction ss arbitrary: items)
  case (Cons s ss)
  then show ?case by (cases "s rctx") (fastforce simp: recall_step_def[abs_def])+
qed simp

lemma recall_steps_fail: "fold_try (recall_step rctx) ss items = Inl e \<Longrightarrow> list_ex (\<lambda>s. s rctx = Inl e) ss"
proof (induction ss arbitrary: items)
  case (Cons s ss)
  then show ?case by (cases "s rctx") (fastforce simp: recall_step_def[abs_def])+
qed simp

lemma fold_try_fail: "fold_try step ps t = Inl e \<Longrightarrow> \<exists>p\<in>set ps. \<exists>t'. step p t' = Inl e"
  by (induction ps arbitrary: t) (auto simp: and_then_Inl)

definition whole_request :: "RequestContext \<Rightarrow> ItemInfo list \<Rightarrow> MultiRankRequest" where
  "whole_request rctx items =
     \<lparr>mq_Ctx = rctx, mq_Groups = [\<lparr>gr_Name = ''Main'', gr_ItemIDs = map it_ID items, gr_RetCount = wrap32 (int (length items))\<rparr>],
      mq_PreRankTrunc = 0, mq_RankTrunc = 0, mq_RankProfile = []\<rparr>"

definition no_repeats :: "MultiRankResponse option \<Rightarrow> bool" where
  "no_repeats resp =
     (case resp of None \<Rightarrow> True | Some r \<Rightarrow> list_all (\<lambda>g. distinct (map sc_ItemID (rg_Items g))) (mp_Groups r))"

text \<open>What ranking may do to the kept items: ask about all of them, and reorder by the answer.\<close>

definition reordered :: "RankClient option \<Rightarrow> RequestContext \<Rightarrow> ItemInfo list \<Rightarrow> ItemInfo list \<Rightarrow> bool" where
  "reordered client rctx kept ranked =
     (case (if kept = [] then None else client) of
        None \<Rightarrow> ranked = kept
      | Some r \<Rightarrow>
          (case r (whole_request rctx kept) of
             Inl _ \<Rightarrow> False
           | Inr resp \<Rightarrow>
               it_ID ` set ranked = it_ID ` set kept \<and>
               (if distinct (map it_ID kept) \<and> no_repeats resp
                then mset (map it_ID ranked) = mset (map it_ID kept) else True)))"

lemma apply_reply_permutes:
  assumes "distinct (map it_ID items)" "no_repeats resp"
  shows "mset (map it_ID (apply_reply items resp)) = mset (map it_ID items)"
proof -
  have "mset (map it_ID (kit_reorderByRank items (rg_Items g))) = mset (map it_ID items)" if "distinct (map sc_ItemID (rg_Items g))" for g
    unfolding kit_center_reorder
    using center_reorder_mset(1)[OF assms(1) that] assms(1) center_reorder_set[of items "rg_Items g"]
    by (metis list.set_map set_eq_iff_mset_eq_distinct)
  then show ?thesis
    using assms(2) by (auto simp: apply_reply_def no_repeats_def split: option.split list.split)
qed

lemma rank_step_call:
  "rank_step (Some r) rctx kept =
   (if kept = [] then Inr [] else and_then (r (whole_request rctx kept)) (\<lambda>resp. Inr (apply_reply kept resp)))"
  by (simp add: rank_step_def whole_request_def ids_def)

lemma rank_step_reorders:
  assumes "rank_step c rctx kept = Inr ranked"
  shows "reordered c rctx kept ranked"
proof (cases "kept = [] \<or> c = None")
  case False
  then obtain r where c: "c = Some r" "kept \<noteq> []" by auto
  then obtain resp where "r (whole_request rctx kept) = Inr resp" "ranked = apply_reply kept resp"
    using assms by (auto simp: rank_step_call and_then_Inr)
  then show ?thesis
    using c rank_step_ids[OF assms] apply_reply_permutes[of kept resp] by (simp add: reordered_def)
qed (use assms in \<open>auto simp: reordered_def rank_step_def split: option.splits\<close>)

lemma rank_step_fail: "rank_step c rctx kept = Inl e \<Longrightarrow> \<exists>r. c = Some r \<and> r (whole_request rctx kept) = Inl e"
  by (cases c) (auto simp: rank_step_call and_then_Inl split: if_splits, simp add: rank_step_def)

text \<open>C12: a run fails only with the error of one of its stages, and a run that gives a list had no failing stage: every
  recall lane answered, the filters took the recalled items to the kept ones, the ranker answered the question
  about all kept items and only reordered them (a permutation when ids are distinct and the answer repeats
  none), and show control made the result of that. If the filters and show control only drop items,
  nothing is shown that was not handed in or recalled.\<close>

theorem Pipeline_Run_sound:
  assumes "\<And>s xs ys. s \<in> set (pl_Filter p) \<or> pl_ShowControl p = Some s \<Longrightarrow> s rctx xs = Inr ys \<Longrightarrow>
      it_ID ` set ys \<subseteq> it_ID ` set xs"
  shows "case Pipeline_Run p rctx main of
      Inl e \<Rightarrow> list_ex (\<lambda>s. s rctx = Inl e) (pl_Recall p) \<or> (\<exists>s\<in>set (pl_Filter p). \<exists>xs. s rctx xs = Inl e)
        \<or> (\<exists>r kept. pl_Rank p = Some r \<and> r (whole_request rctx kept) = Inl e)
        \<or> (\<exists>s xs. pl_ShowControl p = Some s \<and> s rctx xs = Inl e)
    | Inr out \<Rightarrow> list_all (\<lambda>s. \<not> isl (s rctx)) (pl_Recall p)
        \<and> (let recalled = main @ concat (map (\<lambda>s. projr (s rctx)) (pl_Recall p)) in
           \<exists>kept ranked. fold_try (\<lambda>s. s rctx) (pl_Filter p) recalled = Inr kept
             \<and> reordered (pl_Rank p) rctx kept ranked
             \<and> (case pl_ShowControl p of None \<Rightarrow> out = ranked | Some s \<Rightarrow> s rctx ranked = Inr out)
             \<and> it_ID ` set out \<subseteq> it_ID ` set kept \<and> it_ID ` set kept \<subseteq> it_ID ` set recalled)"
proof (cases "Pipeline_Run p rctx main")
  case (Inl e)
  then show ?thesis
    using recall_steps_fail[of rctx "pl_Recall p" main e] fold_try_fail[of "\<lambda>s. s rctx" "pl_Filter p" _ e]
      rank_step_fail[of "pl_Rank p" rctx _ e]
    unfolding Pipeline_Run_def and_then_Inl by (fastforce split: option.splits)
next
  case (Inr out)
  then obtain recalled kept ranked where
    r: "fold_try (recall_step rctx) (pl_Recall p) main = Inr recalled" and
    k: "fold_try (\<lambda>s. s rctx) (pl_Filter p) recalled = Inr kept" and
    k': "rank_step (pl_Rank p) rctx kept = Inr ranked" and
    o: "(case pl_ShowControl p of None \<Rightarrow> Inr ranked | Some s \<Rightarrow> s rctx ranked) = Inr out"
    by (auto simp: Pipeline_Run_def and_then_Inr)
  have ok: "list_all (\<lambda>s. \<not> isl (s rctx)) (pl_Recall p)" by (rule recall_steps_ok[OF r])
  have rec: "recalled = main @ concat (map (\<lambda>s. projr (s rctx)) (pl_Recall p))"
  proof -
    have "(case s rctx of Inl _ \<Rightarrow> [] | Inr new \<Rightarrow> new) = projr (s rctx)" if "s \<in> set (pl_Recall p)" for s
      using ok that by (auto simp: list_all_iff split: sum.split)
    then show ?thesis unfolding recall_steps[OF r] by (simp cong: map_cong)
  qed
  have kept: "it_ID ` set kept \<subseteq> it_ID ` set recalled"
  proof (rule fold_try_invariant[OF k, of "\<lambda>xs. it_ID ` set xs \<subseteq> it_ID ` set recalled"])
    show "it_ID ` set ys \<subseteq> it_ID ` set recalled"
      if "s \<in> set (pl_Filter p)" "it_ID ` set xs \<subseteq> it_ID ` set recalled" "s rctx xs = Inr ys" for s xs ys
      using assms[OF disjI1[OF that(1)] that(3)] that(2) by (rule subset_trans)
  qed simp
  have "it_ID ` set out \<subseteq> it_ID ` set kept"
    using o assms[OF disjI2] rank_step_ids[OF k'] by (cases "pl_ShowControl p") fastforce+
  then show ?thesis
    using ok kept k rank_step_reorders[OF k'] o unfolding Inr rec[symmetric] Let_def sum.case
    by (intro conjI exI[of _ kept] exI[of _ ranked]) (auto split: option.splits)
qed

text \<open>A run with a lane, a filter and a ranker that turns the two kept items around.\<close>

definition demo_stages :: Pipeline where
  "demo_stages = \<lparr>pl_Recall = [\<lambda>_. Inr [mk_item 7 ''a'', mk_item 8 ''a'']],
     pl_Filter = [\<lambda>_ xs. Inr (filter (\<lambda>it. it_ID it \<noteq> 8) xs)],
     pl_Rank = Some (\<lambda>q. Inr (Some \<lparr>mp_UUID = [], mp_UserID = 0,
        mp_Exp = \<lparr>ei_PreRankExpID = 0, ei_RankExpID = 0, ei_ReRankExpID = 0\<rparr>,
        mp_Groups = [\<lparr>rg_Name = ''Main'', rg_Items = map (\<lambda>i. \<lparr>sc_ItemID = i, sc_PreRankScore = 0, sc_RankScore = 1,
          sc_ReRankScore = 0\<rparr>) (rev (gr_ItemIDs (hd (mq_Groups q))))\<rparr>]\<rparr>)),
     pl_ShowControl = None\<rparr>"

lemma Pipeline_Run_sound_witness:
  "case Pipeline_Run demo_stages zero_ctx [mk_item 9 ''b''] of
     Inl e \<Rightarrow> False
   | Inr out \<Rightarrow> mset (map it_ID out) = {#9, 7#} \<and> map it_ID out = [7, 9]"
proof -
  have run: "Pipeline_Run demo_stages zero_ctx [mk_item 9 ''b''] =
      Inr [(mk_item 7 ''a'')\<lparr>it_Score := 1\<rparr>, (mk_item 9 ''b'')\<lparr>it_Score := 1\<rparr>]"
    by (simp add: demo_stages_def Pipeline_Run_def recall_step_def rank_step_def apply_reply_def ids_def
        kit_reorderByRank_def index_by_id_def append_unseen_def)
  have drop: "it_ID ` set ys \<subseteq> it_ID ` set xs"
    if "s \<in> set (pl_Filter demo_stages) \<or> pl_ShowControl demo_stages = Some s" "s zero_ctx xs = Inr ys" for s xs ys
    using that by (auto simp: demo_stages_def)
  have "case Pipeline_Run demo_stages zero_ctx [mk_item 9 ''b''] of Inl e \<Rightarrow> False
      | Inr out \<Rightarrow> mset (map it_ID out) = {#9, 7#}"
    using Pipeline_Run_sound[of demo_stages zero_ctx "[mk_item 9 ''b'']", OF drop] unfolding run
    by (auto simp: demo_stages_def reordered_def no_repeats_def whole_request_def)
  then show ?thesis by (simp add: run)
qed

end
