(* ===== verification/Go_Utf8.thy ===== *)
theory Go_Utf8
  imports Go_Text
begin

text \<open>
  UTF-8 as \<open>unicode/utf8\<close> decodes it. A Go string is any sequence of bytes; \<open>encoding/json\<close> replaces every
  byte that starts no well-formed encoding by U+FFFD, when it writes a string and when it reads one.
\<close>

definition continues :: "char \<Rightarrow> bool" where
  "continues c = (let n = of_char c :: nat in 128 \<le> n \<and> n < 192)"

text \<open>The second byte of a longer encoding: no overlong forms, no surrogates, nothing above U+10FFFF.\<close>

definition second_ok :: "char \<Rightarrow> char \<Rightarrow> bool" where
  "second_ok a b =
     (let n = of_char a :: nat; m = of_char b :: nat in
      (if n = 224 then 160 else if n = 240 then 144 else 128) \<le> m \<and>
      m < (if n = 237 then 160 else if n = 244 then 144 else 192))"

text \<open>The number of bytes a first byte announces, and of the rune a string starts with (0 when it starts with none).\<close>

definition rune_size :: "char \<Rightarrow> nat" where
  "rune_size a =
     (let n = of_char a :: nat in
      if n < 128 then 1
      else if 194 \<le> n \<and> n < 224 then 2
      else if 224 \<le> n \<and> n < 240 then 3
      else if 240 \<le> n \<and> n < 245 then 4
      else 0)"

definition rune_len :: "string \<Rightarrow> nat" where
  "rune_len s =
     (case s of
        [] \<Rightarrow> 0
      | a # r \<Rightarrow>
          (let k = rune_size a in
           if k \<le> length s \<and> (if 1 < k then second_ok a (hd r) else True) \<and> list_all continues (take (k - 1) r)
           then k else 0))"

definition rune_error :: string where
  "rune_error = [CHR 0xEF, CHR 0xBF, CHR 0xBD]"

function repaired :: "string \<Rightarrow> string" where
  "repaired s =
     (if s = [] then []
      else if rune_len s = 0 then rune_error @ repaired (tl s)
      else take (rune_len s) s @ repaired (drop (rune_len s) s))"
  by pat_completeness auto
termination by (relation "measure length") auto

declare repaired.simps [simp del]

lemma repaired_Nil [simp]: "repaired [] = []"
  by (simp add: repaired.simps)

lemma rune_len_le: "rune_len s \<le> length s"
  by (cases s) (simp_all add: rune_len_def Let_def)

text \<open>A rune is decided by its own bytes.\<close>

lemma rune_len_take:
  assumes "0 < rune_len s"
  shows "rune_len (take (rune_len s) s @ t) = rune_len s"
proof -
  obtain a r where s: "s = a # r" using assms by (cases s) (simp_all add: rune_len_def)
  let ?k = "rune_size a"
  have k: "rune_len s = ?k" "0 < ?k" "?k \<le> length s" "1 < ?k \<Longrightarrow> second_ok a (hd r)" "list_all continues (take (?k - 1) r)"
    using assms by (auto simp: rune_len_def s Let_def split: if_splits)
  have t: "take ?k s = a # take (?k - 1) r" using k(2) by (cases ?k) (simp_all add: s)
  have l: "length (take (?k - 1) r) = ?k - 1" using k(2,3) by (simp add: s)
  have h: "1 < ?k \<Longrightarrow> hd (take (?k - 1) r @ t) = hd r"
    using l by (cases r) (auto simp: hd_append take_Cons')
  show ?thesis
    unfolding k(1) t using k l h by (auto simp: rune_len_def Let_def)
qed

lemma repaired_rune: "0 < rune_len x \<Longrightarrow> rune_len x = length x \<Longrightarrow> repaired (x @ t) = x @ repaired t"
  using rune_len_take[of x t] by (subst repaired.simps) auto

lemma rune_error_rune: "rune_len rune_error = length rune_error"
  by (simp add: rune_len_def rune_size_def rune_error_def second_ok_def continues_def)

lemma repaired_repaired [simp]: "repaired (repaired s) = repaired s"
proof (induction s rule: repaired.induct)
  case (1 s)
  let ?x = "take (rune_len s) s"
  show ?case
  proof (cases "s = [] \<or> rune_len s = 0")
    case True
    then show ?thesis
      using 1(1) repaired_rune[of rune_error "repaired (tl s)"] rune_error_rune
      by (cases "s = []") (simp_all add: repaired.simps[of s] rune_error_def)
  next
    case False
    then have "rune_len ?x = length ?x" using rune_len_take[of s "[]"] rune_len_le[of s] by simp
    then show ?thesis
      using False 1(2) repaired_rune[of ?x "repaired (drop (rune_len s) s)"] rune_len_le[of s]
      by (simp add: repaired.simps[of s])
  qed
qed

definition valid_utf8 :: "string \<Rightarrow> bool" where
  "valid_utf8 s = (repaired s = s)"

lemma valid_repaired [simp]: "valid_utf8 (repaired s)"
  by (simp add: valid_utf8_def)

lemma valid_utf8_Nil [simp]: "valid_utf8 []"
  by (simp add: valid_utf8_def)

text \<open>ASCII text is its own encoding.\<close>

lemma repaired_ascii: "(of_char c :: nat) < 128 \<Longrightarrow> repaired (c # s) = c # repaired s"
  using repaired_rune[of "[c]" s] by (simp add: rune_len_def rune_size_def)

lemma valid_ascii_Cons [simp]: "(of_char c :: nat) < 128 \<Longrightarrow> valid_utf8 (c # s) = valid_utf8 s"
  by (simp add: valid_utf8_def repaired_ascii)

lemma valid_ascii: "list_all (\<lambda>c. (of_char c :: nat) < 128) s \<Longrightarrow> valid_utf8 s"
  by (induction s) (simp_all add: valid_utf8_def repaired_ascii)

text \<open>The bytes of a rune longer than one byte are no ASCII characters.\<close>

lemma long_rune_bytes:
  assumes "1 < rune_len s"
  shows "list_all (\<lambda>c. 128 \<le> (of_char c :: nat)) (take (rune_len s) s)"
proof -
  obtain a r where s: "s = a # r" using assms by (cases s) (simp_all add: rune_len_def)
  have k: "rune_len s = rune_size a" "list_all continues (take (rune_size a - 1) r)"
    using assms by (auto simp: rune_len_def s Let_def split: if_splits)
  have "128 \<le> (of_char a :: nat)" using assms k(1) by (auto simp: rune_size_def Let_def split: if_splits)
  moreover have "take (rune_size a) s = a # take (rune_size a - 1) r"
    using assms k(1) by (cases "rune_size a") (simp_all add: s)
  ultimately show ?thesis using k by (auto simp: list_all_iff continues_def Let_def)
qed

end
