(* ===== verification/Go_Json.thy ===== *)
theory Go_Json
  imports Go_Utf8 Go_Float "HOL-Library.AList"
begin

text \<open>
  The part of \<open>encoding/json\<close> the sources use: the syntax of a document, and decoding into integers,
  floats, strings, slices, string-keyed maps and structs with Go's rules (\<open>null\<close> leaves a scalar
  alone, a type mismatch is reported at the end but decoding goes on, struct keys match exactly or
  up to letter case, an integer must be written as one). As in Go, the document keeps strings as their
  bytes with the escapes resolved, and a decoder that takes a string or a key replaces invalid UTF-8 in it (escapes
  stand for whole runes, so the order does not matter). The nesting limit of 10000 is not modelled.
\<close>

datatype json =
    JNull
  | JBool bool
  | JNum string
  | JStr string
  | JArr "json list"
  | JObj "(string \<times> json) list"

section \<open>Syntax\<close>

definition is_json_ws :: "char \<Rightarrow> bool" where
  "is_json_ws c = (of_char c \<in> {9, 10, 13, 32 :: nat})"

definition skip_ws :: "string \<Rightarrow> string" where
  "skip_ws s = dropWhile is_json_ws s"

definition expect :: "char \<Rightarrow> string \<Rightarrow> string option" where
  "expect c s = (case skip_ws s of [] \<Rightarrow> None | x # r \<Rightarrow> if x = c then Some r else None)"

definition hex_val :: "char \<Rightarrow> nat option" where
  "hex_val c =
     (let n = of_char c :: nat in
      if 48 \<le> n \<and> n \<le> 57 then Some (n - 48)
      else if 97 \<le> n \<and> n \<le> 102 then Some (n - 87)
      else if 65 \<le> n \<and> n \<le> 70 then Some (n - 55)
      else None)"

definition hex4 :: "string \<Rightarrow> (nat \<times> string) option" where
  "hex4 s =
     (case s of
        a # b # c # d # r \<Rightarrow>
          (case (hex_val a, hex_val b, hex_val c, hex_val d) of
             (Some w, Some x, Some y, Some z) \<Rightarrow> Some (4096 * w + 256 * x + 16 * y + z, r)
           | _ \<Rightarrow> None)
      | _ \<Rightarrow> None)"

definition utf8 :: "nat \<Rightarrow> string" where
  "utf8 u = map char_of
     (if u < 128 then [u]
      else if u < 2048 then [192 + u div 64, 128 + u mod 64]
      else if u < 65536 then [224 + u div 4096, 128 + u div 64 mod 64, 128 + u mod 64]
      else [240 + u div 262144, 128 + u div 4096 mod 64, 128 + u div 64 mod 64, 128 + u mod 64])"

text \<open>The rune of \<open>\uXXXX\<close>: a surrogate pair is joined, a lone surrogate becomes U+FFFD.\<close>

definition unicode_escape :: "nat \<Rightarrow> string \<Rightarrow> string \<times> string" where
  "unicode_escape u r =
     (if 55296 \<le> u \<and> u < 57344 then
        (case r of
           b # v # r' \<Rightarrow>
             (case hex4 r' of
                Some (w, r'') \<Rightarrow>
                  if b = char_of (92 :: nat) \<and> v = CHR ''u'' \<and> u < 56320 \<and> 56320 \<le> w \<and> w < 57344
                  then (utf8 ((u - 55296) * 1024 + (w - 56320) + 65536), r'')
                  else (utf8 65533, r)
              | None \<Rightarrow> (utf8 65533, r))
         | _ \<Rightarrow> (utf8 65533, r))
      else (utf8 u, r))"

definition simple_escape :: "char \<Rightarrow> char option" where
  "simple_escape c =
     (if c = CHR 0x22 \<or> c = CHR 0x5C \<or> c = CHR ''/'' then Some c
      else if c = CHR ''b'' then Some (CHR 0x08)
      else if c = CHR ''f'' then Some (CHR 0x0C)
      else if c = CHR ''n'' then Some (CHR 0x0A)
      else if c = CHR ''r'' then Some (CHR 0x0D)
      else if c = CHR ''t'' then Some (CHR 0x09)
      else None)"

lemma hex4_length: "hex4 s = Some (u, r) \<Longrightarrow> length r < length s"
  by (auto simp: hex4_def split: list.splits option.splits)

lemma unicode_escape_length: "unicode_escape u r = (x, r') \<Longrightarrow> length r' \<le> length r"
  by (auto simp: unicode_escape_def split: list.splits option.splits if_splits dest!: hex4_length)

text \<open>What follows a backslash: the bytes it stands for and the rest.\<close>

definition jescape :: "string \<Rightarrow> (string \<times> string) option" where
  "jescape s =
     (case s of
        [] \<Rightarrow> None
      | e # r \<Rightarrow>
          if e = CHR ''u'' then map_option (\<lambda>(u, r'). unicode_escape u r') (hex4 r)
          else map_option (\<lambda>x. ([x], r)) (simple_escape e))"

lemma jescape_length: "jescape s = Some (x, r) \<Longrightarrow> length r < length s"
  by (force simp: jescape_def split: list.splits option.splits if_splits
      dest!: hex4_length unicode_escape_length)

text \<open>The characters after an opening quote, up to and including the closing one.\<close>

function jchars :: "string \<Rightarrow> (string \<times> string) option" where
  "jchars [] = None"
| "jchars (c # s) =
     (if c = CHR 0x22 then Some ([], s)
      else if (of_char c :: nat) < 32 then None
      else if c = CHR 0x5C then
        (case jescape s of
           None \<Rightarrow> None
         | Some (x, r) \<Rightarrow> (case jchars r of None \<Rightarrow> None | Some (t, r') \<Rightarrow> Some (x @ t, r')))
      else (case jchars s of None \<Rightarrow> None | Some (t, r') \<Rightarrow> Some (c # t, r')))"
  by pat_completeness auto
termination
  by (relation "measure length") (auto dest!: jescape_length)

declare jchars.simps [simp del]

definition span_digits :: "string \<Rightarrow> string \<times> string" where
  "span_digits s = (takeWhile is_digit s, dropWhile is_digit s)"

text \<open>A number literal, kept as written.\<close>

definition jfrac :: "string \<Rightarrow> (string \<times> string) option" where
  "jfrac s =
     (case s of
        c # r \<Rightarrow>
          if c = CHR ''.'' then
            (case span_digits r of (ds, r') \<Rightarrow> if ds = [] then None else Some (c # ds, r'))
          else Some ([], s)
      | [] \<Rightarrow> Some ([], s))"

definition jexp :: "string \<Rightarrow> (string \<times> string) option" where
  "jexp s =
     (case s of
        c # r \<Rightarrow>
          if c = CHR ''e'' \<or> c = CHR ''E'' then
            (let sg = (case r of x # _ \<Rightarrow> if x = CHR ''+'' \<or> x = CHR ''-'' then [x] else [] | [] \<Rightarrow> []) in
             case span_digits (drop (length sg) r) of
               (ds, r') \<Rightarrow> if ds = [] then None else Some (c # sg @ ds, r'))
          else Some ([], s)
      | [] \<Rightarrow> Some ([], s))"

definition jnumber :: "string \<Rightarrow> (string \<times> string) option" where
  "jnumber s =
     (let sg = (case s of x # _ \<Rightarrow> if x = CHR ''-'' then [x] else [] | [] \<Rightarrow> []);
          s1 = drop (length sg) s;
          (ds, s2) = (case s1 of
                        x # r \<Rightarrow> if x = CHR ''0'' then ([x], r) else span_digits s1
                      | [] \<Rightarrow> ([], []))
      in if ds = [] then None
         else
           (case jfrac s2 of
              None \<Rightarrow> None
            | Some (fr, s3) \<Rightarrow>
                (case jexp s3 of None \<Rightarrow> None | Some (ex, s4) \<Rightarrow> Some (sg @ ds @ fr @ ex, s4))))"

definition jliteral :: "string \<Rightarrow> (json \<times> string) option" where
  "jliteral s =
     (if take 4 s = ''null'' then Some (JNull, drop 4 s)
      else if take 4 s = ''true'' then Some (JBool True, drop 4 s)
      else if take 5 s = ''false'' then Some (JBool False, drop 5 s)
      else map_option (apfst JNum) (jnumber s))"

text \<open>Values, the elements of a non-empty array and the members of a non-empty object, with fuel.\<close>

fun jvalue :: "nat \<Rightarrow> string \<Rightarrow> (json \<times> string) option"
  and jelems :: "nat \<Rightarrow> string \<Rightarrow> (json list \<times> string) option"
  and jmembers :: "nat \<Rightarrow> string \<Rightarrow> ((string \<times> json) list \<times> string) option" where
  "jvalue 0 s = None"
| "jvalue (Suc n) s =
     (case skip_ws s of
        [] \<Rightarrow> None
      | c # r \<Rightarrow>
          if c = CHR ''{'' then
            (case expect (CHR ''}'') r of
               Some r' \<Rightarrow> Some (JObj [], r')
             | None \<Rightarrow> map_option (apfst JObj) (jmembers n r))
          else if c = CHR ''['' then
            (case expect (CHR '']'') r of
               Some r' \<Rightarrow> Some (JArr [], r')
             | None \<Rightarrow> map_option (apfst JArr) (jelems n r))
          else if c = CHR 0x22 then map_option (apfst JStr) (jchars r)
          else jliteral (c # r))"
| "jelems 0 s = None"
| "jelems (Suc n) s =
     (case jvalue n s of
        None \<Rightarrow> None
      | Some (v, r) \<Rightarrow>
          (case expect (CHR '','') r of
             Some r' \<Rightarrow> map_option (apfst ((#) v)) (jelems n r')
           | None \<Rightarrow> map_option (Pair [v]) (expect (CHR '']'') r)))"
| "jmembers 0 s = None"
| "jmembers (Suc n) s =
     (case Option.bind (expect (CHR 0x22) s) jchars of
        None \<Rightarrow> None
      | Some (k, r) \<Rightarrow>
          (case Option.bind (expect (CHR '':'') r) (jvalue n) of
             None \<Rightarrow> None
           | Some (v, r1) \<Rightarrow>
               (case expect (CHR '','') r1 of
                  Some r2 \<Rightarrow> map_option (apfst ((#) (k, v))) (jmembers n r2)
                | None \<Rightarrow> map_option (Pair [(k, v)]) (expect (CHR ''}'') r1))))"

definition json_parse :: "bytes \<Rightarrow> json option" where
  "json_parse s =
     (case jvalue (2 * length s + 2) s of
        None \<Rightarrow> None
      | Some (v, r) \<Rightarrow> if skip_ws r = [] then Some v else None)"

subsection \<open>The fuel is enough\<close>

lemma skip_ws_length: "length (skip_ws s) \<le> length s"
  by (simp add: skip_ws_def length_dropWhile_le)

lemma skip_ws_Cons: "skip_ws s = c # r \<Longrightarrow> length r < length s"
  using skip_ws_length[of s] by simp

lemma expect_length: "expect c s = Some r \<Longrightarrow> length r < length s"
  by (auto simp: expect_def split: list.splits if_splits dest: skip_ws_Cons)

lemma jchars_length: "jchars s = Some (t, r) \<Longrightarrow> length r < length s"
proof (induction s arbitrary: t rule: jchars.induct)
  case 1
  then show ?case by (simp add: jchars.simps)
next
  case (2 c s)
  show ?case
  proof (cases "c = CHR 0x5C")
    case True
    with 2 show ?thesis
      by (fastforce simp: jchars.simps split: option.splits if_splits dest: jescape_length)
  next
    case False
    with 2 show ?thesis
      by (fastforce simp: jchars.simps split: option.splits if_splits)
  qed
qed


lemma span_digits_length:
  "span_digits s = (ds, r) \<Longrightarrow>
   length s = length ds + length r \<and> (ds = [] \<or> length r < length s)"
  by (auto simp: span_digits_def) (metis length_append length_greater_0_conv less_add_same_cancel2 takeWhile_dropWhile_id)+

lemma jfrac_length: "jfrac s = Some (x, r) \<Longrightarrow> length r \<le> length s"
  by (auto simp: jfrac_def split: list.splits if_splits prod.splits dest!: span_digits_length)

lemma jexp_length: "jexp s = Some (x, r) \<Longrightarrow> length r \<le> length s"
  by (auto simp: jexp_def Let_def split: list.splits if_splits prod.splits dest!: span_digits_length)

lemma jnumber_length: "jnumber s = Some (x, r) \<Longrightarrow> length r < length s"
  by (auto simp: jnumber_def Let_def split: list.splits if_splits prod.splits option.splits
      dest!: span_digits_length jfrac_length jexp_length)
    (metis add_less_le_mono length_greater_0_conv le_trans add_0)

lemma jliteral_length:
  assumes "jliteral s = Some (v, r)"
  shows "length r < length s"
proof -
  have "s \<noteq> []" if "take k s = c # x" for k c x using that by auto
  then show ?thesis
    using assms by (force simp: jliteral_def apfst_def map_prod_def split: if_splits prod.splits
        dest: jnumber_length)
qed

lemma json_lengths:
  "jvalue n s = Some (v, r) \<Longrightarrow> length r < length s"
  "jelems n s = Some (vs, r) \<Longrightarrow> length r < length s"
  "jmembers n s = Some (ms, r) \<Longrightarrow> length r < length s"
proof (induction n s and n s and n s arbitrary: v r and vs r and ms r
    rule: jvalue_jelems_jmembers.induct)
  case (2 n s)
  then show ?case
    by (cases "skip_ws s")
      (fastforce split: option.splits if_splits dest: expect_length jchars_length jliteral_length
        skip_ws_Cons)+
next
  case (4 n s)
  then show ?case
    by (fastforce split: option.splits dest: expect_length)
next
  case (6 n s)
  then show ?case
    by (fastforce split: option.splits bind_splits dest: expect_length jchars_length)
qed auto

lemma json_fuel_step:
  "2 * length s + 1 \<le> n \<Longrightarrow> jvalue (Suc n) s = jvalue n s"
  "2 * length s + 2 \<le> n \<Longrightarrow> jelems (Suc n) s = jelems n s"
  "2 * length s + 2 \<le> n \<Longrightarrow> jmembers (Suc n) s = jmembers n s"
proof (induction n s and n s and n s rule: jvalue_jelems_jmembers.induct)
  case (2 n s)
  show ?case
  proof (cases "skip_ws s")
    case (Cons c r)
    then have "2 * length r + 2 \<le> n" using 2(3) skip_ws_Cons[OF Cons] by simp
    then show ?thesis using 2(1)[OF Cons] 2(2)[OF Cons] Cons
      by (simp add: jvalue.simps(2) split: option.splits)
  qed simp
next
  case (4 n s)
  have v: "jvalue (Suc n) s = jvalue n s" using 4 by simp
  show ?case
  proof (cases "jvalue n s")
    case (Some p)
    obtain x r where p: "p = (x, r)" by (cases p)
    have "jelems (Suc n) r' = jelems n r'" if "expect (CHR '','') r = Some r'" for r'
      using 4(2)[OF Some p[symmetric] that] 4(3) json_lengths(1)[OF Some[unfolded p]] expect_length[OF that]
      by simp
    then show ?thesis using v Some p
      by (subst (1 2) jelems.simps(2)) (simp split: option.splits del: jelems.simps jvalue.simps)
  qed (use v in simp)
next
  case (6 n s)
  show ?case
  proof (cases "Option.bind (expect (CHR 0x22) s) jchars")
    case (Some p)
    obtain k r where p: "p = (k, r)" by (cases p)
    have r: "length r < length s"
      using Some p by (auto split: bind_splits dest!: expect_length jchars_length)
    have v: "Option.bind (expect (CHR '':'') r) (jvalue (Suc n)) =
             Option.bind (expect (CHR '':'') r) (jvalue n)"
    proof (cases "expect (CHR '':'') r")
      case e: (Some v)
      have "2 * length v + 1 \<le> n" using 6(3) r expect_length[OF e] by simp
      then show ?thesis using 6(1)[OF Some p[symmetric] e] e by (simp del: jvalue.simps)
    qed simp
    show ?thesis
    proof (cases "Option.bind (expect (CHR '':'') r) (jvalue n)")
      case None
      then show ?thesis using v Some p
        by (subst (1 2) jmembers.simps(2)) (simp del: jmembers.simps jvalue.simps)
    next
      case s2: (Some q)
      obtain x r1 where q: "q = (x, r1)" by (cases q)
      have r1: "length r1 < length r"
        using s2 q by (auto split: bind_splits dest!: expect_length json_lengths(1))
      have "jmembers (Suc n) r2 = jmembers n r2" if "expect (CHR '','') r1 = Some r2" for r2
        using 6(2)[OF Some p[symmetric] s2 q[symmetric] that] 6(3) r r1 expect_length[OF that]
        by simp
      then show ?thesis using v Some p s2 q
        by (subst (1 2) jmembers.simps(2))
          (simp split: option.splits del: jmembers.simps jvalue.simps)
    qed
  qed simp
qed auto


lemma json_fuel:
  assumes "2 * length s + 2 \<le> n"
  shows "jvalue n s = jvalue (2 * length s + 2) s"
  using assms
proof (induction n rule: nat_induct_at_least)
  case (Suc n)
  then show ?case using json_fuel_step(1)[of s n] by (simp del: jvalue.simps)
qed simp


section \<open>Decimal literals\<close>

text \<open>
  Sign, digits, an optional fraction and an optional exponent, with at least one digit in the
  mantissa: the sign and the absolute value.
\<close>

definition take_sign :: "string \<Rightarrow> bool \<times> string" where
  "take_sign s =
     (case s of
        c # r \<Rightarrow> if c = CHR ''-'' then (True, r) else if c = CHR ''+'' then (False, r) else (False, s)
      | [] \<Rightarrow> (False, []))"

definition dec_exponent :: "string \<Rightarrow> int option" where
  "dec_exponent s =
     (case s of
        [] \<Rightarrow> Some 0
      | c # r \<Rightarrow>
          if c = CHR ''e'' \<or> c = CHR ''E'' then
            (case take_sign r of
               (neg, ds) \<Rightarrow>
                 if ds \<noteq> [] \<and> list_all is_digit ds
                 then Some (if neg then - int (dec_nat ds) else int (dec_nat ds)) else None)
          else None)"

definition parse_decimal :: "string \<Rightarrow> (bool \<times> rat) option" where
  "parse_decimal s =
     (case take_sign s of
        (neg, s1) \<Rightarrow>
          (case span_digits s1 of
             (ip, s2) \<Rightarrow>
               (case (case s2 of c # r \<Rightarrow> if c = CHR ''.'' then span_digits r else ([], s2) | [] \<Rightarrow> ([], [])) of
                  (fp, s3) \<Rightarrow>
                    if ip = [] \<and> fp = [] then None
                    else map_option
                      (\<lambda>e. (neg, of_nat (dec_nat (ip @ fp)) * 10 powi (e - int (length fp))))
                      (dec_exponent s3))))"

definition float_literal :: "string \<Rightarrow> float64 option" where
  "float_literal s =
     (case parse_decimal s of
        None \<Rightarrow> None
      | Some (neg, x) \<Rightarrow>
          (let v = mk64 neg (if neg then - x else x) in if is_finite v then Some v else None))"

text \<open>A literal for a \<open>float32\<close> target is rounded once, to single precision.\<close>

definition float32_literal :: "string \<Rightarrow> float32 option" where
  "float32_literal s =
     (case parse_decimal s of
        None \<Rightarrow> None
      | Some (neg, x) \<Rightarrow>
          (let v = mk32 neg (if neg then - x else x) in if is_finite v then Some v else None))"

section \<open>Decoding into Go values\<close>

text \<open>
  A decoder takes the value the target holds and the document, and returns the value it holds
  afterwards with \<open>True\<close> when no type error was recorded.
\<close>

type_synonym 'a dec = "'a \<Rightarrow> json \<Rightarrow> 'a \<times> bool"

definition dec_int :: "nat \<Rightarrow> int dec" where
  "dec_int w x j =
     (case j of
        JNull \<Rightarrow> (x, True)
      | JNum l \<Rightarrow>
          (case ParseInt l of
             Some i \<Rightarrow> if wrap_signed w i = i then (i, True) else (x, False)
           | None \<Rightarrow> (x, False))
      | _ \<Rightarrow> (x, False))"

definition dec_float :: "float64 dec" where
  "dec_float x j =
     (case j of
        JNull \<Rightarrow> (x, True)
      | JNum l \<Rightarrow> (case float_literal l of Some v \<Rightarrow> (v, True) | None \<Rightarrow> (x, False))
      | _ \<Rightarrow> (x, False))"

definition dec_float32 :: "float32 dec" where
  "dec_float32 x j =
     (case j of
        JNull \<Rightarrow> (x, True)
      | JNum l \<Rightarrow> (case float32_literal l of Some v \<Rightarrow> (v, True) | None \<Rightarrow> (x, False))
      | _ \<Rightarrow> (x, False))"

definition dec_string :: "string dec" where
  "dec_string x j = (case j of JNull \<Rightarrow> (x, True) | JStr s \<Rightarrow> (repaired s, True) | _ \<Rightarrow> (x, False))"

definition dec_bool :: "bool dec" where
  "dec_bool x j = (case j of JNull \<Rightarrow> (x, True) | JBool b \<Rightarrow> (b, True) | _ \<Rightarrow> (x, False))"

text \<open>\<open>json.RawMessage\<close> keeps the document; a pointer is allocated on the first non-null value.\<close>

definition dec_raw :: "json option dec" where
  "dec_raw x j = (Some j, True)"

definition dec_ptr :: "'a \<Rightarrow> 'a dec \<Rightarrow> 'a option dec" where
  "dec_ptr z d x j =
     (if j = JNull then (None, True)
      else map_prod Some id (d (case x of None \<Rightarrow> z | Some v \<Rightarrow> v) j))"

text \<open>A slice element that is already there is decoded in place.\<close>

fun dec_elems :: "'a \<Rightarrow> 'a dec \<Rightarrow> 'a list \<Rightarrow> json list \<Rightarrow> 'a list \<times> bool" where
  "dec_elems z d xs [] = ([], True)"
| "dec_elems z d xs (j # js) =
     (case d (case xs of [] \<Rightarrow> z | x # _ \<Rightarrow> x) j of
        (v, ok) \<Rightarrow> map_prod ((#) v) (\<lambda>oks. ok \<and> oks) (dec_elems z d (tl xs) js))"

definition dec_slice :: "'a \<Rightarrow> 'a dec \<Rightarrow> 'a list dec" where
  "dec_slice z d xs j =
     (case j of JNull \<Rightarrow> ([], True) | JArr js \<Rightarrow> dec_elems z d xs js | _ \<Rightarrow> (xs, False))"

text \<open>A map with string keys, as an association list with distinct keys; a later key overwrites.\<close>

fun dec_entries ::
  "'a \<Rightarrow> 'a dec \<Rightarrow> (string \<times> json) list \<Rightarrow> (string \<times> 'a) list \<Rightarrow> (string \<times> 'a) list \<times> bool" where
  "dec_entries z d [] m = (m, True)"
| "dec_entries z d ((k, j) # ms) m =
     (case d z j of
        (v, ok) \<Rightarrow> map_prod id (\<lambda>oks. ok \<and> oks) (dec_entries z d ms (AList.update (repaired k) v m)))"

definition dec_map :: "'a \<Rightarrow> 'a dec \<Rightarrow> (string \<times> 'a) list dec" where
  "dec_map z d m j =
     (case j of JNull \<Rightarrow> ([], True) | JObj ms \<Rightarrow> dec_entries z d ms m | _ \<Rightarrow> (m, False))"

text \<open>
  A struct: each member goes to the field of that name, else to the first field equal up to
  case folding (Unicode folds the long s and the Kelvin sign to \<open>S\<close> and \<open>K\<close>), else nowhere.
\<close>

definition upper :: "char \<Rightarrow> char" where
  "upper c = (let n = of_char c :: nat in if 97 \<le> n \<and> n \<le> 122 then char_of (n - 32) else c)"

fun fold_name :: "string \<Rightarrow> string" where
  "fold_name (a # b # r) =
     (if a = CHR 0xC5 \<and> b = CHR 0xBF then CHR ''S'' # fold_name r
      else case r of
        c # r' \<Rightarrow>
          if a = CHR 0xE2 \<and> b = CHR 0x84 \<and> c = CHR 0xAA then CHR ''K'' # fold_name r'
          else upper a # fold_name (b # r)
      | [] \<Rightarrow> upper a # fold_name (b # r))"
| "fold_name [c] = [upper c]"
| "fold_name [] = []"

definition find_field :: "(string \<times> 'a) list \<Rightarrow> string \<Rightarrow> 'a option" where
  "find_field fs k =
     (case map_of fs k of
        Some d \<Rightarrow> Some d
      | None \<Rightarrow> map_option snd (find (\<lambda>(n, _). fold_name n = fold_name k) fs))"

fun dec_members :: "(string \<times> 'r dec) list \<Rightarrow> (string \<times> json) list \<Rightarrow> 'r \<Rightarrow> 'r \<times> bool" where
  "dec_members fs [] r = (r, True)"
| "dec_members fs ((k, j) # ms) r =
     (case (case find_field fs (repaired k) of None \<Rightarrow> (r, True) | Some d \<Rightarrow> d r j) of
        (r', ok) \<Rightarrow> map_prod id (\<lambda>oks. ok \<and> oks) (dec_members fs ms r'))"

definition dec_struct :: "(string \<times> 'r dec) list \<Rightarrow> 'r dec" where
  "dec_struct fs r j =
     (case j of JNull \<Rightarrow> (r, True) | JObj ms \<Rightarrow> dec_members fs ms r | _ \<Rightarrow> (r, False))"

definition field :: "'f dec \<Rightarrow> ('r \<Rightarrow> 'f) \<Rightarrow> (('f \<Rightarrow> 'f) \<Rightarrow> 'r \<Rightarrow> 'r) \<Rightarrow> 'r dec" where
  "field d get upd r j = (case d (get r) j of (v, ok) \<Rightarrow> (upd (\<lambda>_. v) r, ok))"

text \<open>\<open>json.Unmarshal\<close>: a syntax error leaves the target alone.\<close>

definition unmarshal :: "'a dec \<Rightarrow> 'a \<Rightarrow> bytes \<Rightarrow> 'a \<times> bool" where
  "unmarshal d x raw = (case json_parse raw of None \<Rightarrow> (x, False) | Some j \<Rightarrow> d x j)"

definition unmarshal_ok :: "'a dec \<Rightarrow> 'a \<Rightarrow> bytes \<Rightarrow> 'a option" where
  "unmarshal_ok d x raw = (case unmarshal d x raw of (v, ok) \<Rightarrow> if ok then Some v else None)"

lemma dec_entries_distinct: "distinct (map fst m) \<Longrightarrow> distinct (map fst (fst (dec_entries z d ms m)))"
  by (induction z d ms m rule: dec_entries.induct)
    (auto simp: distinct_update map_prod_def split: prod.splits)

lemma dec_map_distinct: "distinct (map fst m) \<Longrightarrow> distinct (map fst (fst (dec_map z d m j)))"
  by (auto simp: dec_map_def dec_entries_distinct split: json.splits)

lemma dec_int_range:
  assumes "wrap_signed w x = x"
  shows "wrap_signed w (fst (dec_int w x j)) = fst (dec_int w x j)"
  using assms by (auto simp: dec_int_def split: json.splits option.splits)


subsection \<open>Invariants of decoded values\<close>

text \<open>A property every decoding step keeps holds of what a composite decoder builds.\<close>

definition dec_inv :: "('a \<Rightarrow> bool) \<Rightarrow> 'a dec \<Rightarrow> bool" where
  "dec_inv P d = (\<forall>x j. P x \<longrightarrow> P (fst (d x j)))"

lemma dec_invI: "(\<And>x j. P x \<Longrightarrow> P (fst (d x j))) \<Longrightarrow> dec_inv P d"
  by (simp add: dec_inv_def)

lemma dec_invD: "dec_inv P d \<Longrightarrow> P x \<Longrightarrow> P (fst (d x j))"
  by (simp add: dec_inv_def)

lemma dec_elems_inv:
  assumes "dec_inv P d" "P z"
  shows "list_all P xs \<Longrightarrow> list_all P (fst (dec_elems z d xs js))"
proof (induction js arbitrary: xs)
  case (Cons j js)
  let ?x = "case xs of [] \<Rightarrow> z | x # _ \<Rightarrow> x"
  have "P ?x" "list_all P (tl xs)" using Cons.prems assms(2) by (cases xs; simp)+
  then have "P (fst (d ?x j))" "list_all P (fst (dec_elems z d (tl xs) js))"
    using dec_invD[OF assms(1)] Cons.IH by blast+
  then show ?case by (simp add: case_prod_beta)
qed simp

lemma dec_inv_slice: "dec_inv P d \<Longrightarrow> P z \<Longrightarrow> dec_inv (list_all P) (dec_slice z d)"
  by (intro dec_invI) (auto simp: dec_slice_def dec_elems_inv split: json.split)

lemma dec_entries_inv:
  assumes "dec_inv P d" "P z"
  shows "list_all (\<lambda>kv. P (snd kv)) m \<Longrightarrow> list_all (\<lambda>kv. P (snd kv)) (fst (dec_entries z d ms m))"
proof (induction ms arbitrary: m)
  case (Cons kj ms)
  obtain k j where kj: "kj = (k, j)" by (cases kj)
  have "P (fst (d z j))" using assms by (rule dec_invD)
  then have "list_all (\<lambda>kv. P (snd kv)) (AList.update (repaired k) (fst (d z j)) m)"
    using Cons.prems by (induction m) auto
  then show ?case using Cons.IH by (simp add: kj case_prod_beta)
qed simp

lemma dec_inv_map: "dec_inv P d \<Longrightarrow> P z \<Longrightarrow> dec_inv (list_all (\<lambda>kv. P (snd kv))) (dec_map z d)"
  by (intro dec_invI) (auto simp: dec_map_def dec_entries_inv split: json.split)

lemma dec_inv_struct:
  assumes "list_all (\<lambda>nd. dec_inv P (snd nd)) fs"
  shows "dec_inv P (dec_struct fs)"
proof -
  have f: "dec_inv P d" if "find_field fs k = Some d" for k d
  proof -
    have "\<exists>n. (n, d) \<in> set fs"
      using that map_of_SomeD[of fs k d] find_Some_set[of "\<lambda>(n, _). fold_name n = fold_name k" fs]
      by (auto simp: find_field_def split: option.splits)
    then show ?thesis using assms by (auto simp: list_all_iff)
  qed
  have "P (fst (dec_members fs ms r))" if "P r" for ms r
    using that
  proof (induction ms arbitrary: r)
    case (Cons kj ms)
    obtain k j where kj: "kj = (k, j)" by (cases kj)
    have "P (fst (case find_field fs (repaired k) of None \<Rightarrow> (r, True) | Some d \<Rightarrow> d r j))"
      using f[of "repaired k"] dec_invD[of P _ r j] Cons.prems by (cases "find_field fs (repaired k)") auto
    then show ?case using Cons.IH by (simp add: kj case_prod_beta)
  qed simp
  then show ?thesis by (intro dec_invI) (auto simp: dec_struct_def split: json.split)
qed

lemma dec_inv_field:
  assumes "\<And>r j. P r \<Longrightarrow> P (upd (\<lambda>_. fst (d (get r) j)) r)"
  shows "dec_inv P (field d get upd)"
  using assms by (intro dec_invI) (simp add: field_def case_prod_beta)


definition finite64 :: "float64 \<Rightarrow> bool" where
  "finite64 x = (is_finite x \<and> valid64 x)"

lemma dec_float_finite: "dec_inv finite64 dec_float"
proof (rule dec_invI)
  fix x j assume x: "finite64 x"
  have "finite64 v" if "float_literal l = Some v" for l v
    using that valid64_mk64 by (auto simp: float_literal_def finite64_def Let_def split: option.splits if_splits)
  with x show "finite64 (fst (dec_float x j))"
    by (auto simp: dec_float_def split: json.split option.split)
qed

text \<open>A decoded string is valid UTF-8.\<close>

lemma dec_string_valid: "dec_inv valid_utf8 dec_string"
  by (rule dec_invI) (auto simp: dec_string_def split: json.split)

lemma unmarshal_inv: "dec_inv P d \<Longrightarrow> P x \<Longrightarrow> P (fst (unmarshal d x raw))"
  by (auto simp: unmarshal_def dec_invD split: option.split)

lemma unmarshal_ok_inv: "dec_inv P d \<Longrightarrow> P x \<Longrightarrow> unmarshal_ok d x raw = Some v \<Longrightarrow> P v"
  using unmarshal_inv[of P d x raw] by (auto simp: unmarshal_ok_def split: prod.splits if_splits)

end
