(* ===== verification/Go_Sort.thy ===== *)
theory Go_Sort
  imports Prelude "HOL-Library.Multiset"
begin

text \<open>
  \<open>sort.Slice(x, less)\<close>: the result is a permutation of the slice, ordered when \<open>less\<close> is a strict
  weak order on its elements; the order of equal elements is not specified (the sort is not
  stable). The models take the sort as an argument, and this contract is all they rely on.
\<close>

definition strict_weak :: "('a \<Rightarrow> 'a \<Rightarrow> bool) \<Rightarrow> 'a set \<Rightarrow> bool" where
  "strict_weak lt A \<longleftrightarrow>
     (\<forall>x\<in>A. \<not> lt x x) \<and>
     (\<forall>x\<in>A. \<forall>y\<in>A. lt x y \<longrightarrow> \<not> lt y x) \<and>
     (\<forall>x\<in>A. \<forall>y\<in>A. \<forall>z\<in>A. lt x z \<longrightarrow> lt x y \<or> lt y z)"

lemma sorted_wrt_perm_unique:
  assumes "sorted_wrt R xs" "sorted_wrt R ys" "mset xs = mset ys"
    and anti: "\<And>x y. x \<in> set xs \<Longrightarrow> y \<in> set xs \<Longrightarrow> R x y \<Longrightarrow> R y x \<Longrightarrow> x = y"
  shows "xs = ys"
  using assms
proof (induction xs arbitrary: ys)
  case Nil
  then show ?case by simp
next
  case (Cons x xs)
  then obtain y ys' where ys: "ys = y # ys'" by (cases ys) auto
  have set: "set (x # xs) = set ys" using Cons.prems(3) by (metis set_mset_mset)
  have "x = y"
  proof (rule ccontr)
    assume ne: "x \<noteq> y"
    then have "x \<in> set ys'" "y \<in> set xs" using set ys by auto
    then show False using Cons.prems(1,2) Cons.prems(4)[of x y] ne ys by auto
  qed
  moreover have "xs = ys'"
    using Cons.IH[of ys'] Cons.prems ys \<open>x = y\<close> by auto
  ultimately show ?case using ys by simp
qed

locale slice_sort =
  fixes srt :: "('a \<Rightarrow> 'a \<Rightarrow> bool) \<Rightarrow> 'a list \<Rightarrow> 'a list"
  assumes sort_perm: "mset (srt lt xs) = mset xs"
    and sort_sorted: "strict_weak lt (set xs) \<Longrightarrow> sorted_wrt (\<lambda>x y. \<not> lt y x) (srt lt xs)"
begin

lemma sort_set [simp]: "set (srt lt xs) = set xs"
  using sort_perm[of lt xs] by (metis set_mset_mset)

lemma sort_length [simp]: "length (srt lt xs) = length xs"
  using sort_perm[of lt xs] by (metis size_mset)

lemma sort_distinct: "distinct (map f xs) \<Longrightarrow> distinct (map f (srt lt xs))"
proof -
  have "mset (map f (srt lt xs)) = mset (map f xs)" by (simp add: sort_perm)
  then show "distinct (map f xs) \<Longrightarrow> distinct (map f (srt lt xs))"
    by (metis mset_eq_imp_distinct_iff)
qed

lemma sort_Nil [simp]: "srt lt [] = []"
  using sort_perm[of lt "[]"] by simp

text \<open>When the order separates all elements, the result is the only sorted arrangement.\<close>

lemma sort_unique:
  assumes ord: "strict_weak lt (set xs)"
    and total: "\<And>x y. x \<in> set xs \<Longrightarrow> y \<in> set xs \<Longrightarrow> x \<noteq> y \<Longrightarrow> lt x y \<or> lt y x"
    and ys: "mset ys = mset xs" "sorted_wrt lt ys"
  shows "srt lt xs = ys"
proof -
  have "set ys = set xs" using ys(1) by (metis set_mset_mset)
  moreover have "\<And>x y. lt x y \<Longrightarrow> x \<in> set xs \<Longrightarrow> y \<in> set xs \<Longrightarrow> \<not> lt y x"
    using ord unfolding strict_weak_def by blast
  ultimately have "sorted_wrt (\<lambda>x y. \<not> lt y x) ys"
    using ys(2) by (auto elim!: sorted_wrt_mono_rel[rotated])
  moreover have "mset (srt lt xs) = mset ys" using sort_perm[of lt xs] ys(1) by simp
  moreover have "x = y" if "x \<in> set (srt lt xs)" "y \<in> set (srt lt xs)" "\<not> lt y x" "\<not> lt x y" for x y
    using total[of x y] that by auto
  ultimately show ?thesis
    by (intro sorted_wrt_perm_unique[OF sort_sorted[OF ord]]) auto
qed

end

text \<open>Go's own insertion sort, which \<open>sort.Slice\<close> runs on slices of at most twelve elements.\<close>

fun ins_back :: "('a \<Rightarrow> 'a \<Rightarrow> bool) \<Rightarrow> 'a \<Rightarrow> 'a list \<Rightarrow> 'a list" where
  "ins_back lt x [] = [x]"
| "ins_back lt x (y # ys) = (if lt x y then y # ins_back lt x ys else x # y # ys)"

definition go_insertion_sort :: "('a \<Rightarrow> 'a \<Rightarrow> bool) \<Rightarrow> 'a list \<Rightarrow> 'a list" where
  "go_insertion_sort lt xs = rev (fold (ins_back lt) xs [])"

lemma mset_ins_back [simp]: "mset (ins_back lt x ys) = add_mset x (mset ys)"
  by (induction ys) auto

lemma set_ins_back [simp]: "set (ins_back lt x ys) = insert x (set ys)"
  by (induction ys) auto

lemma mset_fold_ins_back: "mset (fold (ins_back lt) xs acc) = mset xs + mset acc"
  by (induction xs arbitrary: acc) auto

lemma sorted_ins_back:
  assumes "strict_weak lt A" "insert x (set ys) \<subseteq> A" "sorted_wrt (\<lambda>a b. \<not> lt a b) ys"
  shows "sorted_wrt (\<lambda>a b. \<not> lt a b) (ins_back lt x ys)"
  using assms(2,3)
proof (induction ys)
  case Nil
  show ?case by simp
next
  case (Cons y ys)
  show ?case
  proof (cases "lt x y")
    case True
    then have "\<not> lt y x" using assms(1) Cons.prems(1) by (auto simp: strict_weak_def)
    with True Cons show ?thesis by auto
  next
    case False
    have "\<not> lt x z" if "z \<in> set ys" for z
      using that False Cons.prems assms(1) unfolding strict_weak_def
      by (metis insert_subset list.simps(15) sorted_wrt.simps(2) subset_eq)
    with False Cons.prems show ?thesis by auto
  qed
qed

lemma sorted_fold_ins_back:
  assumes "strict_weak lt A"
  shows "set xs \<union> set acc \<subseteq> A \<Longrightarrow> sorted_wrt (\<lambda>a b. \<not> lt a b) acc \<Longrightarrow>
    sorted_wrt (\<lambda>a b. \<not> lt a b) (fold (ins_back lt) xs acc)"
proof (induction xs arbitrary: acc)
  case Nil
  then show ?case by simp
next
  case (Cons x xs)
  then show ?case using sorted_ins_back[OF assms, of x acc] by simp
qed

interpretation go_sort: slice_sort go_insertion_sort
proof
  fix lt :: "'a \<Rightarrow> 'a \<Rightarrow> bool" and xs
  show "mset (go_insertion_sort lt xs) = mset xs"
    by (simp add: go_insertion_sort_def mset_fold_ins_back)
  assume "strict_weak lt (set xs)"
  then show "sorted_wrt (\<lambda>x y. \<not> lt y x) (go_insertion_sort lt xs)"
    using sorted_fold_ins_back[of lt "set xs" xs "[]"]
    by (simp add: go_insertion_sort_def sorted_wrt_rev)
qed

end
