(* ===== verification/Feature_Store.thy ===== *)
theory Feature_Store
  imports Go_Json Go_Sort Recsys_Items
begin

text \<open>
  \<open>pkg/featurestore\<close>: key patterns (\<open>keys.go\<close>), the fetcher interfaces and the Redis and no-op
  fetchers (\<open>fetcher.go\<close>, \<open>redis_json.go\<close>, \<open>config.go\<close>), portraits (\<open>portrait.go\<close>), sessions
  (\<open>session.go\<close>) and the parsers of the filter blobs (\<open>strategy.go\<close>, \<open>homogen.go\<close>). The Redis client is
  a pair of functions; what the fetchers need from it is that a batch read agrees with single ones.
\<close>

section \<open>Go's runtime choices\<close>

text \<open>
  What the language leaves open or reads from outside: the order in which \<open>range\<close> visits a map, the
  sort behind \<open>sort.Slice\<close>, the clock in seconds, and the shuffle drawn from a fresh random seed at every call (indexed by the
  place of the call: strategy and rule number).
\<close>

record TagWeight =
  tw_Tag :: int
  tw_Weight :: float64

record go_env =
  ge_ord_int :: "(string \<times> int) list \<Rightarrow> (string \<times> int) list"
  ge_ord_str :: "(string \<times> string) list \<Rightarrow> (string \<times> string) list"
  ge_ord_float :: "(string \<times> float64) list \<Rightarrow> (string \<times> float64) list"
  ge_sort_weights :: "(TagWeight \<Rightarrow> TagWeight \<Rightarrow> bool) \<Rightarrow> TagWeight list \<Rightarrow> TagWeight list"
  ge_sort_pairs :: "(int64 \<times> int64 \<Rightarrow> int64 \<times> int64 \<Rightarrow> bool) \<Rightarrow> (int64 \<times> int64) list \<Rightarrow> (int64 \<times> int64) list"
  ge_now :: int64
  ge_shuffle :: "nat \<times> nat \<Rightarrow> ItemInfo list \<Rightarrow> ItemInfo list"

definition go_env0 :: go_env where
  "go_env0 = \<lparr>ge_ord_int = id, ge_ord_str = id, ge_ord_float = id,
     ge_sort_weights = go_insertion_sort, ge_sort_pairs = go_insertion_sort, ge_now = 0, ge_shuffle = \<lambda>_. rev\<rparr>"

locale go_runtime =
  fixes env :: go_env
  assumes ord_int_perm: "mset (ge_ord_int env m) = mset m"
    and ord_str_perm: "mset (ge_ord_str env s) = mset s"
    and ord_float_perm: "mset (ge_ord_float env f) = mset f"
    and sort_weights: "slice_sort (ge_sort_weights env)"
    and sort_pairs: "slice_sort (ge_sort_pairs env)"
    and shuffle_perm: "mset (ge_shuffle env spot xs) = mset xs"
begin

lemma ord_int_set [simp]: "set (ge_ord_int env m) = set m"
  using ord_int_perm by (metis set_mset_mset)

lemma ord_float_set [simp]: "set (ge_ord_float env m) = set m"
  using ord_float_perm by (metis set_mset_mset)

lemma shuffle_set [simp]: "set (ge_shuffle env spot xs) = set xs"
  using shuffle_perm by (metis set_mset_mset)

end

interpretation env0: go_runtime go_env0
  by unfold_locales (simp_all add: go_env0_def go_sort.sort_perm go_sort.sort_sorted)

section \<open>Key patterns (\<open>keys.go\<close>)\<close>

text \<open>\<open>fmt.Sprintf\<close> with the verbs the patterns use (\<open>%d\<close>, \<open>%s\<close>, \<open>%v\<close>, \<open>%%\<close>, no flags), and its
  reports for a missing, extra or mistyped argument.\<close>

datatype fmt_arg = FInt string int | FStr string

definition show_arg :: "fmt_arg \<Rightarrow> string" where
  "show_arg a = (case a of FInt ty i \<Rightarrow> ty @ ''='' @ Itoa i | FStr s \<Rightarrow> ''string='' @ s)"

definition fmt_verb :: "char \<Rightarrow> fmt_arg \<Rightarrow> string" where
  "fmt_verb v a =
     (case a of
        FInt ty i \<Rightarrow> if v = CHR ''d'' \<or> v = CHR ''v'' then Itoa i
                     else ''%!'' @ [v] @ ''('' @ show_arg a @ '')''
      | FStr s \<Rightarrow> if v = CHR ''s'' \<or> v = CHR ''v'' then s
                   else ''%!'' @ [v] @ ''('' @ show_arg a @ '')'')"

fun Sprintf :: "string \<Rightarrow> fmt_arg list \<Rightarrow> string" where
  "Sprintf [] args =
     (if args = [] then [] else ''%!(EXTRA '' @ join_with '', '' (map show_arg args) @ '')'')"
| "Sprintf [c] args =
     (if c = CHR ''%'' then ''%!(NOVERB)'' else [c]) @ Sprintf [] args"
| "Sprintf (c # v # r) args =
     (if c = CHR ''%'' then
        if v = CHR ''%'' then CHR ''%'' # Sprintf r args
        else (case args of
                [] \<Rightarrow> ''%!'' @ [v] @ ''(MISSING)'' @ Sprintf r []
              | a # as \<Rightarrow> fmt_verb v a @ Sprintf r as)
      else c # Sprintf (v # r) args)"

record KeyPatterns =
  kp_UserFeat :: string
  kp_ItemFeat :: string

record StrategyKeyPatterns =
  sk_FilterExposure :: string
  sk_FilterFeatureLess :: string
  sk_FilterLabel :: string
  sk_HomogenExchange :: string
  sk_RecallLanePrefix :: string
  sk_RecallCFUser :: string
  sk_TagInterestUser :: string
  sk_TagInvert :: string

definition DefaultKeyPatterns :: KeyPatterns where
  "DefaultKeyPatterns = \<lparr>kp_UserFeat = ''recsysgo:feat:user:%d'', kp_ItemFeat = ''recsysgo:feat:item:%d''\<rparr>"

definition DefaultStrategyKeyPatterns :: StrategyKeyPatterns where
  "DefaultStrategyKeyPatterns =
     \<lparr>sk_FilterExposure = ''recsysgo:filter:exposure'',
      sk_FilterFeatureLess = ''recsysgo:filter:featureless'',
      sk_FilterLabel = ''recsysgo:filter:label'',
      sk_HomogenExchange = ''recsysgo:homogen:exchange'',
      sk_RecallLanePrefix = ''recsysgo:recall:lane:'',
      sk_RecallCFUser = ''recsysgo:recall:cf:user:%d'',
      sk_TagInterestUser = ''recsysgo:recall:taginterest:%s:user:%d'',
      sk_TagInvert = ''recsysgo:recall:invert:tag:%d''\<rparr>"

definition UserKey :: "KeyPatterns \<Rightarrow> int64 \<Rightarrow> string" where
  "UserKey p uin = Sprintf (kp_UserFeat p) [FInt ''int64'' uin]"

definition ItemKey :: "KeyPatterns \<Rightarrow> int64 \<Rightarrow> string" where
  "ItemKey p itemID = Sprintf (kp_ItemFeat p) [FInt ''int64'' itemID]"

definition RecallLaneKey :: "StrategyKeyPatterns \<Rightarrow> string \<Rightarrow> string" where
  "RecallLaneKey p lane = sk_RecallLanePrefix p @ lane"

definition RecallCFUserKey :: "StrategyKeyPatterns \<Rightarrow> int64 \<Rightarrow> string" where
  "RecallCFUserKey p uin = Sprintf (sk_RecallCFUser p) [FInt ''int64'' uin]"

definition TagInterestUserKey :: "StrategyKeyPatterns \<Rightarrow> string \<Rightarrow> int64 \<Rightarrow> string" where
  "TagInterestUserKey p window uin = Sprintf (sk_TagInterestUser p) [FStr window, FInt ''int64'' uin]"

definition TagInvertKey :: "StrategyKeyPatterns \<Rightarrow> int \<Rightarrow> string" where
  "TagInvertKey p tagID = Sprintf (sk_TagInvert p) [FInt ''int'' tagID]"

section \<open>Fetchers (\<open>fetcher.go\<close>, \<open>redis_json.go\<close>)\<close>

text \<open>
  A fetcher value with the interfaces it implements: \<open>UserJSON\<close> and \<open>ItemJSON\<close> always, the batch,
  strategy, homogen and recall operations when a type assertion to them would succeed. Results
  \<open>([]byte, bool, error)\<close> carry the missing flag. \<open>fe_NoOp\<close> says the value equals \<open>NoOp\<close>.
\<close>

type_synonym keyed = "go_error + bytes \<times> bool"

record StrategyFetcher =
  st_FilterExposureJSON :: keyed
  st_FilterFeatureLessJSON :: keyed
  st_FilterLabelJSON :: keyed

record RecallFetcher =
  rf_RecallLaneJSON :: "string \<Rightarrow> keyed"
  rf_RecallCFUserJSON :: "int64 \<Rightarrow> keyed"
  rf_UserTagInterestJSON :: "string \<Rightarrow> int64 \<Rightarrow> keyed"
  rf_TagInvertJSON :: "int \<Rightarrow> keyed"

record Fetcher =
  fe_UserJSON :: "int64 \<Rightarrow> go_error + bytes"
  fe_ItemJSON :: "int64 \<Rightarrow> go_error + bytes"
  fe_ItemsJSON :: "(int64 list \<Rightarrow> go_error + (int64 \<rightharpoonup> bytes)) option"
  fe_Strategy :: "StrategyFetcher option"
  fe_Homogen :: "keyed option"
  fe_Recall :: "RecallFetcher option"
  fe_NoOp :: bool

definition NoOp :: Fetcher where
  "NoOp =
     (let miss = Inr ([], True) in
      \<lparr>fe_UserJSON = \<lambda>_. Inr [], fe_ItemJSON = \<lambda>_. Inr [], fe_ItemsJSON = Some (\<lambda>_. Inr Map.empty),
       fe_Strategy = Some \<lparr>st_FilterExposureJSON = miss, st_FilterFeatureLessJSON = miss, st_FilterLabelJSON = miss\<rparr>,
       fe_Homogen = Some miss,
       fe_Recall = Some \<lparr>rf_RecallLaneJSON = \<lambda>_. miss, rf_RecallCFUserJSON = \<lambda>_. miss,
         rf_UserTagInterestJSON = \<lambda>_ _. miss, rf_TagInvertJSON = \<lambda>_. miss\<rparr>,
       fe_NoOp = True\<rparr>)"

text \<open>The Redis client: \<open>GET\<close> (\<open>None\<close> is \<open>redis.Nil\<close>) and \<open>MGET\<close>.\<close>

record redis =
  rd_Get :: "string \<Rightarrow> go_error + bytes option"
  rd_MGet :: "string list \<Rightarrow> go_error + bytes option list"

definition getMissing :: "redis \<Rightarrow> string \<Rightarrow> keyed" where
  "getMissing rdb key =
     (case rd_Get rdb key of
        Inl err \<Rightarrow> Inl err
      | Inr None \<Rightarrow> Inr ([], True)
      | Inr (Some s) \<Rightarrow> Inr (s, False))"

definition redis_get :: "redis \<Rightarrow> string \<Rightarrow> go_error + bytes" where
  "redis_get rdb key = and_then (getMissing rdb key) (\<lambda>(b, _). Inr b)"

definition mgetByItemIDs :: "redis \<Rightarrow> int64 list \<Rightarrow> (int64 \<Rightarrow> string) \<Rightarrow> go_error + (int64 \<rightharpoonup> bytes)" where
  "mgetByItemIDs rdb itemIDs keyFn =
     (if itemIDs = [] then Inr Map.empty
      else and_then (rd_MGet rdb (map keyFn itemIDs))
        (\<lambda>vals. Inr (fold (\<lambda>(i, v) out. case v of None \<Rightarrow> out | Some s \<Rightarrow> out(i \<mapsto> s))
                       (zip itemIDs vals) Map.empty)))"

definition RedisJSONFetcher :: "redis \<Rightarrow> KeyPatterns \<Rightarrow> StrategyKeyPatterns \<Rightarrow> Fetcher" where
  "RedisJSONFetcher rdb kp sk =
     \<lparr>fe_UserJSON = \<lambda>uin. redis_get rdb (UserKey kp uin),
      fe_ItemJSON = \<lambda>i. redis_get rdb (ItemKey kp i),
      fe_ItemsJSON = Some (\<lambda>is. mgetByItemIDs rdb is (ItemKey kp)),
      fe_Strategy = Some
        \<lparr>st_FilterExposureJSON = getMissing rdb (sk_FilterExposure sk),
         st_FilterFeatureLessJSON = getMissing rdb (sk_FilterFeatureLess sk),
         st_FilterLabelJSON = getMissing rdb (sk_FilterLabel sk)\<rparr>,
      fe_Homogen = Some (getMissing rdb (sk_HomogenExchange sk)),
      fe_Recall = Some
        \<lparr>rf_RecallLaneJSON = \<lambda>lane. getMissing rdb (RecallLaneKey sk lane),
         rf_RecallCFUserJSON = \<lambda>uin. getMissing rdb (RecallCFUserKey sk uin),
         rf_UserTagInterestJSON = \<lambda>window uin. getMissing rdb (TagInterestUserKey sk window uin),
         rf_TagInvertJSON = \<lambda>tagID. getMissing rdb (TagInvertKey sk tagID)\<rparr>,
      fe_NoOp = False\<rparr>"

text \<open>\<open>NewRedisJSONFetcher\<close>: \<open>dial\<close> stands for the client's construction and its \<open>PING\<close>.\<close>

record RedisJSONConfig =
  rj_Addr :: string
  rj_Password :: string
  rj_DB :: int
  rj_Keys :: KeyPatterns
  rj_Strategy :: StrategyKeyPatterns

definition NewRedisJSONFetcher ::
  "(string \<Rightarrow> string \<Rightarrow> int \<Rightarrow> go_error + redis) \<Rightarrow> RedisJSONConfig \<Rightarrow> go_error + Fetcher" where
  "NewRedisJSONFetcher dial cfg =
     (if rj_Addr cfg = [] then Inl (BackendError ''redis addr empty'')
      else
        (let kp = (if kp_UserFeat (rj_Keys cfg) = [] then DefaultKeyPatterns else rj_Keys cfg);
             sk = (if sk_FilterExposure (rj_Strategy cfg) = [] then DefaultStrategyKeyPatterns
                   else rj_Strategy cfg)
         in and_then (dial (rj_Addr cfg) (rj_Password cfg) (rj_DB cfg))
              (\<lambda>rdb. Inr (RedisJSONFetcher rdb kp sk))))"

section \<open>Portraits (\<open>portrait.go\<close>)\<close>

definition set_portraits :: "(ItemInfo \<Rightarrow> bool) \<Rightarrow> ItemInfo list \<Rightarrow> ItemInfo list" where
  "set_portraits has items = map (\<lambda>it. it\<lparr>it_HasPortrait := has it\<rparr>) items"

text \<open>The loop over \<open>ItemJSON\<close> for a fetcher without batch reads.\<close>

fun fetch_each :: "(int64 \<Rightarrow> go_error + bytes) \<Rightarrow> int64 list \<Rightarrow> (int64 \<rightharpoonup> bytes) \<Rightarrow> go_error + (int64 \<rightharpoonup> bytes)" where
  "fetch_each get [] prof = Inr prof"
| "fetch_each get (i # is) prof =
     and_then (get i) (\<lambda>b. fetch_each get is (if b \<noteq> [] then prof(i \<mapsto> b) else prof))"

definition load_items :: "Fetcher \<Rightarrow> int64 list \<Rightarrow> go_error + (int64 \<rightharpoonup> bytes)" where
  "load_items f is =
     (case fe_ItemsJSON f of
        Some batch \<Rightarrow> batch is
      | None \<Rightarrow> fetch_each (fe_ItemJSON f) is Map.empty)"

definition MarkItemPortraits :: "Fetcher option \<Rightarrow> ItemInfo list \<Rightarrow> go_error + ItemInfo list" where
  "MarkItemPortraits fetch items =
     (case (if items = [] then None else fetch) of
        None \<Rightarrow> Inr (set_portraits (\<lambda>_. True) items)
      | Some f \<Rightarrow>
          if fe_NoOp f then Inr (set_portraits (\<lambda>_. True) items)
          else and_then (load_items f (map it_ID items))
            (\<lambda>prof. Inr (set_portraits
               (\<lambda>it. case prof (it_ID it) of None \<Rightarrow> False | Some b \<Rightarrow> b \<noteq> []) items)))"

definition DropWithoutPortrait :: "ItemInfo list \<Rightarrow> ItemInfo list" where
  "DropWithoutPortrait items = (if items = [] then items else filter it_HasPortrait items)"


section \<open>Filter blobs (\<open>strategy.go\<close>, \<open>homogen.go\<close>)\<close>

text \<open>
  A parsed map is an association list with distinct keys, \<open>[]\<close> for a nil map. Two keys of the
  document may denote one integer, so the visiting order matters in principle.
\<close>

definition parse_id_map :: "(string \<times> 'v) list \<Rightarrow> (int64 \<times> 'v) list" where
  "parse_id_map m =
     fold (\<lambda>(k, v) out. case ParseInt k of Some i \<Rightarrow> AList.update i v out | None \<Rightarrow> out) m []"

record exposureItem =
  xi_ItemID :: int64
  xi_Count :: int

definition dec_exposureItem :: "exposureItem dec" where
  "dec_exposureItem = dec_struct
     [(''item_id'', field (dec_int 64) xi_ItemID xi_ItemID_update),
      (''count'', field (dec_int 64) xi_Count xi_Count_update)]"

definition ParseExposureJSON :: "go_env \<Rightarrow> bytes \<Rightarrow> bool \<Rightarrow> (int64 \<times> int) list" where
  "ParseExposureJSON env raw keyMissing =
     (if keyMissing \<or> raw = [] then []
      else
        (case unmarshal (dec_map 0 (dec_int 64)) [] raw of
           (flat, ok) \<Rightarrow>
             if ok \<and> flat \<noteq> [] then parse_id_map (ge_ord_int env flat)
             else
               (case unmarshal (dec_slice \<lparr>xi_ItemID = 0, xi_Count = 0\<rparr> dec_exposureItem) [] raw of
                  (items, ok2) \<Rightarrow>
                    if ok2 \<and> items \<noteq> []
                    then fold (\<lambda>it out. AList.update (xi_ItemID it) (xi_Count it) out) items []
                    else [])))"

definition ParseFeatureLessSet :: "bytes \<Rightarrow> bool \<Rightarrow> int64 set option" where
  "ParseFeatureLessSet raw keyMissing =
     (if keyMissing \<or> raw = [] then None
      else
        (case unmarshal_ok (dec_slice 0 (dec_int 64)) [] raw of
           Some is \<Rightarrow> Some (set is)
         | None \<Rightarrow>
             (case unmarshal_ok (dec_slice [] dec_string) [] raw of
                Some ss \<Rightarrow> Some (set (List.map_filter ParseInt ss))
              | None \<Rightarrow>
                  map_option set
                    (unmarshal_ok (dec_struct [(''items'', dec_slice 0 (dec_int 64))]) [] raw))))"

definition ParseLabelMap :: "go_env \<Rightarrow> bytes \<Rightarrow> bool \<Rightarrow> (int64 \<times> string) list option" where
  "ParseLabelMap env raw keyMissing =
     (if keyMissing \<or> raw = [] then None
      else
        (case unmarshal (dec_map [] dec_string) [] raw of
           (flat, ok) \<Rightarrow> if ok \<and> flat \<noteq> [] then Some (parse_id_map (ge_ord_str env flat)) else None))"

record recallObj =
  ro_ItemID :: int64

definition ParseRecallList :: "bytes \<Rightarrow> int64 list" where
  "ParseRecallList raw =
     (if raw = [] then []
      else
        (case unmarshal_ok (dec_slice 0 (dec_int 64)) [] raw of
           Some is \<Rightarrow> is
         | None \<Rightarrow>
             (case unmarshal_ok (dec_slice \<lparr>ro_ItemID = 0\<rparr>
                     (dec_struct [(''item_id'', field (dec_int 64) ro_ItemID ro_ItemID_update)])) [] raw of
                Some objs \<Rightarrow> map ro_ItemID objs
              | None \<Rightarrow> [])))"

definition ParseHomogenExchange :: "go_env \<Rightarrow> bytes \<Rightarrow> bool \<Rightarrow> (int64 \<times> int64) list" where
  "ParseHomogenExchange env raw keyMissing =
     (if keyMissing \<or> raw = [] then []
      else
        (case unmarshal_ok (dec_map 0 (dec_int 64)) [] raw of
           None \<Rightarrow> []
         | Some flat \<Rightarrow> parse_id_map (filter (\<lambda>(k, v). \<not> v \<le> 0) (ge_ord_int env flat))))"

section \<open>Sessions (\<open>session.go\<close>)\<close>

record Session =
  se_UserID :: int64
  se_User :: bytes
  se_Items :: "int64 \<rightharpoonup> bytes"

record CenterSession =
  cs_Profile :: Session
  cs_Exposure :: "(ItemID \<rightharpoonup> int) option"
  cs_LabelByItem :: "(int64 \<times> string) list option"

definition LoadSession :: "Fetcher option \<Rightarrow> int64 \<Rightarrow> int64 list \<Rightarrow> go_error + Session" where
  "LoadSession fetch userID itemIDs =
     (let s = \<lparr>se_UserID = userID, se_User = [], se_Items = Map.empty\<rparr> in
      case fetch of
        None \<Rightarrow> Inr s
      | Some f \<Rightarrow>
          if fe_NoOp f then Inr s
          else and_then (fe_UserJSON f userID)
            (\<lambda>u. if itemIDs = [] then Inr (s\<lparr>se_User := u\<rparr>)
                 else and_then (load_items f itemIDs)
                   (\<lambda>m. Inr (s\<lparr>se_User := u, se_Items := m\<rparr>))))"

definition LoadCenterSession ::
  "go_env \<Rightarrow> Fetcher option \<Rightarrow> int64 \<Rightarrow> int64 list \<Rightarrow> go_error + CenterSession" where
  "LoadCenterSession env fetch userID itemIDs =
     and_then (LoadSession fetch userID itemIDs)
       (\<lambda>prof.
          let cs = \<lparr>cs_Profile = prof, cs_Exposure = None, cs_LabelByItem = None\<rparr> in
          case Option.bind fetch fe_Strategy of
            None \<Rightarrow> Inr cs
          | Some st \<Rightarrow>
              and_then (st_FilterExposureJSON st)
                (\<lambda>(expRaw, expMiss).
                   let m = ParseExposureJSON env expRaw expMiss in
                   and_then (st_FilterLabelJSON st)
                     (\<lambda>(lbRaw, lbMiss). Inr
                        (cs\<lparr>cs_Exposure := if m \<noteq> [] then Some (map_of m) else None,
                            cs_LabelByItem := ParseLabelMap env lbRaw lbMiss\<rparr>))))"

text \<open>
  \<open>EnrichItems\<close> returns new items, but an existing \<open>Extra\<close> map is shared with the argument and
  written through; the second component is what the argument slice looks like afterwards (items
  that share one map among themselves are not modelled).
\<close>

definition enrich_label :: "CenterSession \<Rightarrow> ItemInfo \<Rightarrow> string" where
  "enrich_label cs it = (case cs_LabelByItem cs of None \<Rightarrow> [] | Some m \<Rightarrow> map_get [] (map_of m) (it_ID it))"

definition put_label :: "(string \<rightharpoonup> string) \<Rightarrow> string \<Rightarrow> (string \<rightharpoonup> string)" where
  "put_label m lb = m(''label'' \<mapsto> lb)"

definition EnrichItems :: "CenterSession \<Rightarrow> ItemInfo list \<Rightarrow> ItemInfo list \<times> ItemInfo list" where
  "EnrichItems cs items =
     (map (\<lambda>it. let lb = enrich_label cs it in
                if lb = [] then it
                else it\<lparr>it_Extra := Some (put_label (case it_Extra it of None \<Rightarrow> Map.empty | Some m \<Rightarrow> m) lb)\<rparr>)
        items,
      map (\<lambda>it. let lb = enrich_label cs it in
                if lb = [] then it else it\<lparr>it_Extra := map_option (\<lambda>m. put_label m lb) (it_Extra it)\<rparr>)
        items)"


section \<open>Batch reads agree with single reads\<close>

text \<open>
  The contract between a fetcher's two ways of reading item features, which is what makes the
  choice by type assertion in \<open>MarkItemPortraits\<close> and \<open>LoadSession\<close> invisible.
\<close>

locale batch_reader =
  fixes item :: "int64 \<Rightarrow> go_error + bytes" and batch :: "int64 list \<Rightarrow> go_error + (int64 \<rightharpoonup> bytes)"
  assumes batch_hit: "batch is = Inr m \<Longrightarrow> i \<in> set is \<Longrightarrow> item i = Inr (map_get [] m i)"
    and batch_miss: "batch is = Inr m \<Longrightarrow> i \<notin> set is \<Longrightarrow> m i = None"
    and batch_fails: "batch is = Inl e \<Longrightarrow> \<exists>i\<in>set is. \<exists>e'. item i = Inl e'"
begin

lemma each_total:
  assumes "\<And>i. i \<in> set is \<Longrightarrow> item i = Inr (v i)"
  shows "\<exists>m. fetch_each item is prof = Inr m \<and>
    (\<forall>i. map_get [] m i = (if i \<in> set is \<and> v i \<noteq> [] then v i else map_get [] prof i))"
  using assms
proof (induction "is" arbitrary: prof)
  case (Cons j js)
  then obtain m where "fetch_each item js (if v j \<noteq> [] then prof(j \<mapsto> v j) else prof) = Inr m"
    "\<forall>i. map_get [] m i = (if i \<in> set js \<and> v i \<noteq> [] then v i
       else map_get [] (if v j \<noteq> [] then prof(j \<mapsto> v j) else prof) i)"
    by (metis list.set_intros(2))
  then show ?case using Cons.prems[of j] by auto
qed simp

lemma each_fails: "i \<in> set is \<Longrightarrow> item i = Inl e \<Longrightarrow> \<exists>e'. fetch_each item is prof = Inl e'"
proof (induction "is" arbitrary: prof)
  case (Cons j js)
  then show ?case by (cases "item j") auto
qed simp

text \<open>Both ways fail together, and what they load is the same up to absent versus empty.\<close>

lemma batch_each:
  "(\<exists>e. batch is = Inl e) = (\<exists>e. fetch_each item is Map.empty = Inl e)"
  "batch is = Inr m \<Longrightarrow> fetch_each item is Map.empty = Inr m' \<Longrightarrow> map_get [] m i = map_get [] m' i"
proof -
  have tot: "\<exists>m'. fetch_each item is Map.empty = Inr m' \<and> (\<forall>i. map_get [] m i = map_get [] m' i)"
    if "batch is = Inr m" for m
    using each_total[of "is" "map_get [] m" Map.empty] batch_hit[OF that] batch_miss[OF that]
    by (fastforce simp: map_get_def)
  show "(\<exists>e. batch is = Inl e) = (\<exists>e. fetch_each item is Map.empty = Inl e)"
  proof (cases "batch is")
    case (Inl e)
    then show ?thesis using batch_fails[OF Inl] each_fails by fastforce
  next
    case (Inr m)
    then show ?thesis using tot[OF Inr] by auto
  qed
  show "batch is = Inr m \<Longrightarrow> fetch_each item is Map.empty = Inr m' \<Longrightarrow> map_get [] m i = map_get [] m' i"
    using tot by fastforce
qed

lemma batch_values: "batch is = Inr m \<Longrightarrow> (\<forall>i. item i = Inr (v i)) \<Longrightarrow> i \<in> set is \<Longrightarrow> map_get [] m i = v i"
  using batch_hit by fastforce

end

text \<open>Redis as the code relies on it: \<open>GET\<close> and \<open>MGET\<close> read one key-value store.\<close>

locale redis_store =
  fixes rdb :: redis and st :: "string \<rightharpoonup> bytes"
  assumes get_store: "rd_Get rdb k = Inr (st k)"
    and mget_store: "rd_MGet rdb ks = Inr (map st ks)"
begin

lemma redis_get_store: "redis_get rdb k = Inr (map_get [] st k)"
  by (simp add: redis_get_def getMissing_def get_store map_get_def split: option.split)

lemma getMissing_store: "getMissing rdb k = Inr (map_get [] st k, st k = None)"
  by (simp add: getMissing_def get_store map_get_def split: option.split)

lemma fold_mget:
  "fold (\<lambda>(i, v) out. case v of None \<Rightarrow> out | Some s \<Rightarrow> out(i \<mapsto> s)) (zip is (map st (map key is))) out j =
   (if j \<in> set is \<and> st (key j) \<noteq> None then st (key j) else out j)"
  by (induction "is" arbitrary: out) (auto split: option.splits)

lemma mget_values:
  "mgetByItemIDs rdb is key = Inr (\<lambda>j. if j \<in> set is then st (key j) else None)"
  by (cases "is = []") (auto simp: mgetByItemIDs_def mget_store fold_mget simp del: map_map)

end

sublocale redis_store \<subseteq> reader: batch_reader "\<lambda>i. redis_get rdb (kf i)" "\<lambda>is. mgetByItemIDs rdb is kf"
  for kf
  by unfold_locales (auto simp: redis_get_store mget_values map_get_def split: if_splits)

context redis_store
begin

lemma each_values:
  "\<exists>m. fetch_each (\<lambda>i. redis_get rdb (kf i)) is Map.empty = Inr m \<and>
     (\<forall>i\<in>set is. map_get [] m i = map_get [] st (kf i))"
proof -
  have "\<not> (\<exists>e. mgetByItemIDs rdb is kf = Inl e)" by (simp add: mget_values)
  then obtain m where m: "fetch_each (\<lambda>i. redis_get rdb (kf i)) is Map.empty = Inr m"
    using reader.batch_each(1)[of "is" kf]
    by (cases "fetch_each (\<lambda>i. redis_get rdb (kf i)) is Map.empty") auto
  have "map_get [] m i = map_get [] st (kf i)" if "i \<in> set is" for i
    using reader.batch_each(2)[OF mget_values m, of i] that by (simp add: map_get_def)
  with m show ?thesis by blast
qed

lemma load_values:
  assumes "f = RedisJSONFetcher rdb kp sk \<or> f = (RedisJSONFetcher rdb kp sk)\<lparr>fe_ItemsJSON := None\<rparr>"
  shows "\<exists>m. load_items f is = Inr m \<and> (\<forall>i\<in>set is. map_get [] m i = map_get [] st (ItemKey kp i))"
proof (cases "fe_ItemsJSON f")
  case None
  then show ?thesis
    using assms each_values[of "ItemKey kp" "is"] by (auto simp: load_items_def RedisJSONFetcher_def)
next
  case (Some b)
  then show ?thesis
    using assms mget_values[of "is" "ItemKey kp"]
    by (auto simp: load_items_def RedisJSONFetcher_def map_get_def)
qed

lemma portraits_stored:
  assumes "f = RedisJSONFetcher rdb kp sk \<or> f = (RedisJSONFetcher rdb kp sk)\<lparr>fe_ItemsJSON := None\<rparr>"
  shows "MarkItemPortraits (Some f) items =
    Inr (set_portraits (\<lambda>it. map_get [] st (ItemKey kp (it_ID it)) \<noteq> []) items)"
proof (cases "items = []")
  case False
  obtain m where m: "load_items f (map it_ID items) = Inr m"
    "\<forall>i\<in>set (map it_ID items). map_get [] m i = map_get [] st (ItemKey kp i)"
    using load_values[OF assms] by blast
  have "(case m i of None \<Rightarrow> False | Some b \<Rightarrow> b \<noteq> []) = (map_get [] m i \<noteq> [])" for i
    by (simp add: map_get_def split: option.split)
  moreover have "\<not> fe_NoOp f" using assms by (auto simp: RedisJSONFetcher_def)
  ultimately show ?thesis
    using False m by (simp add: MarkItemPortraits_def set_portraits_def)
qed (simp add: MarkItemPortraits_def set_portraits_def)

end

text \<open>A store as a client, and the no-op fetcher, satisfy the contracts.\<close>

definition kv_redis :: "(string \<rightharpoonup> bytes) \<Rightarrow> redis" where
  "kv_redis st = \<lparr>rd_Get = \<lambda>k. Inr (st k), rd_MGet = \<lambda>ks. Inr (map st ks)\<rparr>"

interpretation kv: redis_store "kv_redis st" st for st
  by unfold_locales (simp_all add: kv_redis_def)

interpretation noop: batch_reader "fe_ItemJSON NoOp" "the (fe_ItemsJSON NoOp)"
  by unfold_locales (auto simp: NoOp_def Let_def map_get_def)

text \<open>C13: over a Redis store, an item is marked as having a portrait exactly when its feature key
  holds a non-empty value, and a fetcher without batch reads marks the same items; dropping the
  unmarked ones afterwards keeps exactly the stored items in their order.\<close>

theorem MarkItemPortraits_stored:
  assumes "redis_store rdb st"
  shows "let f = RedisJSONFetcher rdb kp sk;
             has = (\<lambda>it. map_get [] st (ItemKey kp (it_ID it)) \<noteq> []) in
    MarkItemPortraits (Some f) items = Inr (map (\<lambda>it. it\<lparr>it_HasPortrait := has it\<rparr>) items)
    \<and> MarkItemPortraits (Some (f\<lparr>fe_ItemsJSON := None\<rparr>)) items = MarkItemPortraits (Some f) items
    \<and> and_then (MarkItemPortraits (Some f) items) (\<lambda>m. Inr (map it_ID (DropWithoutPortrait m))) =
      Inr (map it_ID (filter has items))"
proof -
  have "filter it_HasPortrait (map (\<lambda>it. it\<lparr>it_HasPortrait := h it\<rparr>) xs) =
        map (\<lambda>it. it\<lparr>it_HasPortrait := h it\<rparr>) (filter h xs)" for h and xs :: "ItemInfo list"
    by (induction xs) auto
  then show ?thesis
    using redis_store.portraits_stored[OF assms, of "RedisJSONFetcher rdb kp sk" kp sk items]
      redis_store.portraits_stored[OF assms, of "(RedisJSONFetcher rdb kp sk)\<lparr>fe_ItemsJSON := None\<rparr>" kp sk items]
    by (simp add: Let_def set_portraits_def DropWithoutPortrait_def comp_def)
qed

lemma MarkItemPortraits_stored_witness:
  "let st = [''recsysgo:feat:item:7'' \<mapsto> ''{}'']; f = RedisJSONFetcher (kv_redis st) DefaultKeyPatterns DefaultStrategyKeyPatterns in
   and_then (MarkItemPortraits (Some f) [mk_item 7 ''a'', mk_item 8 ''a'']) (\<lambda>m. Inr (map it_ID (DropWithoutPortrait m))) = Inr [7]"
proof -
  have k: "ItemKey DefaultKeyPatterns 7 = ''recsysgo:feat:item:7''" "ItemKey DefaultKeyPatterns 8 = ''recsysgo:feat:item:8''"
    by (simp_all add: ItemKey_def DefaultKeyPatterns_def fmt_verb_def Itoa_def nat_dec.simps)
  show ?thesis
    using MarkItemPortraits_stored[OF kv.redis_store_axioms,
        of "[''recsysgo:feat:item:7'' \<mapsto> ''{}'']" DefaultKeyPatterns DefaultStrategyKeyPatterns
          "[mk_item 7 ''a'', mk_item 8 ''a'']"]
    by (simp add: Let_def k map_get_def DropWithoutPortrait_def)
qed

end
