(* ===== verification/Show_Control.thy ===== *)
theory Show_Control
  imports Feature_Store Item_Filters
begin

text \<open>
  Show control: the second half of \<open>centerconfig/apply.go\<close>, \<open>centerconfig/show.go\<close> and
  \<open>internal/show/apply.go\<close>. Score control, homogeneous replacement, MMR rearrangement and forced
  insertion, and the strategy loop over them.
\<close>

section \<open>Score control\<close>

definition parseRecallTypeSet :: "string \<Rightarrow> string set" where
  "parseRecallTypeSet s =
     (if s = [] then {} else set (filter (\<lambda>p. p \<noteq> []) (map TrimSpace (split_on (CHR '','') s))))"

definition applyScoreControl :: "ItemInfo list \<Rightarrow> ShowStrategy \<Rightarrow> ItemInfo list" where
  "applyScoreControl items st =
     (if items = [] \<or> ss_Method st \<noteq> ''RecallType'' \<or> ss_ScoreControlFactor st \<le> 0 then items
      else
        (let types = parseRecallTypeSet (ss_RecallTypeList st) in
         if types = {} then items
         else map (\<lambda>it. if it_RecallType it \<in> types
                        then it\<lparr>it_Score := it_Score it * ss_ScoreControlFactor st\<rparr> else it) items))"

section \<open>Homogeneous content\<close>

definition applyHomogenCap :: "ItemInfo list \<Rightarrow> int \<Rightarrow> ItemInfo list" where
  "applyHomogenCap items topN =
     (if topN \<le> 0 \<or> int (length items) \<le> topN then items else upto_n topN items)"

definition homogen_pick :: "(int64 \<times> int64) list \<Rightarrow> ItemID set \<Rightarrow> ItemInfo \<Rightarrow> ItemInfo" where
  "homogen_pick exchange seen it =
     (case map_of exchange (it_ID it) of
        Some alt \<Rightarrow>
          if 0 < alt \<and> alt \<noteq> it_ID it \<and> alt \<notin> seen
          then (mk_item alt ''HomogeneityContent'')\<lparr>it_Score := it_Score it\<rparr>
          else it
      | None \<Rightarrow> it)"

fun homogen_loop ::
  "(int64 \<times> int64) list \<Rightarrow> ItemID set \<Rightarrow> ItemInfo list \<Rightarrow> ItemInfo list \<times> ItemID set" where
  "homogen_loop exchange seen [] = ([], seen)"
| "homogen_loop exchange seen (it # its) =
     (let p = homogen_pick exchange seen it in
      if it_ID p \<in> seen then homogen_loop exchange seen its
      else apfst ((#) p) (homogen_loop exchange (insert (it_ID p) seen) its))"

definition homogen_exchange :: "(int64 \<times> int64) list \<Rightarrow> ItemInfo list \<Rightarrow> int \<Rightarrow> ItemInfo list" where
  "homogen_exchange exchange items topN =
     (let n = (if topN \<le> 0 \<or> int (length items) < topN then length items else nat topN) in
      case homogen_loop exchange {} (take n items) of
        (out, seen) \<Rightarrow> out @ dedup_on it_ID seen (drop n items))"

definition applyHomogenContent ::
  "go_env \<Rightarrow> Fetcher option \<Rightarrow> ItemInfo list \<Rightarrow> int \<Rightarrow> ItemInfo list" where
  "applyHomogenContent env feat items topN =
     (case (if topN \<le> 0 \<or> items = [] then None else feat) of
        None \<Rightarrow> applyHomogenCap items topN
      | Some f \<Rightarrow>
          (case (if fe_NoOp f then None else fe_Homogen f) of
             None \<Rightarrow> applyHomogenCap items topN
           | Some (Inl _) \<Rightarrow> applyHomogenCap items topN
           | Some (Inr (raw, miss)) \<Rightarrow>
               if miss then applyHomogenCap items topN
               else
                 (let exchange = ParseHomogenExchange env raw miss in
                  if exchange = [] then applyHomogenCap items topN
                  else homogen_exchange exchange items topN)))"

section \<open>MMR rearrangement\<close>

text \<open>The inner loop: the unused index with the greatest score above \<open>-1\<close>, the first of equals.\<close>

definition mmr_score :: "ItemInfo list \<Rightarrow> float64 list \<Rightarrow> float64 \<Rightarrow> nat list \<Rightarrow> nat \<Rightarrow> float64" where
  "mmr_score items rel lambda picked i =
     (let dv = (if list_ex (\<lambda>j. it_RecallType (items ! i) = it_RecallType (items ! j)) picked then 1 else 0)
      in lambda * rel ! i - (1 - lambda) * dv)"

definition mmr_step ::
  "ItemInfo list \<Rightarrow> float64 list \<Rightarrow> float64 \<Rightarrow> nat list \<Rightarrow> nat \<Rightarrow> nat option \<times> float64 \<Rightarrow> nat option \<times> float64" where
  "mmr_step items rel lambda picked i best =
     (if i \<in> set picked then best
      else
        (let mm = mmr_score items rel lambda picked i in
         if snd best < mm then (Some i, mm) else best))"

definition mmr_best :: "ItemInfo list \<Rightarrow> float64 list \<Rightarrow> float64 \<Rightarrow> nat list \<Rightarrow> nat option" where
  "mmr_best items rel lambda picked =
     fst (fold (mmr_step items rel lambda picked) [0..<length items] (None, - 1))"

function mmr_loop :: "ItemInfo list \<Rightarrow> float64 list \<Rightarrow> float64 \<Rightarrow> int \<Rightarrow> nat list \<Rightarrow> nat list" where
  "mmr_loop items rel lambda maxOut picked =
     (if int (length picked) < maxOut \<and> length picked < length items then
        (case mmr_best items rel lambda picked of
           None \<Rightarrow> picked
         | Some i \<Rightarrow> mmr_loop items rel lambda maxOut (picked @ [i]))
      else picked)"
  by pat_completeness auto
termination
  by (relation "measure (\<lambda>(items, rel, lambda, maxOut, picked). length items - length picked)") auto

declare mmr_loop.simps [simp del]

definition mmr_rel :: "ItemInfo list \<Rightarrow> float64 list" where
  "mmr_rel items =
     (let m = fold (\<lambda>it m. if m < it_Score it then it_Score it else m) items 0;
          maxS = (if m \<le> 0 then 1 else m)
      in map (\<lambda>it. it_Score it / maxS) items)"

definition mmr_lambda :: "ShowStrategy \<Rightarrow> float64" where
  "mmr_lambda st =
     (let l = ss_MMRConstant st in if l \<le> 0 \<or> 1 < l then Fin (1 / 2) else l)"

definition applyMMRRearrange :: "ItemInfo list \<Rightarrow> ShowStrategy \<Rightarrow> ItemInfo list" where
  "applyMMRRearrange items st =
     (if length items < 2 then items
      else
        (let maxOut = (if ss_MMRDimension st \<le> 0 then int (length items) else ss_MMRDimension st)
         in map ((!) items) (mmr_loop items (mmr_rel items) (mmr_lambda st) maxOut [])))"

section \<open>Forced insertion\<close>

definition pickFromMainByRecallType :: "ItemInfo list \<Rightarrow> string \<Rightarrow> ItemInfo list" where
  "pickFromMainByRecallType items recallType = filter (\<lambda>it. it_RecallType it = recallType) items"

definition pickForcedInsert ::
  "go_env \<Rightarrow> nat \<times> nat \<Rightarrow> ItemInfo list \<Rightarrow> ForcedInsertRule \<Rightarrow> ItemInfo list" where
  "pickForcedInsert env spot src rule =
     (if src = [] \<or> fi_ForcedInsertCount rule \<le> 0 then []
      else
        (let n = min (fi_ForcedInsertCount rule) (int (length src));
             method = (let m = TrimSpace (fi_ExtractMethod rule) in if m = [] then ''TopNOrder'' else m)
         in if method = ''TopNRand'' then upto_n n (ge_shuffle env spot src) else upto_n n src))"

definition prependUnique :: "ItemInfo list \<Rightarrow> ItemInfo list \<Rightarrow> ItemInfo list" where
  "prependUnique items pre =
     (let out = dedup_on it_ID {} pre in out @ dedup_on it_ID (it_ID ` set pre) items)"

definition dedupeKeepFirst :: "ItemInfo list \<Rightarrow> ItemInfo list" where
  "dedupeKeepFirst items = dedup_on it_ID {} items"

text \<open>The page loop, with the number of pages still to build: it stops when the inserts run out.\<close>

fun insert_pages ::
  "nat \<Rightarrow> nat \<Rightarrow> ItemInfo list \<Rightarrow> nat \<Rightarrow> nat \<Rightarrow> ItemInfo list \<Rightarrow> ItemInfo list" where
  "insert_pages pageOri pageInsert ori page 0 ins = []"
| "insert_pages pageOri pageInsert ori page (Suc left) ins =
     (if ins = [] then []
      else take pageOri (drop (page * pageOri) ori) @ take pageInsert ins @
        insert_pages pageOri pageInsert ori (Suc page) left (drop pageInsert ins))"

definition applyForcedInsertPaged ::
  "ItemInfo list \<Rightarrow> ItemInfo list \<Rightarrow> ShowStrategy \<Rightarrow> ItemInfo list" where
  "applyForcedInsertPaged ori inserts st =
     (let pageOri = ss_PageSize st - ss_PageInsertCount st in
      if pageOri \<le> 0 then prependUnique ori inserts
      else
        (let maxP = int (length ori) div ss_PageSize st;
             actualPages = nat (if maxP < ss_PageNum st then maxP else ss_PageNum st);
             out = insert_pages (nat pageOri) (nat (ss_PageInsertCount st)) ori 0 actualPages inserts
         in dedupeKeepFirst (out @ drop (actualPages * nat pageOri) ori)))"

definition forced_queue ::
  "go_env \<Rightarrow> nat \<Rightarrow> ItemInfo list \<Rightarrow> ExclusivePool \<Rightarrow> ForcedInsertRule list \<Rightarrow> ItemInfo list" where
  "forced_queue env n items exclusive rules =
     concat (map (\<lambda>(j, rule).
        let src = map_get [] exclusive (fi_RecallType rule);
            src' = (if src = [] then pickFromMainByRecallType items (fi_RecallType rule) else src)
        in pickForcedInsert env (n, j) src' rule) (enumerate 0 rules))"

definition applyForcedInsertExclusive ::
  "go_env \<Rightarrow> nat \<Rightarrow> ItemInfo list \<Rightarrow> ExclusivePool \<Rightarrow> ShowStrategy \<Rightarrow> ItemInfo list" where
  "applyForcedInsertExclusive env n items exclusive st =
     (if ss_ForcedInsert st = [] then items
      else
        (let insertQueue = forced_queue env n items exclusive (ss_ForcedInsert st) in
         if insertQueue = [] then items
         else
           (let out = (if 0 < ss_PageSize st \<and> 0 < ss_PageInsertCount st \<and> 0 < ss_PageNum st
                       then applyForcedInsertPaged items insertQueue st else [])
            in if out \<noteq> [] then out else prependUnique items insertQueue)))"

section \<open>The strategy loop\<close>

definition apply_show_strategy ::
  "go_env \<Rightarrow> Fetcher option \<Rightarrow> ExclusivePool \<Rightarrow> nat \<times> ShowStrategy \<Rightarrow> ItemInfo list \<Rightarrow> ItemInfo list" where
  "apply_show_strategy env feat exclusive nst out =
     (case nst of
        (n, st) \<Rightarrow>
          if ss_ShowControlType st = ''ScoreControl'' then applyScoreControl out st
          else if ss_ShowControlType st = ''HomogenContent''
            then applyHomogenContent env feat out (ss_TopNShowControl st)
          else if ss_ShowControlType st = ''MMRRearrange'' then applyMMRRearrange out st
          else if ss_ShowControlType st = ''ForcedInsert''
            then applyForcedInsertExclusive env n out exclusive st
          else out)"

definition ApplyShowStrategiesWithExclusive ::
  "go_env \<Rightarrow> Fetcher option \<Rightarrow> ItemInfo list \<Rightarrow> ExclusivePool \<Rightarrow> ShowStrategy list \<Rightarrow> ItemInfo list" where
  "ApplyShowStrategiesWithExclusive env feat items exclusive strategies =
     fold (apply_show_strategy env feat exclusive) (enumerate 0 strategies) items"

definition ApplyShowStrategies :: "go_env \<Rightarrow> ItemInfo list \<Rightarrow> ShowStrategy list \<Rightarrow> ItemInfo list" where
  "ApplyShowStrategies env items strategies =
     ApplyShowStrategiesWithExclusive env None items Map.empty strategies"

definition ApplyStrategies ::
  "go_env \<Rightarrow> Fetcher option \<Rightarrow> ItemInfo list \<Rightarrow> ExclusivePool \<Rightarrow> ShowStrategy list \<Rightarrow> ItemInfo list" where
  "ApplyStrategies env feat items exclusive strategies =
     ApplyShowStrategiesWithExclusive env feat items exclusive strategies"


section \<open>Where shown items come from\<close>

text \<open>An item of the list or of an exclusive lane (with another score perhaps), or, where \<open>repl\<close> allows
  it, a replacement.\<close>

definition from_pool :: "bool \<Rightarrow> ItemInfo list \<Rightarrow> ExclusivePool \<Rightarrow> ItemInfo \<Rightarrow> bool" where
  "from_pool repl items exclusive x =
     ((repl \<and> it_RecallType x = ''HomogeneityContent'') \<or>
      (\<exists>y \<in> set items \<union> (\<Union>lane \<in> ran exclusive. set lane).
         it_ID y = it_ID x \<and> it_RecallType y = it_RecallType x))"

definition replaces :: "ShowStrategy list \<Rightarrow> bool" where
  "replaces strategies = list_ex (\<lambda>st. ss_ShowControlType st = ''HomogenContent'') strategies"

lemma from_pool_trans:
  "(\<And>y. y \<in> set out \<Longrightarrow> from_pool repl items exclusive y) \<Longrightarrow> from_pool repl out exclusive x \<Longrightarrow>
   from_pool repl items exclusive x"
  unfolding from_pool_def by (metis Un_iff)

lemma from_pool_member: "x \<in> set items \<Longrightarrow> from_pool repl items exclusive x"
  by (auto simp: from_pool_def)

lemma score_from: "x \<in> set (applyScoreControl items st) \<Longrightarrow> from_pool repl items exclusive x"
  by (auto simp: applyScoreControl_def from_pool_def Let_def split: if_splits)

lemma score_ids: "map it_ID (applyScoreControl items st) = map it_ID items"
  by (simp add: applyScoreControl_def Let_def)

lemma homogen_pick_from: "homogen_pick exchange seen it = it \<or>
    it_RecallType (homogen_pick exchange seen it) = ''HomogeneityContent''"
  by (auto simp: homogen_pick_def split: option.splits)

lemma homogen_loop_from:
  "x \<in> set (fst (homogen_loop exchange seen its)) \<Longrightarrow> from_pool True its exclusive x"
proof (induction its arbitrary: seen)
  case (Cons it its)
  then show ?case
    using homogen_pick_from[of exchange seen it]
    by (auto simp: Let_def from_pool_def split: if_splits)
qed simp

lemma homogen_loop_distinct:
  "distinct (map it_ID (fst (homogen_loop exchange seen its))) \<and>
   it_ID ` set (fst (homogen_loop exchange seen its)) \<inter> seen = {} \<and>
   snd (homogen_loop exchange seen its) = seen \<union> it_ID ` set (fst (homogen_loop exchange seen its))"
  by (induction its arbitrary: seen) (auto simp: Let_def)

lemma homogen_exchange_split:
  "\<exists>n out seen. homogen_loop exchange {} (take n items) = (out, seen) \<and>
     homogen_exchange exchange items topN = out @ dedup_on it_ID seen (drop n items)"
proof -
  let ?n = "if topN \<le> 0 \<or> int (length items) < topN then length items else nat topN"
  show ?thesis
    by (cases "homogen_loop exchange {} (take ?n items)")
      (use homogen_exchange_def[of exchange items topN] in \<open>metis (no_types, lifting) case_prod_conv\<close>)
qed

lemma homogen_exchange_distinct: "distinct (map it_ID (homogen_exchange exchange items topN))"
proof -
  obtain n out seen where h: "homogen_loop exchange {} (take n items) = (out, seen)"
    and e: "homogen_exchange exchange items topN = out @ dedup_on it_ID seen (drop n items)"
    using homogen_exchange_split by blast
  have "distinct (map it_ID out)" "seen = it_ID ` set out"
    using homogen_loop_distinct[of exchange "{}" "take n items"] h by simp_all
  then show ?thesis
    using keys_dedup_on[of it_ID seen "drop n items"] distinct_dedup_on[of it_ID seen "drop n items"]
    by (auto simp: e)
qed

lemma homogen_exchange_from:
  assumes "x \<in> set (homogen_exchange exchange items topN)"
  shows "from_pool True items exclusive x"
proof -
  obtain n out seen where h: "homogen_loop exchange {} (take n items) = (out, seen)"
    and e: "homogen_exchange exchange items topN = out @ dedup_on it_ID seen (drop n items)"
    using homogen_exchange_split by blast
  have "x \<in> set out \<or> x \<in> set (drop n items)"
    using assms subseq_set[OF dedup_on_subseq, of it_ID seen "drop n items"] by (auto simp: e)
  then show ?thesis
    using homogen_loop_from[of x exchange "{}" "take n items" exclusive] h
    by (auto simp: from_pool_def dest: in_set_takeD in_set_dropD)
qed

interpretation homogen_cap: drop_stage "\<lambda>items. applyHomogenCap items topN" for topN
  by unfold_locales (simp add: applyHomogenCap_def upto_n_subseq)

lemma homogen_cases:
  "applyHomogenContent env feat items topN = applyHomogenCap items topN \<or>
   (\<exists>exchange. applyHomogenContent env feat items topN = homogen_exchange exchange items topN)"
  by (auto simp: applyHomogenContent_def Let_def split: option.splits sum.splits)

subsection \<open>MMR picks distinct positions\<close>

lemma mmr_fold_range:
  "fst (fold (mmr_step items rel lambda picked) is best) = Some i \<Longrightarrow>
   fst best = Some i \<or> (i \<in> set is \<and> i \<notin> set picked)"
proof (induction "is" arbitrary: best)
  case (Cons j js)
  from Cons.IH[of "mmr_step items rel lambda picked j best"] Cons.prems show ?case
    by (auto simp: mmr_step_def Let_def split: if_splits)
qed simp

lemma mmr_best_range: "mmr_best items rel lambda picked = Some i \<Longrightarrow> i < length items \<and> i \<notin> set picked"
  unfolding mmr_best_def by (drule mmr_fold_range) auto

lemma mmr_loop_range:
  "set picked \<subseteq> {..<length items} \<Longrightarrow> distinct picked \<Longrightarrow>
   (let r = mmr_loop items rel lambda maxOut picked in
    set r \<subseteq> {..<length items} \<and> distinct r \<and> (\<exists>t. r = picked @ t) \<and>
    int (length r) \<le> max maxOut (int (length picked)))"
proof (induction items rel lambda maxOut picked rule: mmr_loop.induct)
  case (1 items rel lambda maxOut picked)
  show ?case
  proof (cases "int (length picked) < maxOut \<and> length picked < length items")
    case False
    then have "mmr_loop items rel lambda maxOut picked = picked" by (subst mmr_loop.simps) auto
    with 1(2,3) show ?thesis by (simp add: Let_def)
  next
    case True
    show ?thesis
    proof (cases "mmr_best items rel lambda picked")
      case None
      with True 1(2,3) show ?thesis by (subst mmr_loop.simps) (simp add: Let_def)
    next
      case (Some i)
      from mmr_best_range[OF Some] 1(1)[OF True Some] 1(2,3) True Some
      show ?thesis by (subst mmr_loop.simps) (auto simp: Let_def)
    qed
  qed
qed

lemma mmr_loop_greedy:
  "let r = mmr_loop items rel lambda maxOut picked in
     (\<exists>t. r = picked @ t) \<and>
     (\<forall>k. length picked \<le> k \<and> k < length r \<longrightarrow> mmr_best items rel lambda (take k r) = Some (r ! k)) \<and>
     (int (length r) < maxOut \<and> length r < length items \<longrightarrow> mmr_best items rel lambda r = None)"
proof (induction items rel lambda maxOut picked rule: mmr_loop.induct)
  case (1 items rel lambda maxOut picked)
  show ?case
  proof (cases "int (length picked) < maxOut \<and> length picked < length items")
    case False
    then have "mmr_loop items rel lambda maxOut picked = picked" by (subst mmr_loop.simps) auto
    then show ?thesis using False by (auto simp: Let_def)
  next
    case True
    show ?thesis
    proof (cases "mmr_best items rel lambda picked")
      case None
      then have "mmr_loop items rel lambda maxOut picked = picked" using True by (subst mmr_loop.simps) auto
      then show ?thesis using None by (simp add: Let_def)
    next
      case (Some i)
      have step: "mmr_loop items rel lambda maxOut picked = mmr_loop items rel lambda maxOut (picked @ [i])"
        using True Some by (subst mmr_loop.simps) simp
      let ?r = "mmr_loop items rel lambda maxOut (picked @ [i])"
      note ih = 1[OF True Some, unfolded Let_def]
      then obtain t where t: "?r = picked @ i # t" by auto
      have "mmr_best items rel lambda (take k ?r) = Some (?r ! k)" if "length picked \<le> k" "k < length ?r" for k
      proof (cases "k = length picked")
        case True
        then show ?thesis using Some by (simp add: t)
      next
        case False
        then show ?thesis using ih that by simp
      qed
      then show ?thesis using ih t unfolding step Let_def by blast
    qed
  qed
qed

text \<open>What one round picks: the first of the unpicked indices with the greatest score, when that is above
  minus one; nothing when no unpicked index scores above minus one. A score that is not a number never
  wins.\<close>

definition mmr_choice :: "nat \<Rightarrow> (nat \<Rightarrow> float64) \<Rightarrow> nat set \<Rightarrow> nat option \<Rightarrow> bool" where
  "mmr_choice k score picked choice =
     (case choice of
        None \<Rightarrow> \<forall>j<k. j \<notin> picked \<longrightarrow> \<not> - 1 < score j
      | Some i \<Rightarrow> i < k \<and> i \<notin> picked \<and> - 1 < score i
          \<and> (\<forall>j<k. j \<notin> picked \<longrightarrow> \<not> score i < score j \<and> (j < i \<longrightarrow> \<not> score i \<le> score j)))"

lemma less_float_le: "(a :: float64) < b \<Longrightarrow> b \<le> c \<Longrightarrow> a < c"
  unfolding less_float64_def less_eq_float64_def fle_def using flt_linear flt_not_NaN by blast

lemma mmr_fold_choice:
  "let best = fold (mmr_step items rel lambda picked) [0..<k] (None, - 1) in
     mmr_choice k (mmr_score items rel lambda picked) (set picked) (fst best)
     \<and> snd best = (case fst best of None \<Rightarrow> - 1 | Some i \<Rightarrow> mmr_score items rel lambda picked i)"
proof (induction k)
  case (Suc k)
  let ?s = "mmr_score items rel lambda picked"
  obtain b m where best: "fold (mmr_step items rel lambda picked) [0..<k] (None, - 1) = (b, m)" by (cases "fold (mmr_step items rel lambda picked) [0..<k] (None, - 1)")
  have ih: "mmr_choice k ?s (set picked) b" "m = (case b of None \<Rightarrow> - 1 | Some i \<Rightarrow> ?s i)"
    using Suc by (auto simp: best)
  have fold: "fold (mmr_step items rel lambda picked) [0..<Suc k] (None, - 1) = mmr_step items rel lambda picked k (b, m)"
    by (simp add: best)
  have low: "- 1 < m \<or> m = - 1" using ih by (auto simp: mmr_choice_def split: option.splits)
  show ?case
  proof (cases "k \<in> set picked \<or> \<not> m < ?s k")
    case True
    then have "mmr_step items rel lambda picked k (b, m) = (b, m)" by (auto simp: mmr_step_def Let_def)
    then show ?thesis
      unfolding fold Let_def using ih True by (auto simp: mmr_choice_def less_Suc_eq split: option.splits)
  next
    case False
    then have st: "mmr_step items rel lambda picked k (b, m) = (Some k, ?s k)" by (simp add: mmr_step_def Let_def)
    have "\<not> ?s k \<le> ?s j" if "j < k" "j \<notin> set picked" for j
      using less_float_le[of m "?s k" "?s j"] False ih that by (auto simp: mmr_choice_def split: option.splits)
    moreover have "\<not> ?s k < ?s j" if "j < k" "j \<notin> set picked" for j
      using calculation[OF that] unfolding less_float64_def less_eq_float64_def fle_def
      using flt_asym flt_not_NaN by blast
    moreover have "- 1 < ?s k"
      using low False flt_trans[of "- 1" m "?s k"] unfolding less_float64_def by auto
    ultimately show ?thesis
      unfolding fold st Let_def using False by (auto simp: mmr_choice_def less_Suc_eq float_ops)
  qed
qed (simp add: mmr_choice_def)

lemma mmr_best_choice: "mmr_choice (length items) (mmr_score items rel lambda picked) (set picked) (mmr_best items rel lambda picked)"
  using mmr_fold_choice[of items rel lambda picked "length items"] by (simp add: mmr_best_def Let_def)

text \<open>C39: the MMR loop ends. Against the indices picked before it, each round's pick scores above minus one, no
  unpicked index scores higher and no earlier one as high (a score that is NaN never wins); and when the loop is left before the dimension
  is reached or the list is used up, no unpicked item scores above minus one.\<close>

theorem mmr_loop_stops:
  "let r = mmr_loop items rel lambda maxOut [];
       score = (\<lambda>n. mmr_score items rel lambda (take n r));
       unpicked = (\<lambda>n. filter (\<lambda>j. j \<notin> set (take n r)) [0..<length items])
   in distinct r \<and> set r \<subseteq> {..<length items} \<and> int (length r) \<le> max maxOut 0
     \<and> list_all (\<lambda>n. - 1 < score n (r ! n)
          \<and> list_all (\<lambda>j. if j < r ! n then \<not> score n (r ! n) \<le> score n j else \<not> score n (r ! n) < score n j) (unpicked n))
        [0..<length r]
     \<and> (if int (length r) < maxOut \<and> length r < length items
        then list_all (\<lambda>j. \<not> - 1 < score (length r) j) (unpicked (length r)) else True)"
proof -
  let ?r = "mmr_loop items rel lambda maxOut []"
  have "mmr_choice (length items) (mmr_score items rel lambda (take n ?r)) (set (take n ?r)) (Some (?r ! n))" if "n < length ?r" for n
    using mmr_best_choice[of items rel lambda "take n ?r"] mmr_loop_greedy[of items rel lambda maxOut "[]"] that
    by (simp add: Let_def)
  moreover have "mmr_choice (length items) (mmr_score items rel lambda ?r) (set ?r) None"
    if "int (length ?r) < maxOut" "length ?r < length items"
    using mmr_best_choice[of items rel lambda ?r] mmr_loop_greedy[of items rel lambda maxOut "[]"] that
    by (simp add: Let_def)
  ultimately show ?thesis
    using mmr_loop_range[of "[]" items rel lambda maxOut] by (auto simp: Let_def list_all_iff mmr_choice_def)
qed

lemma mset_picks:
  assumes "set r \<subseteq> {..<length items}" "distinct r"
  shows "mset (map ((!) items) r) \<subseteq># mset items"
proof -
  have "mset r \<subseteq># mset [0..<length items]"
    using assms by (simp add: subset_imp_msubset_mset_set atLeast0LessThan flip: mset_set_set)
  then have "image_mset ((!) items) (mset r) \<subseteq># image_mset ((!) items) (mset [0..<length items])"
    by (rule image_mset_subseteq_mono)
  then show ?thesis by (simp flip: mset_map add: map_nth del: mset_upt)
qed

lemma mmr_mset: "mset (applyMMRRearrange items st) \<subseteq># mset items"
  using mmr_loop_range[of "[]" items "mmr_rel items" "mmr_lambda st"]
  by (auto simp: applyMMRRearrange_def Let_def simp del: mset_map intro!: mset_picks)


lemma mmr_from: "x \<in> set (applyMMRRearrange items st) \<Longrightarrow> from_pool repl items exclusive x"
  using set_mset_mono[OF mmr_mset[of items st]] by (auto intro!: from_pool_member)

lemma mset_subset_distinct:
  assumes "mset xs \<subseteq># mset ys" "distinct ys"
  shows "distinct xs"
proof -
  obtain m where "mset ys = mset xs + m" using assms(1) mset_subset_eq_exists_conv by blast
  then obtain zs where "mset ys = mset (xs @ zs)" using ex_mset[of m] by auto
  then show ?thesis using assms(2) mset_eq_imp_distinct_iff[of ys "xs @ zs"] by simp
qed

lemma mmr_distinct: "distinct (map it_ID items) \<Longrightarrow> distinct (map it_ID (applyMMRRearrange items st))"
  using image_mset_subseteq_mono[OF mmr_mset[of items st], of it_ID]
  by (rule_tac mset_subset_distinct[of _ "map it_ID items"]) simp_all

subsection \<open>Forced insertion\<close>

lemma prependUnique_dedup: "prependUnique items pre = dedup_on it_ID {} (pre @ items)"
  by (simp add: prependUnique_def Let_def dedup_on_append)

lemma insert_pages_set:
  "set (insert_pages pageOri pageInsert ori page left ins) \<subseteq> set ori \<union> set ins"
  by (induction pageOri pageInsert ori page left ins rule: insert_pages.induct)
    (auto dest: in_set_takeD in_set_dropD)

lemma dedup_on_setD: "x \<in> set (dedup_on key seen xs) \<Longrightarrow> x \<in> set xs"
  by (rule subsetD[OF subseq_set[OF dedup_on_subseq]])

lemma forced_paged_set: "set (applyForcedInsertPaged ori inserts st) \<subseteq> set ori \<union> set inserts"
  by (auto simp: applyForcedInsertPaged_def prependUnique_dedup dedupeKeepFirst_def Let_def
      dest!: dedup_on_setD subsetD[OF insert_pages_set] in_set_dropD split: if_splits)

lemma forced_paged_distinct: "distinct (map it_ID (applyForcedInsertPaged ori inserts st))"
  by (simp add: applyForcedInsertPaged_def prependUnique_dedup dedupeKeepFirst_def Let_def distinct_dedup_on)

context go_runtime
begin

lemma pickForcedInsert_set: "set (pickForcedInsert env spot src rule) \<subseteq> set src"
  by (auto simp: pickForcedInsert_def upto_n_def Let_def dest: in_set_takeD split: if_splits)


lemma forced_queue_from:
  "x \<in> set (forced_queue env n items exclusive rules) \<Longrightarrow> from_pool repl items exclusive x"
proof -
  assume "x \<in> set (forced_queue env n items exclusive rules)"
  then obtain j rule src where x: "x \<in> set (pickForcedInsert env (n, j) src rule)"
    and src: "src = map_get [] exclusive (fi_RecallType rule) \<or>
      src = pickFromMainByRecallType items (fi_RecallType rule)"
    by (auto simp: forced_queue_def Let_def split: if_splits)
  then have "x \<in> set src" using pickForcedInsert_set by blast
  with src show "from_pool repl items exclusive x"
    by (auto simp: from_pool_def map_get_def pickFromMainByRecallType_def ran_def split: option.splits)
qed

lemma forced_from:
  "x \<in> set (applyForcedInsertExclusive env n items exclusive st) \<Longrightarrow> from_pool repl items exclusive x"
proof -
  assume x: "x \<in> set (applyForcedInsertExclusive env n items exclusive st)"
  let ?q = "forced_queue env n items exclusive (ss_ForcedInsert st)"
  have "x \<in> set items \<union> set ?q"
    using x subsetD[OF forced_paged_set[of items ?q st]]
    by (auto simp: applyForcedInsertExclusive_def prependUnique_dedup Let_def
        dest: dedup_on_setD split: if_splits)
  then show ?thesis using forced_queue_from from_pool_member by blast
qed

lemma strategy_from:
  assumes "x \<in> set (apply_show_strategy env feat exclusive (n, st) items)"
    and "ss_ShowControlType st = ''HomogenContent'' \<Longrightarrow> repl"
  shows "from_pool repl items exclusive x"
proof -
  have "from_pool True items exclusive x" if "x \<in> set (applyHomogenContent env feat items t)" for t
    using that homogen_cases[of env feat items t] homogen_exchange_from
      homogen_cap.run_set[of items t] from_pool_member by (metis subsetD)
  then show ?thesis
    using assms score_from mmr_from forced_from from_pool_member
    by (auto simp: apply_show_strategy_def split: if_splits)
qed

lemma strategies_from:
  assumes "x \<in> set (ApplyShowStrategiesWithExclusive env feat items exclusive strategies)"
  shows "from_pool (replaces strategies) items exclusive x"
proof -
  let ?repl = "replaces strategies"
  let ?I = "\<lambda>out. \<forall>x\<in>set out. from_pool ?repl items exclusive x"
  have "?I (fold (apply_show_strategy env feat exclusive) (enumerate 0 strategies) items)"
  proof (rule fold_invariant[where Q = "\<lambda>(n, st). ss_ShowControlType st = ''HomogenContent'' \<longrightarrow> ?repl" and P = ?I])
    show "case p of (n, st) \<Rightarrow> ss_ShowControlType st = ''HomogenContent'' \<longrightarrow> ?repl" if "p \<in> set (enumerate 0 strategies)" for p
      using that nth_mem[of _ strategies] by (fastforce simp: replaces_def list_ex_iff in_set_enumerate_eq)
    show "?I (apply_show_strategy env feat exclusive p out)"
      if p: "case p of (n, st) \<Rightarrow> ss_ShowControlType st = ''HomogenContent'' \<longrightarrow> ?repl" and out: "?I out" for p out
    proof
      fix y assume "y \<in> set (apply_show_strategy env feat exclusive p out)"
      then have "from_pool ?repl out exclusive y" using p by (cases p) (auto intro: strategy_from)
      then show "from_pool ?repl items exclusive y" using out from_pool_trans[of out ?repl items exclusive y] by blast
    qed
  qed (auto intro: from_pool_member)
  with assms show ?thesis by (simp add: ApplyShowStrategiesWithExclusive_def)
qed

end

lemma forced_distinct:
  "distinct (map it_ID items) \<Longrightarrow> distinct (map it_ID (applyForcedInsertExclusive env n items exclusive st))"
  by (simp add: applyForcedInsertExclusive_def forced_paged_distinct prependUnique_dedup
      distinct_dedup_on Let_def)

lemma homogen_distinct:
  "distinct (map it_ID items) \<Longrightarrow> distinct (map it_ID (applyHomogenContent env feat items t))"
  using homogen_cases[of env feat items t] homogen_exchange_distinct
    homogen_cap.run_distinct[of it_ID items t] by metis

lemma strategy_distinct:
  "distinct (map it_ID items) \<Longrightarrow>
   distinct (map it_ID (apply_show_strategy env feat exclusive nst items))"
  using mmr_distinct forced_distinct homogen_distinct
  by (cases nst) (simp add: apply_show_strategy_def score_ids)

lemma strategies_distinct:
  "distinct (map it_ID items) \<Longrightarrow>
   distinct (map it_ID (ApplyShowStrategiesWithExclusive env feat items exclusive strategies))"
  unfolding ApplyShowStrategiesWithExclusive_def
  by (rule fold_invariant[where Q = "\<lambda>_. True" and P = "\<lambda>out. distinct (map it_ID out)"])
    (use strategy_distinct in auto)

section \<open>Properties\<close>

definition forced_example :: ShowStrategy where
  "forced_example =
     \<lparr>ss_ShowControlType = ''ForcedInsert'', ss_Method = [], ss_TopNShowControl = 0, ss_RecallTypeList = [],
      ss_ScoreControlFactor = 0, ss_PageNum = 3, ss_PageSize = 2, ss_PageInsertCount = 1, ss_MMRConstant = 0,
      ss_MMRDimension = 0,
      ss_ForcedInsert = [\<lparr>fi_RecallType = ''ex'', fi_ForcedInsertCount = 1, fi_ExtractMethod = []\<rparr>],
      ss_Comment = []\<rparr>"

text \<open>C14: whatever strategies are configured, show control invents nothing: every item it returns is a
  ranked item or an item of an exclusive lane with its id and recall type, or, when homogeneous exchange is
  among the strategies, a homogeneous replacement marked as such.\<close>

theorem ApplyShowStrategies_provenance:
  assumes "go_runtime env"
    and "x \<in> set (ApplyShowStrategiesWithExclusive env feat items exclusive strategies)"
  shows "(it_RecallType x = ''HomogeneityContent'' \<and> list_ex (\<lambda>st. ss_ShowControlType st = ''HomogenContent'') strategies) \<or>
    (\<exists>y. (y \<in> set items \<or> (\<exists>rt lane. exclusive rt = Some lane \<and> y \<in> set lane)) \<and>
      it_ID y = it_ID x \<and> it_RecallType y = it_RecallType x)"
  using go_runtime.strategies_from[OF assms] by (fastforce simp: from_pool_def replaces_def ran_def)

text \<open>C15: show control never introduces a duplicate: distinct ids in, distinct ids out, for every list of
  strategies, every exclusive pool and every replacement map.\<close>

theorem ApplyShowStrategies_distinct:
  assumes "distinct (map it_ID items)"
  shows "distinct (map it_ID (ApplyShowStrategiesWithExclusive env feat items exclusive strategies))"
  using assms by (rule strategies_distinct)


lemma ApplyShowStrategies_distinct_witness:
  "distinct (map it_ID (ApplyShowStrategiesWithExclusive go_env0 None [mk_item 1 ''a'', mk_item 2 ''a'']
     [''ex'' \<mapsto> [mk_item 2 ''ex'', mk_item 3 ''ex'']] [forced_example]))"
  by (rule ApplyShowStrategies_distinct) simp

subsection \<open>Forced insertion by pages\<close>

definition ceil_div :: "nat \<Rightarrow> nat \<Rightarrow> nat" where
  "ceil_div n b = (n + b - 1) div b"

lemma ceil_div_simps:
  "0 < b \<Longrightarrow> ceil_div 0 b = 0"
  "0 < b \<Longrightarrow> 0 < n \<Longrightarrow> ceil_div n b = Suc (ceil_div (n - b) b)"
proof -
  show "0 < b \<Longrightarrow> ceil_div 0 b = 0" by (simp add: ceil_div_def)
  assume b: "0 < b" and n: "0 < n"
  show "ceil_div n b = Suc (ceil_div (n - b) b)"
  proof (cases "n < b")
    case True
    have "(n + b - 1) div b = 1"
      using True b n by (intro div_nat_eqI) auto
    then show ?thesis using True b by (simp add: ceil_div_def)
  next
    case False
    then have "n + b - 1 = (n - b + b - 1) + b" using b by simp
    then have "(n + b - 1) div b = Suc ((n - b + b - 1) div b)"
      using div_add_self2[of b "n - b + b - 1"] b by (metis add.commute not_gr_zero plus_1_eq_Suc)
    then show ?thesis unfolding ceil_div_def .
  qed
qed

lemma set_take_add: "set (take (a + n) xs) = set (take a xs) \<union> set (take n (drop a xs))"
  by (simp add: take_add)

lemma insert_pages_items:
  assumes "0 < b"
  shows "set (insert_pages a b ori p n ins) =
    (let m = min n (ceil_div (length ins) b) in set (take (m * a) (drop (p * a) ori)) \<union> set (take (m * b) ins))"
proof (induction n arbitrary: p ins)
  case 0
  show ?case by simp
next
  case (Suc n)
  show ?case
  proof (cases "ins = []")
    case True
    then show ?thesis using assms by (simp add: ceil_div_simps)
  next
    case False
    let ?k = "min n (ceil_div (length ins - b) b)"
    have m: "min (Suc n) (ceil_div (length ins) b) = Suc ?k"
      using False assms ceil_div_simps(2)[of b "length ins"] by simp
    have "set (insert_pages a b ori (Suc p) n (drop b ins)) =
        set (take (?k * a) (drop a (drop (p * a) ori))) \<union> set (take (?k * b) (drop b ins))"
      using Suc[of "Suc p" "drop b ins"] by (simp add: Let_def add.commute)
    moreover have "set (take (Suc ?k * a) (drop (p * a) ori)) =
        set (take a (drop (p * a) ori)) \<union> set (take (?k * a) (drop a (drop (p * a) ori)))"
      and "set (take (Suc ?k * b) ins) = set (take b ins) \<union> set (take (?k * b) (drop b ins))"
      using set_take_add by (metis mult_Suc)+
    ultimately show ?thesis
      unfolding Let_def m using False by auto
  qed
qed


text \<open>C16: forced insertion by pages shows exactly: the head of the list that went into the pages actually
  built, the inserts those pages took, and the tail behind all planned pages. When the inserts run
  out first, the originals between the last built and the last planned page are lost (the witness
  loses items 2 and 3).\<close>

theorem applyForcedInsertPaged_items:
  assumes "0 < ss_PageInsertCount st" "ss_PageInsertCount st < ss_PageSize st"
  shows "let a = nat (ss_PageSize st - ss_PageInsertCount st);
             b = nat (ss_PageInsertCount st);
             planned = nat (min (ss_PageNum st) (int (length ori) div ss_PageSize st));
             built = min planned (ceil_div (length inserts) b) in
    it_ID ` set (applyForcedInsertPaged ori inserts st) =
    it_ID ` (set (take (built * a) ori) \<union> set (take (built * b) inserts) \<union> set (drop (planned * a) ori))
    \<and> distinct (map it_ID (applyForcedInsertPaged ori inserts st))"
proof -
  have m: "(if x < y then x else y) = min y x" for x y :: int by simp
  have k: "it_ID ` set (dedup_on it_ID {} xs) = it_ID ` set xs" for xs
    by (simp add: keys_dedup_on)
  have pg: "applyForcedInsertPaged ori inserts st = dedup_on it_ID {}
     (insert_pages (nat (ss_PageSize st - ss_PageInsertCount st)) (nat (ss_PageInsertCount st)) ori 0
        (nat (min (ss_PageNum st) (int (length ori) div ss_PageSize st))) inserts @
      drop (nat (min (ss_PageNum st) (int (length ori) div ss_PageSize st)) *
        nat (ss_PageSize st - ss_PageInsertCount st)) ori)"
    using assms(2) unfolding applyForcedInsertPaged_def Let_def dedupeKeepFirst_def m by simp
  have "0 < nat (ss_PageInsertCount st)" using assms(1) by simp
  then show ?thesis
    using forced_paged_distinct
    unfolding pg k Let_def set_append insert_pages_items[OF \<open>0 < nat (ss_PageInsertCount st)\<close>]
    by (simp add: Let_def pg[symmetric])
qed

lemma applyForcedInsertPaged_items_witness:
  "it_ID ` set (applyForcedInsertPaged (map (\<lambda>i. mk_item i ''r'') [1, 2, 3, 4, 5, 6])
     [mk_item 100 ''ex''] forced_example) = {1, 100, 4, 5, 6}"
  using applyForcedInsertPaged_items[of forced_example "map (\<lambda>i. mk_item i ''r'') [1, 2, 3, 4, 5, 6]"
      "[mk_item 100 ''ex'']"]
  by (simp add: forced_example_def ceil_div_def) auto

lemma ApplyShowStrategies_provenance_witness:
  "(it_RecallType (mk_item 3 ''ex'') = ''HomogeneityContent'' \<and>
     list_ex (\<lambda>st. ss_ShowControlType st = ''HomogenContent'') [forced_example]) \<or>
    (\<exists>y. (y \<in> set [mk_item 1 ''a'', mk_item 2 ''a''] \<or>
          (\<exists>rt lane. [''ex'' \<mapsto> [mk_item 3 ''ex'']] rt = Some lane \<and> y \<in> set lane)) \<and>
      it_ID y = it_ID (mk_item 3 ''ex'') \<and> it_RecallType y = it_RecallType (mk_item 3 ''ex''))"
proof (rule ApplyShowStrategies_provenance[OF env0.go_runtime_axioms])
  show "mk_item 3 ''ex'' \<in> set (ApplyShowStrategiesWithExclusive go_env0 None
     [mk_item 1 ''a'', mk_item 2 ''a''] [''ex'' \<mapsto> [mk_item 3 ''ex'']] [forced_example])"
    by (simp add: ApplyShowStrategiesWithExclusive_def apply_show_strategy_def forced_example_def
        applyForcedInsertExclusive_def forced_queue_def pickForcedInsert_def applyForcedInsertPaged_def
        dedupeKeepFirst_def upto_n_def map_get_def Let_def numeral_2_eq_2 TrimSpace_def trim_right_def
        enumerate_eq_zip)
qed

subsection \<open>MMR loses nothing\<close>

lemma mmr_fold_some:
  assumes "i \<in> set is" "i \<notin> set picked" "- 1 < mmr_score items rel lambda picked i"
  shows "fst (fold (mmr_step items rel lambda picked) is (None, - 1)) \<noteq> None"
proof -
  have some: "fst (fold (mmr_step items rel lambda picked) js b) \<noteq> None" if "fst b \<noteq> None" for js b
    using that by (induction js arbitrary: b) (auto simp: mmr_step_def Let_def)
  from assms show ?thesis
  proof (induction "is")
    case (Cons j js)
    show ?case
    proof (cases "mmr_step items rel lambda picked j (None, - 1) = (None, - 1)")
      case True
      then have "j \<noteq> i" using Cons.prems by (auto simp: mmr_step_def Let_def)
      with True Cons show ?thesis by simp
    next
      case False
      then have "fst (mmr_step items rel lambda picked j (None, - 1)) \<noteq> None"
        by (auto simp: mmr_step_def Let_def split: if_splits)
      from some[OF this] show ?thesis by simp
    qed
  qed simp
qed

lemma mmr_loop_full:
  assumes "\<And>i p. i < length items \<Longrightarrow> - 1 < mmr_score items rel lambda p i"
  shows "set picked \<subseteq> {..<length items} \<Longrightarrow> distinct picked \<Longrightarrow>
    length (mmr_loop items rel lambda (int (length items)) picked) = length items"
  using assms
proof (induction items rel lambda "int (length items)" picked rule: mmr_loop.induct)
  case (1 items rel lambda picked)
  show ?case
  proof (cases "length picked < length items")
    case True
    have "\<not> {..<length items} \<subseteq> set picked"
      using True card_length[of picked] card_mono[of "set picked" "{..<length items}"] by fastforce
    then obtain i where i: "i < length items" "i \<notin> set picked" by auto
    then obtain k where k: "mmr_best items rel lambda picked = Some k"
      using mmr_fold_some[of i "[0..<length items]" picked items rel lambda] 1(4)
      by (auto simp: mmr_best_def)
    from mmr_best_range[OF k] 1(1)[OF _ k] 1(2,3,4) True k show ?thesis
      by (subst mmr_loop.simps) auto
  next
    case False
    have "length picked \<le> length items"
      using 1(2,3) distinct_card[of picked] card_mono[of "{..<length items}" "set picked"] by simp
    with False show ?thesis by (subst mmr_loop.simps) simp
  qed
qed


lemma lambda_pos:
  assumes "1 - mmr_lambda st < 1"
  shows "\<exists>l. mmr_lambda st = Fin l \<and> 0 < l \<and> l \<le> 1"
proof -
  have "mmr_lambda st = Fin (1 / 2) \<or> mmr_lambda st = NaN \<or> (\<exists>l. mmr_lambda st = Fin l \<and> 0 < l \<and> l \<le> 1)"
    by (cases "ss_MMRConstant st") (auto simp: mmr_lambda_def Let_def float_ops fle_def split: if_splits)
  moreover have "mmr_lambda st \<noteq> NaN" using assms by (auto simp: float_ops fsub_def fadd_def)
  ultimately show ?thesis by (auto intro: exI[of _ "1 / 2"])
qed

lemma penalty_cases:
  assumes "0 < l" "l \<le> 1" "1 - Fin l < 1"
  shows "\<exists>q. 0 \<le> q \<and> q < 1 \<and> on_grid 53 (- 1074) q \<and>
    (\<forall>b. (1 - Fin l) * (if b then 1 else 0) = Fin (if b then q else 0))"
proof -
  have sub: "1 - Fin l = mk64 False (1 - l)"
    using assms(1) by (simp add: float_ops fsub_def fadd_def)
  have nonneg: "nonneg (1 - Fin l)" unfolding sub using assms(2) by (intro fmake_nonneg) simp
  have "1 - Fin l \<noteq> NegZero" unfolding sub by (simp add: fmake_def Let_def)
  moreover have "1 - Fin l \<noteq> Inf False" using assms(3) by (auto simp: float_ops)
  ultimately obtain q where q: "1 - Fin l = Fin q" "0 \<le> q"
    using nonneg_cases[OF nonneg] by blast
  have lt: "q < 1" using assms(3) unfolding q(1) by (simp add: float_ops)
  have grid: "on_grid 53 (- 1074) q"
    using valid64_mk64[of False "1 - l"] unfolding sub[symmetric] q(1) by (simp add: valid64_def)
  have "mk64 s q = Fin q" if "q \<noteq> 0" for s
    using lt q(2) that round_bin_on_grid[OF grid] by (simp add: fmake_def Let_def)
  moreover have "mk64 False 0 = Fin 0" by (simp add: fmake_def)
  ultimately have "Fin q * (if b then 1 else 0) = Fin (if b then q else 0)" for b
    using q(2) by (cases "q = 0") (auto simp: float_ops fmul_def Let_def)
  then show ?thesis using q lt grid by metis
qed

lemma above_minus_one:
  assumes "nonneg x" "0 \<le> q" "q < 1" "on_grid 53 (- 1074) q"
  shows "- 1 < x - Fin q"
proof -
  have "on_grid 53 (- 1074) (- q)" using assms(4) by (simp add: on_grid_minus)
  then have "Fin (- 1) < mk64 s (r - q)" if "0 \<le> r" for r s
    using that assms(2,3) mk64_lower[of "- q" "r - q" "- 1" s] by simp
  from this[of 0] this show ?thesis
    using nonneg_cases[OF assms(1)] by (auto simp: float_ops fsub_def fadd_def)
qed

lemma max_score_pos:
  assumes "\<forall>it\<in>set items. nonneg (it_Score it) \<and> is_finite (it_Score it)"
  shows "\<exists>r. 0 < r \<and> (let m = fold (\<lambda>it m. if m < it_Score it then it_Score it else m) items 0
                     in if m \<le> 0 then 1 else m) = Fin r"
proof -
  have "nonneg (fold (\<lambda>it m. if m < it_Score it then it_Score it else m) items m) \<and>
        is_finite (fold (\<lambda>it m. if m < it_Score it then it_Score it else m) items m)"
    if "nonneg m" "is_finite m" for m
    using that assms by (induction items arbitrary: m) auto
  then have "nonneg (fold (\<lambda>it m. if m < it_Score it then it_Score it else m) items 0)"
    "is_finite (fold (\<lambda>it m. if m < it_Score it then it_Score it else m) items 0)"
    by (simp_all add: float_ops)
  moreover have "\<exists>r. 0 < r \<and> (if m \<le> 0 then 1 else m) = Fin r" if "nonneg m" "is_finite m" for m
    using nonneg_cases[OF that(1)] that(2) by (auto simp: float_ops fle_def)
  ultimately show ?thesis unfolding Let_def by blast
qed

text \<open>C17: with scores that are finite and not negative, and any configured trade-off that is not so small that
  one minus it rounds to one, MMR without a size limit only reorders: every ranked item is shown exactly
  once.\<close>

theorem applyMMRRearrange_permutes:
  assumes "1 - mmr_lambda st < 1" "ss_MMRDimension st \<le> 0"
    and "\<And>it. it \<in> set items \<Longrightarrow> nonneg (it_Score it) \<and> is_finite (it_Score it)"
  shows "mset (applyMMRRearrange items st) = mset items"
proof (cases "length items < 2")
  case False
  obtain r where r: "0 < r"
    and m: "(let m = fold (\<lambda>it m. if m < it_Score it then it_Score it else m) items 0
             in if m \<le> 0 then 1 else m) = Fin r"
    using max_score_pos[of items] assms(3) by blast
  from m have rel: "mmr_rel items = map (\<lambda>it. it_Score it / Fin r) items"
    by (simp add: mmr_rel_def Let_def)
  obtain l where l: "mmr_lambda st = Fin l" "0 < l" "l \<le> 1" using lambda_pos[OF assms(1)] by blast
  obtain q where q: "0 \<le> q" "q < 1" "on_grid 53 (- 1074) q"
    and penalty: "\<And>b. (1 - Fin l) * (if b then 1 else 0) = Fin (if b then q else 0)"
    using penalty_cases[OF l(2,3)] assms(1) unfolding l(1) by blast
  have "- 1 < mmr_score items (mmr_rel items) (mmr_lambda st) p i" if "i < length items" for i p
  proof -
    have "nonneg (Fin l * (it_Score (items ! i) / Fin r))"
      using that assms(3)[of "items ! i"] r l(2) by (intro nonneg_mult nonneg_div) simp_all
    from above_minus_one[OF this q] above_minus_one[OF this, of 0] show ?thesis
      using that on_grid_nums[of 53 "- 1074"] by (simp add: mmr_score_def Let_def l(1) rel penalty)
  qed
  then have "length (mmr_loop items (mmr_rel items) (mmr_lambda st) (int (length items)) []) = length items"
    by (rule mmr_loop_full) simp_all
  then have "size (mset (applyMMRRearrange items st)) = size (mset items)"
    using False assms(2) by (simp add: applyMMRRearrange_def)
  then show ?thesis
    using mmr_mset[of items st] mset_subset_size[of "mset (applyMMRRearrange items st)" "mset items"]
    by (metis nless_le subset_mset.le_less)
qed (simp add: applyMMRRearrange_def)

text \<open>The witness has the trade-off 3/4.\<close>

lemma applyMMRRearrange_permutes_witness:
  "mset (applyMMRRearrange [mk_item 1 ''a'', mk_item 2 ''a'', mk_item 3 ''b'']
      (forced_example\<lparr>ss_MMRConstant := Fin (3 / 4)\<rparr>)) =
   mset [mk_item 1 ''a'', mk_item 2 ''a'', mk_item 3 ''b'']"
proof (rule applyMMRRearrange_permutes)
  have "mk64 False (1 / 4) = Fin (1 / 4)" using mk64_dyadic[of 1 2 "1 / 4" False] by simp
  then show "1 - mmr_lambda (forced_example\<lparr>ss_MMRConstant := Fin (3 / 4)\<rparr>) < 1"
    by (simp add: mmr_lambda_def float_ops fle_def fsub_def fadd_def)
qed (auto simp: forced_example_def float_ops)

end
