(* ===== verification/Recall_Tag.thy ===== *)
theory Recall_Tag
  imports Feature_Store
begin

text \<open>
  \<open>pkg/featurestore/recall_tag.go\<close> and \<open>liveredirect.go\<close>: tag interests, the split of a recall
  budget over weighted tags, and the redirect entries of a user document.
\<close>

section \<open>Tag interests\<close>

abbreviation eps6 :: float64 where
  "eps6 \<equiv> flit (1 / 1000000)"

definition dec_TagWeight :: "TagWeight dec" where
  "dec_TagWeight = dec_struct
     [(''tag'', field (dec_int 64) tw_Tag tw_Tag_update),
      (''weight'', field dec_float tw_Weight tw_Weight_update)]"

definition filterPositiveTagWeights :: "go_env \<Rightarrow> TagWeight list \<Rightarrow> TagWeight list" where
  "filterPositiveTagWeights env ts =
     ge_sort_weights env (\<lambda>a b. tw_Weight b < tw_Weight a)
       (filter (\<lambda>tw. 0 \<le> tw_Tag tw \<and> eps6 < tw_Weight tw) ts)"

definition ParseTagInterestJSON :: "go_env \<Rightarrow> bytes \<Rightarrow> bool \<Rightarrow> TagWeight list" where
  "ParseTagInterestJSON env raw keyMissing =
     (if keyMissing \<or> raw = [] then []
      else
        (case unmarshal (dec_slice \<lparr>tw_Tag = 0, tw_Weight = 0\<rparr> dec_TagWeight) [] raw of
           (list, ok) \<Rightarrow>
             if ok \<and> list \<noteq> [] then filterPositiveTagWeights env list
             else
               (case unmarshal_ok (dec_map 0 dec_float) [] raw of
                  None \<Rightarrow> []
                | Some flat \<Rightarrow>
                    filterPositiveTagWeights env
                      (list @ List.map_filter
                         (\<lambda>(k, w). case ParseInt k of
                            Some t \<Rightarrow> if 0 \<le> t \<and> eps6 < w then Some \<lparr>tw_Tag = t, tw_Weight = w\<rparr> else None
                          | None \<Rightarrow> None)
                         (ge_ord_float env flat)))))"

text \<open>The loop of \<open>AllocateTagRecallCounts\<close>: each tag's share, at most 50 and what remains.\<close>

fun allocate_loop :: "float64 \<Rightarrow> int \<Rightarrow> TagWeight list \<Rightarrow> int list" where
  "allocate_loop unit remain [] = []"
| "allocate_loop unit remain (t # ts) =
     (let n0 = int_of_float (tw_Weight t * unit + Fin (1 / 2));
          n1 = (if 50 < n0 then 50 else n0);
          n = (if remain < n1 then remain else n1)
      in n # allocate_loop unit (wrap64 (remain - n)) ts)"

definition AllocateTagRecallCounts :: "TagWeight list \<Rightarrow> int \<Rightarrow> int list \<times> int list" where
  "AllocateTagRecallCounts tags recallNum =
     (if recallNum \<le> 0 \<or> tags = [] then ([], [])
      else
        (let total = fold (\<lambda>t s. s + tw_Weight t) tags 0 in
         if total < eps6 then ([], [])
         else (map tw_Tag tags, allocate_loop (float_of_int recallNum / total) recallNum tags)))"

record itemTagDoc =
  td_Tag :: int

definition ParseItemTag :: "bytes \<Rightarrow> int" where
  "ParseItemTag itemJSON =
     (if itemJSON = [] then - 1
      else
        (case unmarshal (dec_struct [(''tag'', field (dec_int 64) td_Tag td_Tag_update)]) \<lparr>td_Tag = 0\<rparr> itemJSON of
           (doc, ok) \<Rightarrow> if ok \<and> 0 \<le> td_Tag doc then td_Tag doc else - 1))"

definition RoundUpRecallBudget :: "int \<Rightarrow> int \<Rightarrow> int" where
  "RoundUpRecallBudget recallNum sampleFold =
     (if recallNum \<le> 0 then 0 else wrap64 (recallNum * (if sampleFold \<le> 0 then 1 else sampleFold)))"

definition TruncateTopKTags :: "TagWeight list \<Rightarrow> int \<Rightarrow> TagWeight list" where
  "TruncateTopKTags tags topK =
     (if topK \<le> 0 \<or> int (length tags) \<le> topK then tags else upto_n topK tags)"

definition DedupeItemIDsStable :: "int64 list \<Rightarrow> int64 list" where
  "DedupeItemIDsStable idl = dedup_on id {} idl"

definition SamplePrefix :: "int64 list \<Rightarrow> int \<Rightarrow> int64 list" where
  "SamplePrefix idl n =
     (if n \<le> 0 \<or> idl = [] then [] else if int (length idl) \<le> n then idl else upto_n n idl)"

definition TagInterestWindow :: "string \<Rightarrow> string" where
  "TagInterestWindow recallType =
     (if recallType = ''CrossTag14d'' then ''14d''
      else if recallType = ''CrossTag30d'' then ''30d'' else ''7d'')"

definition IsCrossTagRecallType :: "string \<Rightarrow> bool" where
  "IsCrossTagRecallType recallType =
     (recallType = ''CrossTag7d'' \<or> recallType = ''CrossTag14d'' \<or> recallType = ''CrossTag30d'')"

section \<open>Live redirect (\<open>liveredirect.go\<close>)\<close>

record liveRedirectEntry =
  lr_ID :: int64
  lr_Ts :: int64
  lr_Weight :: float64

definition dec_liveRedirectEntry :: "liveRedirectEntry dec" where
  "dec_liveRedirectEntry = dec_struct
     [(''id'', field (dec_int 64) lr_ID lr_ID_update),
      (''ts'', field (dec_int 64) lr_Ts lr_Ts_update),
      (''weight'', field dec_float lr_Weight lr_Weight_update)]"

record liveRedirectBlob =
  lb_MapList :: "liveRedirectEntry list"

definition dec_liveRedirectBlob :: "liveRedirectBlob dec" where
  "dec_liveRedirectBlob = dec_struct
     [(''map_list'',
       field (dec_slice \<lparr>lr_ID = 0, lr_Ts = 0, lr_Weight = 0\<rparr> dec_liveRedirectEntry) lb_MapList lb_MapList_update)]"

definition live_redirect_valid :: "int64 \<Rightarrow> liveRedirectEntry \<Rightarrow> bool" where
  "live_redirect_valid now e =
     (\<not> lr_ID e \<le> 0 \<and> \<not> (0 < lr_Ts e \<and> 86400 \<le> wrap64 (now - lr_Ts e)))"

definition ParseLiveRedirectItems :: "go_env \<Rightarrow> bytes \<Rightarrow> int \<Rightarrow> ItemInfo list" where
  "ParseLiveRedirectItems env userJSON limit =
     (if userJSON = [] \<or> limit \<le> 0 then []
      else
        (case unmarshal_ok (dec_map None dec_raw) [] userJSON of
           None \<Rightarrow> []
         | Some doc \<Rightarrow>
             (case Option.bind (map_of doc ''live_redirect'') id of
                None \<Rightarrow> []
              | Some raw \<Rightarrow>
                  (case dec_liveRedirectBlob \<lparr>lb_MapList = []\<rparr> raw of
                     (blob, ok) \<Rightarrow>
                       if \<not> ok \<or> lb_MapList blob = [] then []
                       else
                         (let valid = map (\<lambda>e. (lr_ID e, lr_Ts e))
                                        (filter (live_redirect_valid (ge_now env)) (lb_MapList blob));
                              sorted = ge_sort_pairs env (\<lambda>a b. snd b < snd a) valid;
                              kept = (if limit < int (length sorted) then upto_n limit sorted else sorted)
                          in map (\<lambda>(i, _). mk_item i ''LiveRedirect'') kept)))))"


section \<open>The budget split stays within its bounds\<close>

lemma round_bin_le: "0 \<le> x \<Longrightarrow> round_bin 53 (-1074) x \<le> max (2 * x) (2 powi -1074)"
proof (cases "2 powi -1074 \<le> x")
  case True
  then show ?thesis using round_bin_double[of "-1074" x 53] by simp
next
  case False
  have "on_grid 53 (-1074) (2 powi -1074)" by (rule on_gridI[of 1 _ _ "-1074"]) auto
  then have "round_bin 53 (-1074) x \<le> 2 powi -1074"
    using False round_bin_mono[of x "2 powi -1074" 53 "-1074"] by (simp add: round_bin_on_grid)
  then show ?thesis by simp
qed

lemma mk64_bounded:
  assumes "0 \<le> x" "x \<le> of_nat n" "n < 2 ^ 100"
  shows "\<exists>r. mk64 False x = Fin r \<and> 0 \<le> r \<and> r \<le> max (2 * x) (2 powi -1074)"
proof -
  let ?r = "round_bin 53 (-1074) x"
  have "(2::rat) powi -1074 \<le> 1" using power_le_one[of "1 / 2 :: rat" 1074] by (simp add: power_int_def)
  moreover have "(of_nat n :: rat) < 2 ^ 100" using assms(3) by (metis of_nat_less_iff of_nat_numeral of_nat_power)
  ultimately have "?r < 2 ^ 102"
    using round_bin_le[OF assms(1)] assms(2) by (simp add: max_def split: if_splits)
  then have "?r < 2 powi 1024" by (simp add: power_int_def)
  then show ?thesis
    using round_bin_nonneg[OF assms(1), of 53 "-1074"] round_bin_le[OF assms(1)]
    by (auto simp: fmake_def Let_def not_less)
qed

definition good_weight :: "float64 \<Rightarrow> bool" where
  "good_weight w = (\<exists>x. w = Fin x \<and> 0 < x \<and> valid64 w)"

lemma fadd_good:
  assumes "good_weight w" "0 \<le> a" "valid64 (Fin a)"
  shows "Fin a + w = Inf False \<or>
    (\<exists>s. Fin a + w = Fin s \<and> a \<le> s \<and> fval w \<le> s \<and> valid64 (Fin s))"
proof -
  obtain x where w: "w = Fin x" "0 < x" "valid64 (Fin x)" using assms(1) good_weight_def by auto
  let ?r = "round_bin 53 (-1074) (a + x)"
  have "a \<le> ?r" "x \<le> ?r"
    using round_bin_mono[of a "a + x" 53 "-1074"] round_bin_mono[of x "a + x" 53 "-1074"] w assms(2,3)
    by (simp_all add: valid64_def round_bin_on_grid)
  moreover have "Fin a + w = mk64 False (a + x)"
    using w assms(2) by (simp add: float_ops fadd_def)
  moreover have "valid64 (mk64 False (a + x))" by (rule valid64_mk64)
  ultimately show ?thesis using w by (auto simp: fmake_def Let_def split: if_splits)
qed

lemma sum_good:
  assumes "\<forall>t\<in>set ts. good_weight (tw_Weight t)" "0 \<le> a" "valid64 (Fin a)"
  shows "fold (\<lambda>t s. s + tw_Weight t) ts (Fin a) = Inf False \<or>
    (\<exists>s. fold (\<lambda>t s. s + tw_Weight t) ts (Fin a) = Fin s \<and> a \<le> s \<and>
      (\<forall>t\<in>set ts. fval (tw_Weight t) \<le> s))"
  using assms
proof (induction ts arbitrary: a)
  case (Cons t ts)
  have inf: "fold (\<lambda>t s. s + tw_Weight t) us (Inf False) = Inf False"
    if "\<forall>t\<in>set us. good_weight (tw_Weight t)" for us
    using that by (induction us) (auto simp: good_weight_def float_ops fadd_def)
  from fadd_good[of "tw_Weight t" a] Cons.prems consider
    "Fin a + tw_Weight t = Inf False"
    | s where "Fin a + tw_Weight t = Fin s" "a \<le> s" "fval (tw_Weight t) \<le> s" "valid64 (Fin s)"
    by auto
  then show ?case
  proof cases
    case 1
    then show ?thesis using inf[of ts] Cons.prems(1) by simp
  next
    case 2
    then show ?thesis using Cons.IH[of s] Cons.prems by fastforce
  qed
qed simp

lemma eps6_pos: "\<exists>c. eps6 = Fin c \<and> 1 / 2 ^ 20 \<le> c"
proof -
  have g: "on_grid 53 (-1074) (1 / 2 ^ 20)" using on_grid_dyadic[of 1 53 "-1074" 20] by simp
  have "1 / 2 ^ 20 \<le> round_bin 53 (-1074) (1 / 1000000)"
    using round_bin_mono[of "1 / 2 ^ 20" "1 / 1000000" 53 "-1074"] round_bin_on_grid[OF g] by simp
  moreover obtain r where "mk64 False (1 / 1000000) = Fin r"
    using mk64_bounded[of "1 / 1000000" 1] by auto
  ultimately show ?thesis by (auto simp: flit_def fmake_def Let_def split: if_splits)
qed


text \<open>One share, when the weight is at most the sum of all.\<close>

lemma tiny_le: "(2::rat) powi -1074 * 2 powi 1024 \<le> 1" "(2::rat) powi -1074 \<le> 1"
proof -
  have "(2::rat) powi -1074 * 2 powi 1024 = 2 powi (-1074 + 1024)"
    by (rule power_int_add[symmetric]) simp
  also have "\<dots> \<le> 2 powi 0" by (rule iffD2[OF powi2_le_iff]) simp
  finally show "(2::rat) powi -1074 * 2 powi 1024 \<le> 1" by (simp only: power_int_0_right)
  show "(2::rat) powi -1074 \<le> 1" using powi2_le_iff[of "-1074" 0] by (simp only: power_int_0_right)
qed

lemma good_weightD: "good_weight w \<Longrightarrow> \<exists>x. w = Fin x \<and> 0 < x \<and> x < 2 powi 1024"
proof -
  assume "good_weight w"
  then obtain x where x: "w = Fin x" "0 < x" and v: "valid64 (Fin x)" by (auto simp only: good_weight_def)
  from v have "\<bar>x\<bar> < 2 powi 1024" unfolding valid64_def float64.case by (rule conjunct2)
  with x(2) have "x < 2 powi 1024" by (simp only: abs_of_pos)
  with x show ?thesis by blast
qed

lemma share_fin:
  assumes w: "0 < w" "w \<le> s" "w < 2 powi 1024" and s: "1 / 2 ^ 20 \<le> s" and R: "0 < R" "R < 2 ^ 58"
  shows "0 \<le> int_of_float (Fin w * (float_of_int R / Fin s) + Fin (1 / 2))"
proof -
  obtain n where n: "R = int n" "0 < n" "n < 2 ^ 58" using R by (cases R) auto
  have nr: "(of_nat n :: rat) < 2 ^ 58" using n(3) by (metis of_nat_less_iff of_nat_numeral of_nat_power)
  have n1: "1 \<le> (of_nat n :: rat)" using n(2) by simp
  obtain r where r: "float_of_int R = Fin r" "0 \<le> r" "r \<le> 2 * of_nat n"
    using mk64_bounded[of "of_nat n" n] n n1 tiny_le(2) by (auto simp: float_of_int_def max_def split: if_splits)
  have s0: "0 < s" using s by (rule less_le_trans[rotated]) simp
  have "r / s \<le> r * 2 ^ 20" using s r(2) s0 by (simp add: divide_le_eq mult_left_mono[of 1 "s * 2 ^ 20" r, simplified] field_simps)
  then have rs: "r / s \<le> of_nat (n * 2 ^ 21)" using r(3) by simp
  obtain u where u: "float_of_int R / Fin s = Fin u" "0 \<le> u" "u \<le> max (2 * (r / s)) (2 powi -1074)"
    using mk64_bounded[of "r / s" "n * 2 ^ 21"] rs r s0 n(3) by (auto simp: float_ops fdiv_def Let_def)
  have "w * (2 * (r / s)) \<le> 2 * r"
    using w(1,2) r(2) s0 by (simp add: field_simps mult_left_mono)
  moreover have "w * 2 powi -1074 \<le> 1"
    using w(1,3) tiny_le(1) mult_right_mono[of w "2 powi 1024" "2 powi -1074"] by (simp add: mult.commute)
  moreover have "w * u \<le> w * max (2 * (r / s)) (2 powi -1074)"
    using u(3) w(1) by (intro mult_left_mono) auto
  ultimately have wu: "w * u \<le> 4 * of_nat n"
    using r(3) n1 by (auto simp: max_def split: if_splits)
  obtain p where p: "Fin w * (float_of_int R / Fin s) = Fin p" "0 \<le> p" "p \<le> 8 * of_nat n"
  proof -
    have "\<exists>p. mk64 False (w * u) = Fin p \<and> 0 \<le> p \<and> p \<le> max (2 * (w * u)) (2 powi -1074)"
      using wu w(1) u(2) n(3) by (intro mk64_bounded[of _ "4 * n"]) auto
    then show ?thesis
      using that wu n1 tiny_le(2) w(1) u(1,2)
      by (auto simp: float_ops fmul_def Let_def max_def split: if_splits)
  qed
  obtain q where q: "Fin p + Fin (1 / 2) = Fin q" "0 \<le> q" "q \<le> 16 * of_nat n + 1"
  proof -
    have "\<exists>q. mk64 False (p + 1 / 2) = Fin q \<and> 0 \<le> q \<and> q \<le> max (2 * (p + 1 / 2)) (2 powi -1074)"
      using p(2,3) n1 n(3) by (intro mk64_bounded[of _ "9 * n"]) auto
    then show ?thesis
      using that p(2,3) n1 tiny_le(2) by (auto simp: float_ops fadd_def max_def split: if_splits)
  qed
  have "q < of_int (2 ^ 63)" using q(3) nr by simp
  then have "\<lfloor>q\<rfloor> < 2 ^ 63" by (simp add: floor_less_iff)
  then show ?thesis using q by (simp add: p(1) int_of_float_def Let_def)
qed

lemma share_inf:
  assumes "0 < w" "0 < R" "R < 2 ^ 58"
  shows "0 \<le> int_of_float (Fin w * (float_of_int R / Inf False) + Fin (1 / 2))"
proof -
  obtain n where n: "R = int n" "n < 2 ^ 58" using assms by (cases R) auto
  have "is_finite (float_of_int R) \<and> \<not> fneg_sign (float_of_int R)"
    using mk64_bounded[of "of_nat n" n] n by (auto simp: float_of_int_def)
  moreover have "float_of_int R \<noteq> NaN" by (simp add: float_of_int_def)
  moreover have "mk64 False (1 / 2) = Fin (1 / 2)" using mk64_dyadic[of 1 1 "1 / 2" False] by simp
  moreover have "mk64 False 0 = Fin 0" by (simp add: fmake_def)
  ultimately show ?thesis
    using assms(1) by (simp add: float_ops fdiv_def fmul_def fadd_def Let_def int_of_float_def)
qed

lemma allocate_loop_bounds:
  assumes "\<forall>t\<in>set ts. 0 \<le> int_of_float (tw_Weight t * unit + Fin (1 / 2))"
    and "0 \<le> remain" "remain < 2 ^ 63"
  shows "length (allocate_loop unit remain ts) = length ts \<and>
    (\<forall>n\<in>set (allocate_loop unit remain ts). 0 \<le> n \<and> n \<le> 50) \<and>
    sum_list (allocate_loop unit remain ts) \<le> remain"
  using assms
proof (induction ts arbitrary: remain)
  case (Cons t ts)
  let ?n0 = "int_of_float (tw_Weight t * unit + Fin (1 / 2))"
  let ?n = "if remain < (if 50 < ?n0 then 50 else ?n0) then remain else if 50 < ?n0 then 50 else ?n0"
  have n: "0 \<le> ?n" "?n \<le> 50" "?n \<le> remain" using Cons.prems by auto
  then have w: "wrap64 (remain - ?n) = remain - ?n" using Cons.prems(3) by (intro wrap64_id) auto
  show ?case
    using Cons.IH[of "remain - ?n"] Cons.prems n w by (simp add: Let_def)
qed simp

lemma AllocateTagRecallCounts_good:
  assumes "\<forall>t\<in>set tags. good_weight (tw_Weight t)" "recallNum < 2 ^ 58"
    and "AllocateTagRecallCounts tags recallNum = (tagIDs, perTag)"
  shows "length tagIDs = length perTag \<and> (\<forall>n\<in>set perTag. 0 \<le> n \<and> n \<le> 50) \<and>
    sum_list perTag \<le> max 0 recallNum \<and> set tagIDs \<subseteq> tw_Tag ` set tags"
proof (cases "tagIDs = [] \<and> perTag = []")
  case False
  let ?s = "fold (\<lambda>t s. s + tw_Weight t) tags 0"
  have R: "0 < recallNum" and eps: "\<not> ?s < eps6" and ids: "tagIDs = map tw_Tag tags"
    and per: "perTag = allocate_loop (float_of_int recallNum / ?s) recallNum tags"
    using False assms(3) by (auto simp: AllocateTagRecallCounts_def Let_def split: if_splits)
  have "0 \<le> int_of_float (tw_Weight t * (float_of_int recallNum / ?s) + Fin (1 / 2))" if t: "t \<in> set tags" for t
  proof -
    obtain w where w: "tw_Weight t = Fin w" "0 < w" "w < 2 powi 1024"
      using good_weightD[of "tw_Weight t"] assms(1) t by blast
    have "0 = Fin (0::rat)" "valid64 (Fin 0)" using on_grid_nums(1)[of 53 "-1074"]
      by (simp_all add: float_ops valid64_def)
    then consider "?s = Inf False" | s where "?s = Fin s" "0 \<le> s" "w \<le> s"
      using sum_good[OF assms(1), of 0] t w(1) by force
    then show ?thesis
    proof cases
      case 1
      then show ?thesis using share_inf[OF w(2) R assms(2)] w(1) by simp
    next
      case 2
      obtain c where "eps6 = Fin c" "1 / 2 ^ 20 \<le> c" using eps6_pos by blast
      then have "1 / 2 ^ 20 \<le> s" using eps 2(1) by (simp add: float_ops)
      then show ?thesis using share_fin[OF w(2) 2(3) w(3) _ R assms(2)] 2(1) w(1) by simp
    qed
  qed
  then show ?thesis
    using allocate_loop_bounds[of tags "float_of_int recallNum / ?s" recallNum] R assms(2) ids per by auto
qed simp


section \<open>Parsed interests are good weights\<close>

lemma dec_TagWeight_inv: "dec_inv (\<lambda>t. finite64 (tw_Weight t)) dec_TagWeight"
  unfolding dec_TagWeight_def
  by (rule dec_inv_struct) (auto intro!: dec_inv_field dec_invD[OF dec_float_finite])

lemma finite64_0: "finite64 0"
  using on_grid_nums(1)[of 53 "-1074"] by (simp add: finite64_def float_ops valid64_def)

lemma good_weightI:
  assumes "finite64 w" "eps6 < w"
  shows "good_weight w"
proof -
  obtain c where c: "eps6 = Fin c" "1 / 2 ^ 20 \<le> c" using eps6_pos by blast
  have "0 < c" using c(2) by (rule less_le_trans[rotated]) simp
  with assms c(1) show ?thesis
    by (cases w) (auto simp: good_weight_def finite64_def float_ops)
qed

context go_runtime
begin

lemma filterPositive_good:
  assumes "list_all (\<lambda>t. finite64 (tw_Weight t)) ts" "t \<in> set (filterPositiveTagWeights env ts)"
  shows "good_weight (tw_Weight t) \<and> 0 \<le> tw_Tag t"
  using assms slice_sort.sort_set[OF sort_weights]
  by (auto simp: filterPositiveTagWeights_def list_all_iff intro: good_weightI)

lemma ParseTagInterest_good:
  assumes "t \<in> set (ParseTagInterestJSON env raw miss)"
  shows "good_weight (tw_Weight t) \<and> 0 \<le> tw_Tag t"
proof -
  let ?P = "\<lambda>t. finite64 (tw_Weight t)"
  let ?u = "unmarshal (dec_slice \<lparr>tw_Tag = 0, tw_Weight = 0\<rparr> dec_TagWeight) [] raw"
  have l: "list_all ?P (fst ?u)"
    by (rule unmarshal_inv[OF dec_inv_slice[OF dec_TagWeight_inv]]) (simp_all add: finite64_0)
  have m: "list_all (\<lambda>kv. finite64 (snd kv)) flat"
    if "unmarshal_ok (dec_map 0 dec_float) [] raw = Some flat" for flat
    by (rule unmarshal_ok_inv[OF dec_inv_map[OF dec_float_finite] _ that]) (simp_all add: finite64_0)
  have f: "list_all ?P (List.map_filter
     (\<lambda>(k, w). case ParseInt k of Some t \<Rightarrow> if 0 \<le> t \<and> eps6 < w then Some \<lparr>tw_Tag = t, tw_Weight = w\<rparr> else None
        | None \<Rightarrow> None) (ge_ord_float env flat))"
    if "list_all (\<lambda>kv. finite64 (snd kv)) flat" for flat
    using that by (force simp: list_all_iff set_map_filter split: option.splits if_splits)
  have ne: "\<not> (miss \<or> raw = [])" using assms by (auto simp: ParseTagInterestJSON_def)
  show ?thesis
  proof (cases "snd ?u \<and> fst ?u \<noteq> []")
    case True
    with ne have "ParseTagInterestJSON env raw miss = filterPositiveTagWeights env (fst ?u)"
      by (simp add: ParseTagInterestJSON_def case_prod_beta)
    then show ?thesis using assms filterPositive_good[OF l] by simp
  next
    case False
    show ?thesis
    proof (cases "unmarshal_ok (dec_map 0 dec_float) [] raw")
      case None
      have "t \<in> set []"
        using assms
        unfolding ParseTagInterestJSON_def case_prod_beta if_not_P[OF ne] if_not_P[OF False] None by simp
      then show ?thesis by simp
    next
      case (Some flat)
      have "t \<in> set (filterPositiveTagWeights env (fst ?u @ List.map_filter
         (\<lambda>(k, w). case ParseInt k of
            Some t \<Rightarrow> if 0 \<le> t \<and> eps6 < w then Some \<lparr>tw_Tag = t, tw_Weight = w\<rparr> else None
          | None \<Rightarrow> None) (ge_ord_float env flat)))"
        using assms
        unfolding ParseTagInterestJSON_def case_prod_beta if_not_P[OF ne] if_not_P[OF False] Some by simp
      from filterPositive_good[OF _ this] show ?thesis using l f[OF m[OF Some]] by simp
    qed
  qed
qed

end

text \<open>C18: for every tag-interest document, top-K cut and budget below \<open>2^58\<close>, the split gives one count per
  tag, each between 0 and 50, which together never exceed the budget, and only to non-negative tags.\<close>

theorem AllocateTagRecallCounts_bounds:
  assumes "go_runtime env" "recallNum < 2 ^ 58"
  shows "case AllocateTagRecallCounts (TruncateTopKTags (ParseTagInterestJSON env raw miss) k) recallNum of
    (tagIDs, perTag) \<Rightarrow>
      length tagIDs = length perTag \<and> list_all (\<lambda>n. 0 \<le> n \<and> n \<le> 50) perTag \<and>
      sum_list perTag \<le> max 0 recallNum \<and> list_all (\<lambda>t. 0 \<le> t) tagIDs"
proof -
  let ?ts = "TruncateTopKTags (ParseTagInterestJSON env raw miss) k"
  obtain tagIDs perTag where a: "AllocateTagRecallCounts ?ts recallNum = (tagIDs, perTag)"
    by (cases "AllocateTagRecallCounts ?ts recallNum")
  have "set ?ts \<subseteq> set (ParseTagInterestJSON env raw miss)"
    by (simp add: TruncateTopKTags_def upto_n_set)
  then have g: "good_weight (tw_Weight t) \<and> 0 \<le> tw_Tag t" if "t \<in> set ?ts" for t
    using that go_runtime.ParseTagInterest_good[OF assms(1)] by blast
  then show ?thesis
    using AllocateTagRecallCounts_good[OF _ assms(2) a] a by (auto simp: list_all_iff)
qed

lemma AllocateTagRecallCounts_bounds_witness:
  "case AllocateTagRecallCounts (TruncateTopKTags (ParseTagInterestJSON go_env0
      (''{'' @ [CHR 0x22] @ ''3'' @ [CHR 0x22] @ '':0.5}'') False) 3) 100 of
    (tagIDs, perTag) \<Rightarrow>
      length tagIDs = length perTag \<and> list_all (\<lambda>n. 0 \<le> n \<and> n \<le> 50) perTag \<and>
      sum_list perTag \<le> max 0 100 \<and> list_all (\<lambda>t. 0 \<le> t) tagIDs"
  by (rule AllocateTagRecallCounts_bounds[OF env0.go_runtime_axioms]) simp

end
