(* ===== verification/Recall_Lanes.thy ===== *)
theory Recall_Lanes
  imports Recall_Tag Funnel_Config
begin

text \<open>
  \<open>services/recommend/internal/recall\<close>: the lane registry (\<open>registry.go\<close>) with its Redis-backed lanes
  (\<open>crosstag.go\<close>, \<open>lane_list.go\<close>, \<open>liveredirect.go\<close>), the stub lanes it falls back to, and the choice of the
  user group (\<open>usergroup.go\<close>). A \<open>(items, ok)\<close> result is an option.
\<close>

section \<open>User group\<close>

definition UserGroupDefault :: string where
  "UserGroupDefault = ''def_group''"

definition UserGroupNewUser :: string where
  "UserGroupNewUser = ''T0_NewUser''"

record userSegmentDoc =
  us_UserSegment :: string
  us_IsNewUser :: bool

definition ResolveUserGroup :: "string \<Rightarrow> bytes \<Rightarrow> string" where
  "ResolveUserGroup reqGroup userFeatJSON =
     (let g = TrimSpace reqGroup in
      if g \<noteq> [] then g
      else
        (let z = \<lparr>us_UserSegment = [], us_IsNewUser = False\<rparr>;
             doc = (if userFeatJSON \<noteq> []
                    then fst (unmarshal
                      (dec_struct
                         [(''user_segment'', field dec_string us_UserSegment us_UserSegment_update),
                          (''is_new_user'', field dec_bool us_IsNewUser us_IsNewUser_update)]) z userFeatJSON)
                    else z)
         in if us_UserSegment doc = UserGroupNewUser \<or> us_IsNewUser doc then UserGroupNewUser
            else UserGroupDefault))"

section \<open>Lanes from Redis\<close>

definition lane_items :: "string \<Rightarrow> int64 list \<Rightarrow> ItemInfo list" where
  "lane_items recallType idl = map (\<lambda>i. mk_item i recallType) idl"

definition liveRedirectFromUser :: "go_env \<Rightarrow> bytes \<Rightarrow> int \<Rightarrow> ItemInfo list option" where
  "liveRedirectFromUser env userJSON n =
     (let items = ParseLiveRedirectItems env userJSON n in if items = [] then None else Some items)"

definition cross_tag_pool :: "RecallFetcher \<Rightarrow> int list \<Rightarrow> int list \<Rightarrow> int64 list" where
  "cross_tag_pool fetch tagIDs perTag =
     concat (map (\<lambda>(tagID, n).
        case rf_TagInvertJSON fetch tagID of
          Inl _ \<Rightarrow> []
        | Inr (invRaw, invMiss) \<Rightarrow> if invMiss then [] else SamplePrefix (ParseRecallList invRaw) n)
       (zip tagIDs perTag))"

definition crossTagLane ::
  "go_env \<Rightarrow> RecallFetcher option \<Rightarrow> int64 \<Rightarrow> RecallMergeRule \<Rightarrow> ItemInfo list option" where
  "crossTagLane env fetch userID rule =
     (case fetch of
        None \<Rightarrow> None
      | Some f \<Rightarrow>
          (case rf_UserTagInterestJSON f (TagInterestWindow (rr_RecallType rule)) userID of
             Inl _ \<Rightarrow> None
           | Inr (raw, missing) \<Rightarrow>
               if missing then None
               else
                 (let tags = ParseTagInterestJSON env raw missing in
                  if tags = [] then None
                  else
                    (let tags' = TruncateTopKTags tags (rr_UseTopKIndex rule);
                         budget = RoundUpRecallBudget (rr_RecallNum rule) (rr_SampleFold rule)
                     in case AllocateTagRecallCounts tags' budget of
                          (tagIDs, perTag) \<Rightarrow>
                            if tagIDs = [] then None
                            else
                              (let pooled = DedupeItemIDsStable (cross_tag_pool f tagIDs perTag) in
                               if pooled = [] then None
                               else
                                 (let pooled' = (if 0 < rr_RecallNum rule \<and> rr_RecallNum rule < int (length pooled)
                                                 then upto_n (rr_RecallNum rule) pooled else pooled)
                                  in Some (lane_items (rr_RecallType rule) pooled')))))))"

definition laneFromRedisList ::
  "RecallFetcher option \<Rightarrow> int64 \<Rightarrow> string \<Rightarrow> int \<Rightarrow> ItemInfo list option" where
  "laneFromRedisList fetch userID recallType n =
     (case fetch of
        None \<Rightarrow> None
      | Some f \<Rightarrow>
          (case (if recallType = ''CollaborativeFiltering'' then rf_RecallCFUserJSON f userID
                 else rf_RecallLaneJSON f recallType) of
             Inl _ \<Rightarrow> None
           | Inr (raw, missing) \<Rightarrow>
               if missing \<or> raw = [] then None
               else
                 (let idl = ParseRecallList raw in
                  if idl = [] then None
                  else Some (lane_items recallType
                         (if 0 < n \<and> n < int (length idl) then upto_n n idl else idl)))))"

section \<open>Stub lanes\<close>

definition liveRedirectLane :: "int \<Rightarrow> ItemInfo list" where
  "liveRedirectLane n = lane_items ''LiveRedirect'' (upto_n n [910001, 910002, 910003])"

definition collaborativeLane :: "int \<Rightarrow> int64 \<Rightarrow> ItemInfo list" where
  "collaborativeLane n userID =
     lane_items ''CollaborativeFiltering'' (map (\<lambda>i. 910004 + int (i mod 7)) [0..<nat n])"

text \<open>The loop stops at the first id above 910010; ids grow, so it keeps a prefix.\<close>

definition fmDemoItemLane :: "string \<Rightarrow> int \<Rightarrow> int64 \<Rightarrow> ItemInfo list" where
  "fmDemoItemLane recallType n startID =
     lane_items recallType
       (takeWhile (\<lambda>i. \<not> 910010 < i) (map (\<lambda>i. wrap64 (startID + int i)) [0..<nat n]))"

definition newUserLane :: "string \<Rightarrow> int \<Rightarrow> ItemInfo list" where
  "newUserLane recallType n =
     (let base = (if recallType = ''NewUser_Hot'' then [910002, 910003, 910004]
                  else if recallType = ''NewUser_HighRetention'' then [910001, 910010]
                  else if recallType = ''HotMap'' then [910002, 910003, 910004, 910010]
                  else [910002, 910003])
      in lane_items recallType (upto_n n base))"

definition genericHotLane :: "string \<Rightarrow> int \<Rightarrow> int64 \<Rightarrow> ItemInfo list" where
  "genericHotLane recallType n userID =
     lane_items recallType (map (\<lambda>i. wrap64 (920001 + int i * 11 + go_rem userID 7)) [0..<nat n])"

definition hotLaneForGroup :: "string \<Rightarrow> int \<Rightarrow> string \<Rightarrow> ItemInfo list" where
  "hotLaneForGroup recallType n userGroup =
     (if userGroup = UserGroupNewUser then newUserLane recallType n else genericHotLane recallType n 0)"

definition laneStub :: "string \<Rightarrow> int \<Rightarrow> int64 \<Rightarrow> string \<Rightarrow> go_error + ItemInfo list" where
  "laneStub recallType n userID userGroup =
     (if recallType = ''LiveRedirect'' then Inr (liveRedirectLane n)
      else if recallType = ''CollaborativeFiltering'' then Inr (collaborativeLane n userID)
      else if recallType = ''LiveTag'' then Inr (fmDemoItemLane recallType n 910006)
      else if recallType = ''HotMap'' \<or> recallType = ''HotSearch'' then Inr (hotLaneForGroup recallType n userGroup)
      else if recallType = ''NewUser_Hot'' \<or> recallType = ''NewUser_HighRetention'' then
        (if userGroup = UserGroupNewUser then Inr (newUserLane recallType n)
         else Inr (hotLaneForGroup recallType n userGroup))
      else if recallType \<in> {''CrossTag7d'', ''CrossTag14d'', ''CrossTag30d'', ''ExtendTag'', ''RandMap''}
        then Inr (genericHotLane recallType n userID)
      else Inl (UnknownRecallType recallType))"

section \<open>The registry\<close>

record Registry =
  rg_recall :: "RecallFetcher option"

definition NewRegistry :: "RecallFetcher option \<Rightarrow> Registry" where
  "NewRegistry rec = \<lparr>rg_recall = rec\<rparr>"

definition or_else :: "'a option \<Rightarrow> 'b + 'a \<Rightarrow> 'b + 'a" where
  "or_else x y = (case x of Some v \<Rightarrow> Inr v | None \<Rightarrow> y)"

definition Lane :: "go_env \<Rightarrow> Registry \<Rightarrow> RequestContext \<Rightarrow> RecallMergeRule \<Rightarrow> go_error + ItemInfo list" where
  "Lane env reg rctx rule =
     (let n = rr_RecallNum rule; rt = rr_RecallType rule in
      if n \<le> 0 then Inr []
      else or_else (if rt = ''LiveRedirect'' then liveRedirectFromUser env (rc_UserFeat rctx) n else None)
        (or_else (if rg_recall reg \<noteq> None \<and> IsCrossTagRecallType rt
                  then crossTagLane env (rg_recall reg) (rc_UserID rctx) rule else None)
          (or_else (if rg_recall reg \<noteq> None
                    then laneFromRedisList (rg_recall reg) (rc_UserID rctx) rt n else None)
            (laneStub rt n (rc_UserID rctx) (rc_UserGroup rctx)))))"

section \<open>Properties\<close>

definition lane_ok :: "string \<Rightarrow> int \<Rightarrow> ItemInfo list \<Rightarrow> bool" where
  "lane_ok rt n items = (list_all (\<lambda>it. it_RecallType it = rt) items \<and> int (length items) \<le> n)"

lemma lane_ok_items: "int (length idl) \<le> n \<Longrightarrow> lane_ok rt n (lane_items rt idl)"
  by (simp add: lane_ok_def lane_items_def list_all_iff)

lemma live_ok: "0 < n \<Longrightarrow> liveRedirectFromUser env raw n = Some items \<Longrightarrow> lane_ok ''LiveRedirect'' n items"
  by (auto simp: liveRedirectFromUser_def ParseLiveRedirectItems_def lane_ok_def list_all_iff Let_def
      split: if_splits option.splits prod.splits)

lemma cross_ok:
  "0 < rr_RecallNum rule \<Longrightarrow> crossTagLane env f u rule = Some items \<Longrightarrow>
   lane_ok (rr_RecallType rule) (rr_RecallNum rule) items \<and> distinct (map it_ID items)"
proof -
  have "distinct (DedupeItemIDsStable xs)" for xs
    using distinct_dedup_on[of id "{}" xs] by (simp add: DedupeItemIDsStable_def)
  then show "0 < rr_RecallNum rule \<Longrightarrow> crossTagLane env f u rule = Some items \<Longrightarrow>
     lane_ok (rr_RecallType rule) (rr_RecallNum rule) items \<and> distinct (map it_ID items)"
    by (auto simp: crossTagLane_def Let_def lane_items_def upto_n_def comp_def lane_ok_def list_all_iff
        split: option.splits sum.splits prod.splits if_splits)
qed

lemma redis_list_ok: "0 < n \<Longrightarrow> laneFromRedisList f u rt n = Some items \<Longrightarrow> lane_ok rt n items"
  by (auto simp: laneFromRedisList_def Let_def intro!: lane_ok_items
      split: option.splits sum.splits prod.splits if_splits)

lemma upto_n_le: "0 < n \<Longrightarrow> int (length (upto_n n xs)) \<le> n"
  by simp

lemma new_user_ok: "0 < n \<Longrightarrow> lane_ok rt n (newUserLane rt n)"
  unfolding newUserLane_def Let_def by (intro lane_ok_items upto_n_le)

lemma hot_ok: "0 < n \<Longrightarrow> lane_ok rt n (genericHotLane rt n u)" "0 < n \<Longrightarrow> lane_ok rt n (hotLaneForGroup rt n g)"
  by (simp_all add: hotLaneForGroup_def new_user_ok genericHotLane_def lane_ok_items)

lemma fm_demo_ok: "0 < n \<Longrightarrow> lane_ok rt n (fmDemoItemLane rt n i)"
  unfolding fmDemoItemLane_def
  by (intro lane_ok_items order_trans[OF zle_int[THEN iffD2, OF length_takeWhile_le]]) simp

lemma if_Inr_elim:
  "(if c then x else y) = Inr z \<Longrightarrow> (c \<Longrightarrow> x = Inr z \<Longrightarrow> P) \<Longrightarrow> (\<not> c \<Longrightarrow> y = Inr z \<Longrightarrow> P) \<Longrightarrow> P"
  by (cases c) auto

lemma stub_ok:
  assumes "0 < n" "laneStub rt n u g = Inr items"
  shows "lane_ok rt n items"
proof -
  have "lane_ok ''LiveRedirect'' n (liveRedirectLane n)"
    "lane_ok ''CollaborativeFiltering'' n (collaborativeLane n u)"
    using assms(1) by (simp_all add: liveRedirectLane_def collaborativeLane_def lane_ok_items)
  note facts = this new_user_ok[OF assms(1)] hot_ok[OF assms(1)] fm_demo_ok[OF assms(1)]
  have inr: "Q" if "Inr x = (Inr y :: go_error + ItemInfo list)" "x = y \<Longrightarrow> Q" for x y Q
    using that by simp
  show ?thesis using assms(2) unfolding laneStub_def
    by (elim if_Inr_elim inr) (hypsubst, simp only: facts | simp)+
qed

lemma Lane_ok:
  assumes "Lane env reg rctx rule = Inr items"
  shows "lane_ok (rr_RecallType rule) (max 0 (rr_RecallNum rule)) items"
proof -
  have "0 < rr_RecallNum rule \<Longrightarrow> lane_ok (rr_RecallType rule) (rr_RecallNum rule) items"
    using assms live_ok[of "rr_RecallNum rule" env "rc_UserFeat rctx" items]
      cross_ok[of rule env "rg_recall reg" "rc_UserID rctx" items]
      redis_list_ok[of "rr_RecallNum rule" "rg_recall reg" "rc_UserID rctx" "rr_RecallType rule" items]
      stub_ok[of "rr_RecallNum rule" "rr_RecallType rule" "rc_UserID rctx" "rc_UserGroup rctx" items]
    by (auto simp: Lane_def Let_def or_else_def split: option.splits if_splits)
  with assms show ?thesis by (cases "0 < rr_RecallNum rule") (auto simp: lane_ok_def Lane_def)
qed

section \<open>The ids of a lane\<close>

text \<open>Decoded and computed ids stay in the range of \<open>int64\<close>.\<close>

definition id64 :: "int64 \<Rightarrow> bool" where
  "id64 i = (wrap64 i = i)"

lemma id64_simps [simp]: "id64 (wrap64 i)" "id64 0"
  by (simp_all add: id64_def wrap_signed_def)

lemma id64_small [simp]: "0 \<le> i \<Longrightarrow> i < 2 ^ 62 \<Longrightarrow> id64 i"
  unfolding id64_def by (rule wrap64_id) auto

lemma dec_inv_id64: "dec_inv id64 (dec_int 64)"
  using dec_int_range[of 64] by (intro dec_invI) (simp add: id64_def)

lemma dec_inv_field_of:
  assumes "dec_inv P d" "\<And>r. Q r \<Longrightarrow> P (get r)" "\<And>r v. Q r \<Longrightarrow> P v \<Longrightarrow> Q (upd (\<lambda>_. v) r)"
  shows "dec_inv Q (field d get upd)"
  using assms dec_invD[OF assms(1)] by (intro dec_invI) (simp add: field_def case_prod_beta)

lemma dec_inv_True: "dec_inv (\<lambda>_. True) d"
  by (simp add: dec_inv_def)

lemma ParseRecallList_id64: "list_all id64 (ParseRecallList raw)"
proof -
  let ?d = "dec_struct [(''item_id'', field (dec_int 64) ro_ItemID ro_ItemID_update)]"
  have "dec_inv (\<lambda>r. id64 (ro_ItemID r)) ?d"
    by (rule dec_inv_struct) (auto intro: dec_inv_field_of[OF dec_inv_id64])
  then have objs: "list_all (\<lambda>r. id64 (ro_ItemID r)) os"
    if "unmarshal_ok (dec_slice \<lparr>ro_ItemID = 0\<rparr> ?d) [] raw = Some os" for os
    using unmarshal_ok_inv[OF dec_inv_slice _ that, of "\<lambda>r. id64 (ro_ItemID r)"] by simp
  have "list_all id64 is" if "unmarshal_ok (dec_slice 0 (dec_int 64)) [] raw = Some is" for "is"
    using unmarshal_ok_inv[OF dec_inv_slice[OF dec_inv_id64] _ that] by simp
  then show ?thesis by (auto simp: ParseRecallList_def list.pred_map comp_def dest: objs split: option.split)
qed

lemma live_redirect_id64: "list_all (\<lambda>e. id64 (lr_ID e)) (lb_MapList (fst (dec_liveRedirectBlob \<lparr>lb_MapList = []\<rparr> j)))"
proof -
  have "dec_inv (\<lambda>e. id64 (lr_ID e)) dec_liveRedirectEntry"
    unfolding dec_liveRedirectEntry_def
    by (rule dec_inv_struct)
      (simp add: dec_inv_field_of[OF dec_inv_id64] dec_inv_field_of[where P = "\<lambda>_. True", OF dec_inv_True])
  then have "dec_inv (\<lambda>b. list_all (\<lambda>e. id64 (lr_ID e)) (lb_MapList b)) dec_liveRedirectBlob"
    unfolding dec_liveRedirectBlob_def
    by (intro dec_inv_struct) (auto intro!: dec_inv_field_of[OF dec_inv_slice])
  from dec_invD[OF this, of "\<lparr>lb_MapList = []\<rparr>"] show ?thesis by simp
qed

definition ids64 :: "ItemInfo list \<Rightarrow> bool" where
  "ids64 items = list_all (\<lambda>it. id64 (it_ID it)) items"

lemma ids64_lane_items [simp]: "ids64 (lane_items rt is) = list_all id64 is"
  by (simp add: ids64_def lane_items_def list.pred_map comp_def)

lemma upto_n_all: "list_all P xs \<Longrightarrow> list_all P (upto_n n xs)"
  using upto_n_set[of n xs] by (auto simp: list_all_iff)

lemma dedupe_all: "list_all P xs \<Longrightarrow> list_all P (DedupeItemIDsStable xs)"
  using keys_dedup_on[of id "{}" xs] by (simp add: DedupeItemIDsStable_def list_all_iff)

lemma cross_tag_ids64: "crossTagLane env f u rule = Some items \<Longrightarrow> ids64 items"
proof -
  have "list_all id64 (cross_tag_pool g ts ns)" for g ts ns
    using ParseRecallList_id64
    by (fastforce simp: cross_tag_pool_def SamplePrefix_def list_all_iff split: sum.splits if_splits dest!: subsetD[OF upto_n_set] in_set_takeD)
  then have "list_all id64 (DedupeItemIDsStable (cross_tag_pool g ts ns))" for g ts ns
    by (rule dedupe_all)
  then show "crossTagLane env f u rule = Some items \<Longrightarrow> ids64 items"
    by (auto simp: crossTagLane_def Let_def upto_n_all split: option.splits sum.splits prod.splits if_splits)
qed

lemma redis_list_ids64: "laneFromRedisList f u rt n = Some items \<Longrightarrow> ids64 items"
  by (auto simp: laneFromRedisList_def Let_def upto_n_all ParseRecallList_id64
      split: option.splits sum.splits prod.splits if_splits)

lemma stub_ids64:
  assumes "laneStub rt n u g = Inr items"
  shows "ids64 items"
proof -
  have "ids64 (liveRedirectLane n)"
    unfolding liveRedirectLane_def ids64_lane_items by (rule upto_n_all) simp
  moreover have "ids64 (collaborativeLane n u)"
    unfolding collaborativeLane_def ids64_lane_items by (simp add: list_all_iff)
  moreover have new: "ids64 (newUserLane rt n)"
    unfolding newUserLane_def ids64_lane_items Let_def by (rule upto_n_all) simp
  moreover have gen: "ids64 (genericHotLane rt n v)" for v
    unfolding genericHotLane_def ids64_lane_items by (simp add: list_all_iff)
  moreover have "ids64 (fmDemoItemLane rt n i)" for i
    unfolding fmDemoItemLane_def ids64_lane_items by (auto simp: list_all_iff dest!: set_takeWhileD)
  moreover have "ids64 (hotLaneForGroup rt n g)" using new gen by (simp add: hotLaneForGroup_def)
  moreover have inr: "x = y" if "Inr x = (Inr y :: go_error + ItemInfo list)" for x y using that by simp
  ultimately show ?thesis using assms unfolding laneStub_def
    by (elim if_Inr_elim) (drule inr, hypsubst, assumption | simp)+
qed

context go_runtime
begin

lemma live_ids64: "liveRedirectFromUser env raw n = Some items \<Longrightarrow> ids64 items"
proof -
  let ?kept = "\<lambda>b. ge_sort_pairs env (\<lambda>a b. snd b < snd a)
      (map (\<lambda>e. (lr_ID e, lr_Ts e)) (filter (live_redirect_valid (ge_now env)) (lb_MapList b)))"
  have "list_all (\<lambda>p. id64 (fst p)) (?kept (fst (dec_liveRedirectBlob \<lparr>lb_MapList = []\<rparr> j)))" for j
    using live_redirect_id64[of j] by (auto simp: list_all_iff slice_sort.sort_set[OF sort_pairs])
  from this[THEN upto_n_all] this
  have "ids64 (ParseLiveRedirectItems env raw n)"
    by (auto simp: ParseLiveRedirectItems_def ids64_def list.pred_map comp_def case_prod_beta Let_def
        split: option.splits)
  then show "liveRedirectFromUser env raw n = Some items \<Longrightarrow> ids64 items"
    by (auto simp: liveRedirectFromUser_def Let_def split: if_splits)
qed

lemma Lane_ids64: "Lane env reg rctx rule = Inr items \<Longrightarrow> ids64 items"
  using live_ids64 cross_tag_ids64 redis_list_ids64 stub_ids64
  by (fastforce simp: Lane_def Let_def or_else_def ids64_def split: option.splits if_splits)

end

section \<open>What a lane answers\<close>

text \<open>C19: a lane answers with at most \<open>RecallNum\<close> items, all marked with the rule's recall type, whichever
  of the user document, the tag index, the Redis list or the stub serves it; it fails only for a
  recall type the registry does not know, and then only when Redis has no list for it.\<close>

theorem Lane_result:
  "case Lane env reg rctx rule of
     Inr items \<Rightarrow>
       list_all (\<lambda>it. it_RecallType it = rr_RecallType rule) items \<and>
       int (length items) \<le> max 0 (rr_RecallNum rule)
   | Inl e \<Rightarrow>
       e = UnknownRecallType (rr_RecallType rule) \<and>
       rr_RecallType rule \<notin> {''LiveRedirect'', ''CollaborativeFiltering'', ''LiveTag'', ''HotMap'', ''HotSearch'',
         ''NewUser_Hot'', ''NewUser_HighRetention'', ''CrossTag7d'', ''CrossTag14d'', ''CrossTag30d'', ''ExtendTag'', ''RandMap''} \<and>
       Option.bind (rg_recall reg) (\<lambda>f. laneFromRedisList (Some f) (rc_UserID rctx) (rr_RecallType rule) (rr_RecallNum rule)) = None"
proof (cases "Lane env reg rctx rule")
  case (Inr items)
  then show ?thesis using Lane_ok[OF Inr] by (simp add: lane_ok_def)
next
  case (Inl e)
  then show ?thesis
    by (auto simp: Lane_def Let_def or_else_def laneStub_def split: option.splits if_splits)
qed

text \<open>A cross-tag lane never repeats an item, however the tag lists overlap.\<close>

theorem crossTagLane_distinct:
  "case crossTagLane env f u rule of None \<Rightarrow> True | Some items \<Rightarrow> distinct (map it_ID items)"
proof -
  have d: "distinct (DedupeItemIDsStable xs)" for xs
    using distinct_dedup_on[of id "{}" xs] by (simp add: DedupeItemIDsStable_def)
  show ?thesis
    by (auto simp: d crossTagLane_def Let_def lane_items_def upto_n_def comp_def
        split: option.splits sum.splits prod.splits if_splits)
qed

text \<open>The request's group, trimmed, wins over the user document; without one the group is one of the two
  built-in ones, so the group a request resolves to is never empty.\<close>

theorem ResolveUserGroup_cases:
  "(if TrimSpace reqGroup \<noteq> [] then ResolveUserGroup reqGroup raw = TrimSpace reqGroup
    else ResolveUserGroup reqGroup raw \<in> {UserGroupDefault, UserGroupNewUser})
   \<and> ResolveUserGroup reqGroup raw \<noteq> []"
  by (auto simp: ResolveUserGroup_def Let_def UserGroupDefault_def UserGroupNewUser_def)

end
