(* ===== verification/Upstream.thy ===== *)
theory Upstream
  imports Go_Text "HOL-Library.Multiset" "HOL-Library.Word"
begin

text \<open>
  \<open>pkg/upstream\<close>: endpoint configuration (\<open>config.go\<close>), the round-robin and random balancers
  (\<open>balancer.go\<close>) and the POST loop with failover (\<open>httpcall.go\<close>). The network is a function from the
  number of the request, its URL and its body to an outcome; the random source is a stream of draws.
\<close>

section \<open>Endpoints (\<open>config.go\<close>)\<close>

record EndpointsConfig =
  ep_BaseURL :: string
  ep_Endpoints :: "string list"
  ep_LoadBalance :: string

definition normalize_url :: "string \<Rightarrow> string" where
  "normalize_url u = trim_right (\<lambda>c. c = CHR ''/'') (TrimSpace u)"

definition Resolve :: "EndpointsConfig \<Rightarrow> string list" where
  "Resolve c =
     (let out = filter (\<lambda>u. u \<noteq> []) (map normalize_url (ep_Endpoints c)) in
      if ep_Endpoints c \<noteq> [] \<and> out \<noteq> [] then out
      else if ep_BaseURL c \<noteq> [] \<and> normalize_url (ep_BaseURL c) \<noteq> [] then [normalize_url (ep_BaseURL c)]
      else [])"

section \<open>Balancers (\<open>balancer.go\<close>)\<close>

text \<open>The counter is a \<open>uint64\<close> that wraps; \<open>rp_draws\<close> counts the draws from the random stream.\<close>

datatype Balancer =
    roundRobin (rr_urls: "string list") (rr_i: "64 word")
  | randomPick (rp_urls: "string list") (rp_draws: nat)

definition Intn :: "(nat \<Rightarrow> nat) \<Rightarrow> nat \<Rightarrow> nat \<Rightarrow> nat" where
  "Intn rng k n = rng k mod n"

fun Next :: "(nat \<Rightarrow> nat) \<Rightarrow> Balancer \<Rightarrow> string \<times> Balancer" where
  "Next rng (roundRobin urls i) =
     (if urls = [] then ([], roundRobin urls i)
      else (let n = i + 1 in (urls ! (unat (n - 1) mod length urls), roundRobin urls n)))"
| "Next rng (randomPick urls k) =
     (if urls = [] then ([], randomPick urls k)
      else (urls ! Intn rng k (length urls), randomPick urls (Suc k)))"

fun All :: "Balancer \<Rightarrow> string list" where
  "All (roundRobin urls i) = urls"
| "All (randomPick urls k) = urls"

definition lower :: "char \<Rightarrow> char" where
  "lower c = (let n = of_char c :: nat in if 65 \<le> n \<and> n \<le> 90 then char_of (n + 32) else c)"

definition NewBalancer :: "string list \<Rightarrow> string \<Rightarrow> Balancer option" where
  "NewBalancer urls policy =
     (if urls = [] then None
      else if length urls = 1 then Some (roundRobin urls 0)
      else if TrimSpace (map lower policy) = ''random'' then Some (randomPick urls 0)
      else Some (roundRobin urls 0))"

text \<open>The next \<open>n\<close> picks of a balancer, and what a caller may rely on: picks come from a list of endpoints that never changes.\<close>

fun picks :: "('b \<Rightarrow> string \<times> 'b) \<Rightarrow> nat \<Rightarrow> 'b \<Rightarrow> string list" where
  "picks nxt 0 b = []"
| "picks nxt (Suc n) b = fst (nxt b) # picks nxt n (snd (nxt b))"

lemma length_picks [simp]: "length (picks nxt n b) = n"
  by (induction n arbitrary: b) auto

locale balancer =
  fixes nxt :: "'b \<Rightarrow> string \<times> 'b" and eps :: "'b \<Rightarrow> string list"
  assumes next_eps: "eps (snd (nxt b)) = eps b"
    and next_in: "eps b \<noteq> [] \<Longrightarrow> fst (nxt b) \<in> set (eps b)"
    and next_none: "eps b = [] \<Longrightarrow> fst (nxt b) = []"
begin

lemma picks_in: "eps b \<noteq> [] \<Longrightarrow> set (picks nxt n b) \<subseteq> set (eps b)"
proof (induction n arbitrary: b)
  case (Suc n)
  then show ?case using Suc.IH[of "snd (nxt b)"] next_in[of b] by (simp add: next_eps)
qed simp

end

interpretation lb: balancer "Next rng" All for rng
proof
  fix b
  show "All (snd (Next rng b)) = All b" by (cases b) (simp_all add: Let_def)
  show "All b \<noteq> [] \<Longrightarrow> fst (Next rng b) \<in> set (All b)" by (cases b) (simp_all add: Let_def Intn_def)
  show "All b = [] \<Longrightarrow> fst (Next rng b) = []" by (cases b) simp_all
qed

section \<open>POST with failover (\<open>httpcall.go\<close>)\<close>

datatype http_outcome =
    NoReply go_error
  | Reply int bytes

record HTTPDoer =
  hd_Balancer :: "Balancer option"
  hd_MaxAttempts :: int

definition NewHTTPDoer :: "EndpointsConfig \<Rightarrow> go_error + HTTPDoer" where
  "NewHTTPDoer cfg =
     (let urls = Resolve cfg in
      if urls = [] then Inl NoEndpoints
      else Inr \<lparr>hd_Balancer = NewBalancer urls (ep_LoadBalance cfg), hd_MaxAttempts = int (length urls)\<rparr>)"

text \<open>
  The state of the loop: the balancer, the URLs contacted so far (the request number is their
  count), the bases tried, the last error and status code.
\<close>

record post_state =
  ps_bal :: Balancer
  ps_sent :: "string list"
  ps_tried :: "string set"
  ps_err :: "go_error option"
  ps_code :: int

datatype post_end = Answered int bytes | Rejected int bytes | Exhausted

fun post_loop ::
  "(nat \<Rightarrow> nat) \<Rightarrow> (nat \<Rightarrow> string \<Rightarrow> bytes \<Rightarrow> http_outcome) \<Rightarrow> string \<Rightarrow> (nat \<Rightarrow> bytes) \<Rightarrow>
   nat \<Rightarrow> nat \<Rightarrow> post_state \<Rightarrow> post_end \<times> post_state" where
  "post_loop rng net path body a 0 s = (Exhausted, s)"
| "post_loop rng net path body a (Suc left) s =
     (case Next rng (ps_bal s) of
        (base, b) \<Rightarrow>
          let s1 = s\<lparr>ps_bal := b\<rparr> in
          if base = [] then (Exhausted, s1)
          else if base \<in> ps_tried s \<and> length (All b) \<le> card (ps_tried s) then (Exhausted, s1)
          else
            (let url = base @ path;
                 s2 = s1\<lparr>ps_tried := insert base (ps_tried s), ps_sent := ps_sent s @ [url]\<rparr>
             in case net (length (ps_sent s)) url (body a) of
                  NoReply err \<Rightarrow> post_loop rng net path body (Suc a) left (s2\<lparr>ps_err := Some err\<rparr>)
                | Reply code b' \<Rightarrow>
                    let s3 = s2\<lparr>ps_code := code\<rparr> in
                    if 500 \<le> code
                    then post_loop rng net path body (Suc a) left (s3\<lparr>ps_err := Some (UpstreamHTTP code b')\<rparr>)
                    else if code \<noteq> 200 then (Rejected code b', s3)
                    else (Answered code b', s3)))"

definition post_init :: "Balancer \<Rightarrow> string list \<Rightarrow> post_state" where
  "post_init b sent = \<lparr>ps_bal = b, ps_sent = sent, ps_tried = {}, ps_err = None, ps_code = 0\<rparr>"

definition post_error :: "post_state \<Rightarrow> go_error" where
  "post_error s = (case ps_err s of Some e \<Rightarrow> e | None \<Rightarrow> AllEndpointsFailed)"

text \<open>
  \<open>Post\<close> reads its body from a one-shot reader: \<open>body a\<close> is what attempt \<open>a\<close> finds in it. \<open>PostBytes\<close>
  replays the same bytes. Both return the state, with the balancer to keep for the next call.
\<close>

definition Post ::
  "(nat \<Rightarrow> nat) \<Rightarrow> (nat \<Rightarrow> string \<Rightarrow> bytes \<Rightarrow> http_outcome) \<Rightarrow> HTTPDoer option \<Rightarrow> string \<Rightarrow> (nat \<Rightarrow> bytes) \<Rightarrow>
   string list \<Rightarrow> (bytes \<times> int \<times> go_error option) \<times> post_state option" where
  "Post rng net doer path body sent =
     (case Option.bind doer hd_Balancer of
        None \<Rightarrow> (([], 0, Some NilDoer), None)
      | Some b \<Rightarrow>
          let m = hd_MaxAttempts (the doer);
              m1 = (if m \<le> 0 then int (length (All b)) else m);
              attempts = (if m1 \<le> 0 then 1 else m1)
          in case post_loop rng net path body 0 (nat attempts) (post_init b sent) of
               (Answered code r, s) \<Rightarrow> ((r, code, None), Some s)
             | (Rejected code r, s) \<Rightarrow> ((r, code, Some (UpstreamHTTP code r)), Some s)
             | (Exhausted, s) \<Rightarrow> (([], ps_code s, Some (post_error s)), Some s))"

definition PostBytes ::
  "(nat \<Rightarrow> nat) \<Rightarrow> (nat \<Rightarrow> string \<Rightarrow> bytes \<Rightarrow> http_outcome) \<Rightarrow> HTTPDoer \<Rightarrow> string \<Rightarrow> bytes \<Rightarrow>
   string list \<Rightarrow> (go_error + bytes) \<times> post_state option" where
  "PostBytes rng net doer path raw sent =
     (case hd_Balancer doer of
        None \<Rightarrow> (Inl NilPanic, None)
      | Some b \<Rightarrow>
          let m = hd_MaxAttempts doer;
              attempts = (if m \<le> 0 then int (length (All b)) else m)
          in case post_loop rng net path (\<lambda>_. raw) 0 (nat attempts) (post_init b sent) of
               (Answered code r, s) \<Rightarrow> (Inr r, Some s)
             | (Rejected code r, s) \<Rightarrow> (Inl (UpstreamHTTP code r), Some s)
             | (Exhausted, s) \<Rightarrow> (Inl (post_error s), Some s))"


section \<open>What the loop does\<close>

definition retryable :: "http_outcome \<Rightarrow> bool" where
  "retryable r = (case r of NoReply _ \<Rightarrow> True | Reply c _ \<Rightarrow> 500 \<le> c)"

definition outcome_error :: "http_outcome \<Rightarrow> go_error" where
  "outcome_error r = (case r of NoReply e \<Rightarrow> e | Reply c b \<Rightarrow> UpstreamHTTP c b)"

text \<open>The outcomes of contacting a list of bases one after the other.\<close>

fun outcomes ::
  "(nat \<Rightarrow> string \<Rightarrow> bytes \<Rightarrow> http_outcome) \<Rightarrow> string \<Rightarrow> (nat \<Rightarrow> bytes) \<Rightarrow> nat \<Rightarrow> nat \<Rightarrow> string list \<Rightarrow> http_outcome list" where
  "outcomes net path body n a [] = []"
| "outcomes net path body n a (base # bs) =
     net n (base @ path) (body a) # outcomes net path body (Suc n) (Suc a) bs"

text \<open>The first outcome that is not retried decides; without one the last error does.\<close>

definition final_end :: "http_outcome list \<Rightarrow> post_end" where
  "final_end outs =
     (case find (\<lambda>r. \<not> retryable r) outs of
        Some (Reply c r) \<Rightarrow> if c = 200 then Answered c r else Rejected c r
      | _ \<Rightarrow> Exhausted)"

definition final_error :: "go_error option \<Rightarrow> http_outcome list \<Rightarrow> go_error option" where
  "final_error err outs = (if outs = [] then err else Some (outcome_error (last outs)))"

lemma final_end_simps [simp]:
  "final_end [] = Exhausted"
  "final_end (NoReply e # outs) = final_end outs"
  "final_end (Reply c r # outs) =
     (if 500 \<le> c then final_end outs else if c = 200 then Answered c r else Rejected c r)"
  by (simp_all add: final_end_def retryable_def)

lemma final_error_Cons [simp]:
  "final_error err (r # outs) = final_error (Some (outcome_error r)) outs"
  by (simp add: final_error_def)

definition state_outcomes ::
  "(nat \<Rightarrow> nat) \<Rightarrow> (nat \<Rightarrow> string \<Rightarrow> bytes \<Rightarrow> http_outcome) \<Rightarrow> string \<Rightarrow> (nat \<Rightarrow> bytes) \<Rightarrow> post_state \<Rightarrow> nat \<Rightarrow> nat \<Rightarrow>
   http_outcome list" where
  "state_outcomes rng net path body s a left =
     outcomes net path body (length (ps_sent s)) a (picks (Next rng) left (ps_bal s))"

text \<open>
  As long as fewer bases were tried than there are endpoints, the loop never stops early: it
  contacts the balancer's picks in order up to the first final answer.
\<close>

lemma post_loop_outcomes:
  assumes "[] \<notin> set (All (ps_bal s))" "All (ps_bal s) \<noteq> []" "finite (ps_tried s)"
    and "card (ps_tried s) + left \<le> length (All (ps_bal s))"
  shows "fst (post_loop rng net path body a left s) = final_end (state_outcomes rng net path body s a left) \<and>
    (final_end (state_outcomes rng net path body s a left) = Exhausted \<longrightarrow>
     ps_err (snd (post_loop rng net path body a left s)) = final_error (ps_err s) (state_outcomes rng net path body s a left))"
  using assms(1-4)
proof (induction left arbitrary: a s)
  case 0
  show ?case by (simp add: state_outcomes_def final_error_def)
next
  case (Suc left)
  obtain base b where nb: "Next rng (ps_bal s) = (base, b)" by (cases "Next rng (ps_bal s)")
  have all: "All b = All (ps_bal s)" and base: "base \<in> set (All (ps_bal s))"
    using lb.next_eps[of rng "ps_bal s"] lb.next_in[OF Suc.prems(2), of rng] nb by simp_all
  have ne: "base \<noteq> []" using base Suc.prems(1) by auto
  have room: "\<not> length (All b) \<le> card (ps_tried s)" using Suc.prems(4) all by simp
  have card: "card (insert base (ps_tried s)) + left \<le> length (All b)"
    using Suc.prems(3,4) all by (simp add: card_insert_if)
  let ?s = "\<lambda>err code. \<lparr>ps_bal = b, ps_sent = ps_sent s @ [base @ path], ps_tried = insert base (ps_tried s),
     ps_err = err, ps_code = code\<rparr>"
  have ih: "fst (post_loop rng net path body (Suc a) left (?s err code)) = final_end (state_outcomes rng net path body (?s err code) (Suc a) left) \<and>
    (final_end (state_outcomes rng net path body (?s err code) (Suc a) left) = Exhausted \<longrightarrow>
     ps_err (snd (post_loop rng net path body (Suc a) left (?s err code))) =
     final_error err (state_outcomes rng net path body (?s err code) (Suc a) left))" for err code
    using Suc.IH[of "?s err code" "Suc a"] Suc.prems all card by simp
  have st: "s\<lparr>ps_bal := b, ps_tried := insert base (ps_tried s), ps_sent := ps_sent s @ [base @ path],
      ps_err := err\<rparr> = ?s err (ps_code s)"
    "s\<lparr>ps_bal := b, ps_tried := insert base (ps_tried s), ps_sent := ps_sent s @ [base @ path],
      ps_code := code, ps_err := err\<rparr> = ?s err code" for err code
    by (cases s; simp)+
  have o: "state_outcomes rng net path body s a (Suc left) = net (length (ps_sent s)) (base @ path) (body a) # state_outcomes rng net path body (?s err code) (Suc a) left"
    for err code by (simp add: state_outcomes_def nb)
  show ?case
  proof (cases "net (length (ps_sent s)) (base @ path) (body a)")
    case (NoReply err)
    then show ?thesis
      using ih[of "Some err" "ps_code s"] nb ne room
      by (simp add: Let_def st o[of "Some err" "ps_code s"] outcome_error_def)
  next
    case (Reply c r)
    then show ?thesis
      using ih[of "Some (UpstreamHTTP c r)" c] nb ne room
      by (simp add: Let_def st o[of "Some (UpstreamHTTP c r)" c] outcome_error_def)
  qed
qed


text \<open>A doer in use: built from the configuration, its balancer moved on by earlier calls.\<close>

definition doer_ok :: "EndpointsConfig \<Rightarrow> HTTPDoer \<Rightarrow> bool" where
  "doer_ok cfg doer =
     (Resolve cfg \<noteq> [] \<and> hd_MaxAttempts doer = int (length (Resolve cfg)) \<and>
      (case hd_Balancer doer of None \<Rightarrow> False | Some b \<Rightarrow> All b = Resolve cfg))"

lemma trim_right_last: "trim_right P s \<noteq> [] \<Longrightarrow> \<not> P (last (trim_right P s))"
  by (metis dropWhile_eq_Nil_conv hd_dropWhile last_rev rev_is_Nil_conv set_rev dropWhile_eq_Nil_conv trim_right_def)

lemma Resolve_normal: "u \<in> set (Resolve cfg) \<Longrightarrow> u \<noteq> [] \<and> last u \<noteq> CHR ''/''"
  using trim_right_last[of "\<lambda>c. c = CHR ''/''"]
  by (auto simp: Resolve_def Let_def normalize_url_def split: if_splits)

lemma NewHTTPDoer_ok: "NewHTTPDoer cfg = Inr doer \<Longrightarrow> doer_ok cfg doer"
  by (auto simp: NewHTTPDoer_def doer_ok_def NewBalancer_def Let_def split: if_splits)

lemma post_loop_all: "All (ps_bal (snd (post_loop rng net path body a left s))) = All (ps_bal s)"
proof (induction left arbitrary: a s)
  case (Suc left)
  have "All (snd (Next rng (ps_bal s))) = All (ps_bal s)" by (rule lb.next_eps)
  with Suc show ?case
    by (auto simp: Let_def split: prod.split http_outcome.split)
qed simp

lemma PostBytes_ok:
  assumes "doer_ok cfg doer" "snd (PostBytes rng net doer path raw sent) = Some s"
  shows "doer_ok cfg (doer\<lparr>hd_Balancer := Some (ps_bal s)\<rparr>)"
proof -
  obtain b where b: "hd_Balancer doer = Some b" "All b = Resolve cfg"
    and d: "Resolve cfg \<noteq> []" "hd_MaxAttempts doer = int (length (Resolve cfg))"
    using assms(1) by (auto simp: doer_ok_def split: option.splits)
  have "ps_bal s = ps_bal (snd (post_loop rng net path (\<lambda>_. raw) 0 (length (Resolve cfg)) (post_init b sent)))"
    using assms(2) b d by (auto simp: PostBytes_def Let_def split: prod.splits post_end.splits)
  then have "All (ps_bal s) = Resolve cfg" using b(2) by (simp add: post_loop_all post_init_def)
  with b d show ?thesis by (simp add: doer_ok_def)
qed

text \<open>The endpoints in use are trimmed, non-empty and without a trailing slash; order and duplicates of
  the configured list are kept, and the base URL matters only when the list yields nothing.\<close>

lemma Resolve_endpoints:
  "list_all (\<lambda>u. u \<noteq> [] \<and> last u \<noteq> CHR ''/'') (Resolve cfg)
   \<and> Resolve cfg =
     (case filter (\<lambda>u. u \<noteq> []) (map normalize_url (ep_Endpoints cfg)) of
        [] \<Rightarrow> filter (\<lambda>u. u \<noteq> []) [normalize_url (ep_BaseURL cfg)]
      | u # us \<Rightarrow> u # us)"
proof
  show "list_all (\<lambda>u. u \<noteq> [] \<and> last u \<noteq> CHR ''/'') (Resolve cfg)"
    using Resolve_normal by (auto simp: list_all_iff)
  have "normalize_url [] = []" by (simp add: normalize_url_def TrimSpace_def trim_right_def)
  then show "Resolve cfg =
     (case filter (\<lambda>u. u \<noteq> []) (map normalize_url (ep_Endpoints cfg)) of
        [] \<Rightarrow> filter (\<lambda>u. u \<noteq> []) [normalize_url (ep_BaseURL cfg)]
      | u # us \<Rightarrow> u # us)"
    by (auto simp: Resolve_def Let_def split: list.split)
qed

text \<open>What one call gives, as a function of the outcomes of the endpoints it would contact.\<close>

definition call_result :: "http_outcome list \<Rightarrow> go_error + bytes" where
  "call_result outs =
     (case find (\<lambda>r. \<not> retryable r) outs of
        Some r \<Rightarrow> (case r of Reply c body \<Rightarrow> if c = 200 then Inr body else Inl (UpstreamHTTP c body)
                           | NoReply e \<Rightarrow> Inl e)
      | None \<Rightarrow> Inl (outcome_error (last outs)))"

lemma PostBytes_outcomes:
  assumes "doer_ok cfg doer" "hd_Balancer doer = Some b"
  shows "\<exists>s. PostBytes rng net doer path raw sent =
    (call_result (outcomes net path (\<lambda>_. raw) (length sent) 0 (picks (Next rng) (length (Resolve cfg)) b)), Some s)"
proof -
  let ?n = "length (Resolve cfg)"
  let ?L = "post_loop rng net path (\<lambda>_. raw) 0 ?n (post_init b sent)"
  let ?outs = "outcomes net path (\<lambda>_. raw) (length sent) 0 (picks (Next rng) ?n b)"
  have d: "All b = Resolve cfg" "Resolve cfg \<noteq> []" "hd_MaxAttempts doer = int ?n"
    using assms by (auto simp: doer_ok_def)
  have ne: "[] \<notin> set (Resolve cfg)" using Resolve_normal by blast
  have L: "fst ?L = final_end ?outs \<and>
     (final_end ?outs = Exhausted \<longrightarrow> ps_err (snd ?L) = final_error None ?outs)"
    using post_loop_outcomes[of "post_init b sent" ?n rng net path "\<lambda>_. raw" 0] d ne
    by (simp add: post_init_def state_outcomes_def)
  have outs: "?outs \<noteq> []" using d(2) by (cases ?n) auto
  have P: "PostBytes rng net doer path raw sent =
     (case ?L of
        (Answered code r, s) \<Rightarrow> (Inr r, Some s)
      | (Rejected code r, s) \<Rightarrow> (Inl (UpstreamHTTP code r), Some s)
      | (Exhausted, s) \<Rightarrow> (Inl (post_error s), Some s))"
    using assms(2) d by (simp add: PostBytes_def Let_def)
  obtain e s where es: "?L = (e, s)" by (cases ?L)
  have st: "snd (PostBytes rng net doer path raw sent) = Some s"
    by (simp add: P es split: post_end.split)
  have "fst (PostBytes rng net doer path raw sent) = call_result ?outs"
    using L outs find_Some_set[of "\<lambda>r. \<not> retryable r" ?outs]
    by (cases "find (\<lambda>r. \<not> retryable r) ?outs")
      (auto simp: P es final_end_def post_error_def final_error_def retryable_def call_result_def
        split: http_outcome.splits)
  with st show ?thesis by (cases "PostBytes rng net doer path raw sent") simp
qed

text \<open>What a call returns is the body of some endpoint's 200.\<close>

lemma post_loop_reply:
  "post_loop rng net path body a left s = (Answered code r, s') \<Longrightarrow> \<exists>k url n. net k url (body n) = Reply 200 r"
proof (induction rng net path body a left s rule: post_loop.induct)
  case (2 rng net path body a left s)
  then show ?case
    by (auto simp: Let_def split: prod.splits http_outcome.splits if_splits)
qed simp

lemma PostBytes_reply:
  assumes "PostBytes rng net doer path raw sent = (Inr r, st)"
  shows "\<exists>k url. net k url raw = Reply 200 r"
proof -
  obtain b n code s where "post_loop rng net path (\<lambda>_. raw) 0 n (post_init b sent) = (Answered code r, s)"
    using assms by (auto simp: PostBytes_def Let_def split: option.splits prod.splits post_end.splits)
  from post_loop_reply[OF this] show ?thesis by blast
qed

text \<open>C21: a call asks one endpoint after the other, in the balancer's order and each time with the whole
  body, until one gives an answer that is not a failure or a 5xx; that answer decides (200 is
  returned, anything else an error), and only when every attempt fails is the last failure
  reported. The doer stays usable for the next call.\<close>

theorem PostBytes_failover:
  assumes "doer_ok cfg doer" "hd_Balancer doer = Some b"
  shows "let outs = outcomes net path (\<lambda>_. raw) (length sent) 0 (picks (Next rng) (length (Resolve cfg)) b);
             (res, st) = PostBytes rng net doer path raw sent in
    res = (case find (\<lambda>r. \<not> retryable r) outs of
             Some r \<Rightarrow> (case r of Reply c body \<Rightarrow> if c = 200 then Inr body else Inl (UpstreamHTTP c body)
                                | NoReply e \<Rightarrow> Inl e)
           | None \<Rightarrow> Inl (outcome_error (last outs)))
    \<and> (case st of None \<Rightarrow> False | Some s \<Rightarrow> doer_ok cfg (doer\<lparr>hd_Balancer := Some (ps_bal s)\<rparr>))"
proof -
  obtain s where s: "PostBytes rng net doer path raw sent =
      (call_result (outcomes net path (\<lambda>_. raw) (length sent) 0 (picks (Next rng) (length (Resolve cfg)) b)), Some s)"
    using PostBytes_outcomes[OF assms] by blast
  then show ?thesis using PostBytes_ok[OF assms(1), of rng net path raw sent s] by (simp add: call_result_def Let_def)
qed


lemma PostBytes_failover_witness:
  "let cfg = \<lparr>ep_BaseURL = [], ep_Endpoints = [''http://a/'', ''http://b''], ep_LoadBalance = ''round_robin''\<rparr>;
       net = (\<lambda>k url body. if k = 0 then Reply 503 ''busy'' else Reply 200 url) in
   fst (PostBytes (\<lambda>_. 0) net \<lparr>hd_Balancer = Some (roundRobin [''http://a'', ''http://b''] 0), hd_MaxAttempts = 2\<rparr>
          ''/x'' ''{}'' []) = Inr ''http://b/x''"
proof -
  let ?cfg = "\<lparr>ep_BaseURL = [], ep_Endpoints = [''http://a/'', ''http://b''], ep_LoadBalance = ''round_robin''\<rparr>"
  let ?d = "\<lparr>hd_Balancer = Some (roundRobin [''http://a'', ''http://b''] 0), hd_MaxAttempts = 2\<rparr>"
  let ?net = "\<lambda>k url body. if k = (0::nat) then Reply 503 ''busy'' else Reply 200 url"
  have r: "Resolve ?cfg = [''http://a'', ''http://b'']" by code_simp
  have "doer_ok ?cfg ?d" by (simp add: doer_ok_def r)
  from PostBytes_failover[OF this, of _ ?net "''/x''" "''{}''" "[]" "\<lambda>_. 0"]
  have "fst (PostBytes (\<lambda>_. 0) ?net ?d ''/x'' ''{}'' []) = Inr ''http://b/x''"
    by (simp add: r Let_def case_prod_beta numeral_2_eq_2 retryable_def)
  then show ?thesis by simp
qed

subsection \<open>Round robin is fair\<close>

lemma picks_round_robin:
  assumes "urls \<noteq> []" "unat i + n \<le> 2 ^ 64"
  shows "picks (Next rng) n (roundRobin urls i) = map (\<lambda>j. urls ! ((unat i + j) mod length urls)) [0..<n]"
  using assms
proof (induction n arbitrary: i)
  case (Suc n)
  have "picks (Next rng) n (roundRobin urls (i + 1)) = map (\<lambda>j. urls ! ((unat i + Suc j) mod length urls)) [0..<n]"
  proof (cases n)
    case (Suc m)
    then have "unat (i + 1) = unat i + 1" using Suc.prems(2) by (simp add: unat_word_ariths)
    then show ?thesis using Suc.IH[of "i + 1"] Suc.prems by simp
  qed simp
  then show ?case
    using Suc.prems(1) by (simp add: Let_def upt_conv_Cons map_Suc_upt[symmetric] del: upt_Suc)
qed simp

lemma mset_rotation:
  "xs \<noteq> [] \<Longrightarrow> mset (map (\<lambda>j. xs ! ((s + j) mod length xs)) [0..<length xs]) = mset xs"
proof -
  assume "xs \<noteq> []"
  then have "map (\<lambda>j. xs ! ((s + j) mod length xs)) [0..<length xs] = rotate s xs"
    by (intro nth_equalityI) (simp_all add: nth_rotate)
  moreover have "mset (rotate1 ys) = mset ys" for ys :: "'a list" by (cases ys) auto
  then have "mset (rotate n xs) = mset xs" for n by (induction n) simp_all
  ultimately show ?thesis by simp
qed

lemma upt_shift: "[0..<a + b] = [0..<a] @ map (\<lambda>j. a + j) [0..<b]"
  using map_add_upt[of a b] upt_add_eq_append[of 0 a b] by (simp add: add.commute)

text \<open>C22: over any number of full rounds before the counter wraps, round robin picks every configured
  endpoint equally often (an endpoint listed twice gets two shares), wherever it starts.\<close>

theorem round_robin_fair:
  assumes "urls \<noteq> []" "unat i + m * length urls \<le> 2 ^ 64"
  shows "mset (picks (Next rng) (m * length urls) (roundRobin urls i)) = mset (concat (replicate m urls))"
proof -
  have "mset (map (\<lambda>j. urls ! ((s + j) mod length urls)) [0..<m * length urls]) = mset (concat (replicate m urls))" for s
  proof (induction m arbitrary: s)
    case (Suc m)
    have "map (\<lambda>j. urls ! ((s + j) mod length urls)) [0..<Suc m * length urls] =
        map (\<lambda>j. urls ! ((s + j) mod length urls)) [0..<length urls] @
        map (\<lambda>j. urls ! ((s + length urls + j) mod length urls)) [0..<m * length urls]"
      unfolding mult_Suc upt_shift by (simp add: comp_def add.assoc)
    then show ?case using mset_rotation[OF assms(1), of s] Suc[of "s + length urls"] by (simp del: mset_map)
  qed simp
  then show ?thesis using picks_round_robin[OF assms, of rng] by (simp del: mset_map)
qed

lemma round_robin_fair_witness:
  "mset (picks (Next (\<lambda>_. 0)) (3 * length [''a'', ''b'']) (roundRobin [''a'', ''b''] 7)) =
   mset (concat (replicate 3 [''a'', ''b'']))"
  by (rule round_robin_fair) simp_all

end
