(* ===== verification/Json_Print.thy ===== *)
theory Json_Print
  imports Go_Json
begin

text \<open>
  \<open>json.Marshal\<close> of the values the sources send: strings with Go's escapes (quotes, control
  characters, HTML characters and the two Unicode line separators) and the escape of U+FFFD for bytes that are no
  UTF-8, numbers as their literal, and arrays and objects without white space.
\<close>

section \<open>Printing\<close>

definition hex_char :: "nat \<Rightarrow> char" where
  "hex_char d = char_of (if d < 10 then 48 + d else 87 + d)"

definition escape_char :: "char \<Rightarrow> string" where
  "escape_char c =
     (let n = of_char c :: nat in
      if c = CHR 0x22 \<or> c = CHR 0x5C then [CHR 0x5C, c]
      else if n = 8 then [CHR 0x5C, CHR ''b'']
      else if n = 12 then [CHR 0x5C, CHR ''f'']
      else if n = 10 then [CHR 0x5C, CHR ''n'']
      else if n = 13 then [CHR 0x5C, CHR ''r'']
      else if n = 9 then [CHR 0x5C, CHR ''t'']
      else if n < 32 \<or> c = CHR ''<'' \<or> c = CHR ''>'' \<or> c = CHR ''&''
        then [CHR 0x5C, CHR ''u'', CHR ''0'', CHR ''0'', hex_char (n div 16), hex_char (n mod 16)]
      else [c])"

definition line_separator :: "string \<Rightarrow> bool" where
  "line_separator x = (x = [CHR 0xE2, CHR 0x80, CHR 0xA8] \<or> x = [CHR 0xE2, CHR 0x80, CHR 0xA9])"

text \<open>Rune by rune, and byte by byte where there is none.\<close>

function escape_string :: "string \<Rightarrow> string" where
  "escape_string s =
     (if s = [] then []
      else if rune_len s = 0 then [CHR 0x5C, CHR ''u'', CHR ''f'', CHR ''f'', CHR ''f'', CHR ''d''] @ escape_string (tl s)
      else
        (let x = take (rune_len s) s in
         (if rune_len s = 1 then escape_char (hd s)
          else if line_separator x
          then [CHR 0x5C, CHR ''u'', CHR ''2'', CHR ''0'', CHR ''2'', if last x = CHR 0xA8 then CHR ''8'' else CHR ''9'']
          else x) @ escape_string (drop (rune_len s) s)))"
  by pat_completeness auto
termination by (relation "measure length") auto

declare escape_string.simps [simp del]

definition print_string :: "string \<Rightarrow> string" where
  "print_string s = CHR 0x22 # escape_string s @ [CHR 0x22]"

fun json_print :: "json \<Rightarrow> bytes" where
  "json_print JNull = ''null''"
| "json_print (JBool b) = (if b then ''true'' else ''false'')"
| "json_print (JNum l) = l"
| "json_print (JStr s) = print_string s"
| "json_print (JArr js) = CHR ''['' # join_with '','' (map json_print js) @ '']''"
| "json_print (JObj ms) =
     CHR ''{'' # join_with '','' (map (\<lambda>(k, j). print_string k @ '':'' @ json_print j) ms) @ ''}''"

text \<open>The number literals of a document are complete JSON numbers.\<close>

fun json_wf :: "json \<Rightarrow> bool" where
  "json_wf (JNum l) = (jnumber l = Some (l, []))"
| "json_wf (JArr js) = list_all json_wf js"
| "json_wf (JObj ms) = list_all (\<lambda>(k, j). json_wf j) ms"
| "json_wf _ = True"

text \<open>What a document is after writing and reading: its strings and keys are repaired.\<close>

fun json_repair :: "json \<Rightarrow> json" where
  "json_repair (JStr s) = JStr (repaired s)"
| "json_repair (JArr js) = JArr (map json_repair js)"
| "json_repair (JObj ms) = JObj (map (\<lambda>(k, j). (repaired k, json_repair j)) ms)"
| "json_repair j = j"

fun json_valid :: "json \<Rightarrow> bool" where
  "json_valid (JStr s) = valid_utf8 s"
| "json_valid (JArr js) = list_all json_valid js"
| "json_valid (JObj ms) = list_all (\<lambda>(k, j). valid_utf8 k \<and> json_valid j) ms"
| "json_valid _ = True"

lemma json_repair_valid: "json_valid j \<Longrightarrow> json_repair j = j"
  by (induction j rule: json_repair.induct) (auto simp: valid_utf8_def list_all_iff intro!: map_idI)

section \<open>Reading back a string\<close>

lemma hex_val_char: "d < 16 \<Longrightarrow> hex_val (hex_char d) = Some d"
proof -
  have "of_char (char_of n :: char) = n" if "n < 256" for n :: nat using that by simp
  then show "d < 16 \<Longrightarrow> hex_val (hex_char d) = Some d"
    by (auto simp: hex_val_def hex_char_def Let_def)
qed

lemma of_char_byte: "of_char c < (256::nat)"
  using nat_of_char_less_256[of c] by simp

lemma utf8_ascii: "(of_char c :: nat) < 128 \<Longrightarrow> utf8 (of_char c) = [c]"
  by (simp add: utf8_def)

lemma control_chars:
  "(of_char c = (8 :: nat)) = (c = CHR 0x08)" "(of_char c = (9 :: nat)) = (c = CHR 0x09)"
  "(of_char c = (10 :: nat)) = (c = CHR 0x0A)" "(of_char c = (12 :: nat)) = (c = CHR 0x0C)"
  "(of_char c = (13 :: nat)) = (c = CHR 0x0D)"
  using of_char_eq_iff[of c "CHR 0x08", where 'a = nat] of_char_eq_iff[of c "CHR 0x09", where 'a = nat]
    of_char_eq_iff[of c "CHR 0x0A", where 'a = nat] of_char_eq_iff[of c "CHR 0x0C", where 'a = nat]
    of_char_eq_iff[of c "CHR 0x0D", where 'a = nat]
  by simp_all

lemma jchars_escape_char:
  assumes "jchars r = Some (t, r')"
  shows "jchars (escape_char c @ r) = Some (c # t, r')"
proof -
  let ?n = "of_char c :: nat"
  show ?thesis
  proof (cases "?n < 32 \<and> ?n \<notin> {8, 9, 10, 12, 13} \<or> c = CHR ''<'' \<or> c = CHR ''>'' \<or> c = CHR ''&''")
    case True
    then have lt: "?n < 128" by auto
    have ne: "c \<noteq> CHR 0x22" "c \<noteq> CHR 0x5C" "?n \<notin> {8, 9, 10, 12, 13}" using True by auto
    have "hex4 (CHR ''0'' # CHR ''0'' # hex_char (?n div 16) # hex_char (?n mod 16) # r) = Some (?n, r)"
    proof -
      have "hex_val (CHR ''0'') = Some 0" by (simp add: hex_val_def)
      moreover have "hex_val (hex_char (?n div 16)) = Some (?n div 16)"
        "hex_val (hex_char (?n mod 16)) = Some (?n mod 16)"
        using lt by (intro hex_val_char; simp)+
      ultimately show ?thesis by (simp add: hex4_def)
    qed
    then have "jescape (CHR ''u'' # CHR ''0'' # CHR ''0'' # hex_char (?n div 16) # hex_char (?n mod 16) # r) =
        Some ([c], r)"
      using lt by (simp add: jescape_def unicode_escape_def utf8_ascii)
    moreover have "escape_char c =
        [CHR 0x5C, CHR ''u'', CHR ''0'', CHR ''0'', hex_char (?n div 16), hex_char (?n mod 16)]"
      using True ne by (auto simp: escape_char_def Let_def)
    ultimately show ?thesis using assms by (simp add: jchars.simps)
  next
    case False
    then show ?thesis
      using assms
      by (auto simp: escape_char_def Let_def jchars.simps jescape_def simple_escape_def control_chars)
  qed
qed

lemma jchars_unicode:
  assumes "jchars r = Some (t, r')" "hex4 (h1 # h2 # h3 # h4 # r) = Some (u, r)" "u < 55296"
  shows "jchars (CHR 0x5C # CHR ''u'' # h1 # h2 # h3 # h4 # r) = Some (utf8 u @ t, r')"
proof -
  have "jescape (CHR ''u'' # h1 # h2 # h3 # h4 # r) = Some (utf8 u, r)"
    using assms(2,3) by (simp add: jescape_def unicode_escape_def)
  then show ?thesis using assms(1) by (simp add: jchars.simps)
qed

lemma jchars_separator:
  assumes "jchars r = Some (t, r')" "e = CHR 0xA8 \<or> e = CHR 0xA9"
  shows "jchars ([CHR 0x5C, CHR ''u'', CHR ''2'', CHR ''0'', CHR ''2'', if e = CHR 0xA8 then CHR ''8'' else CHR ''9''] @ r) =
    Some (CHR 0xE2 # CHR 0x80 # e # t, r')"
proof -
  have h: "hex4 (CHR ''2'' # CHR ''0'' # CHR ''2'' # CHR ''8'' # r) = Some (8232, r)"
    "hex4 (CHR ''2'' # CHR ''0'' # CHR ''2'' # CHR ''9'' # r) = Some (8233, r)"
    by (simp_all add: hex4_def hex_val_def Let_def)
  have "char_of (226 :: nat) = CHR 0xE2" "char_of (128 :: nat) = CHR 0x80" "char_of (168 :: nat) = CHR 0xA8"
    "char_of (169 :: nat) = CHR 0xA9" by code_simp+
  then have u: "utf8 8232 = [CHR 0xE2, CHR 0x80, CHR 0xA8]" "utf8 8233 = [CHR 0xE2, CHR 0x80, CHR 0xA9]"
    by (simp_all add: utf8_def)
  from assms(2) show ?thesis
  proof
    assume e: "e = CHR 0xA8"
    show ?thesis using jchars_unicode[OF assms(1) h(1)] by (simp add: e u)
  next
    assume e: "e = CHR 0xA9"
    show ?thesis using jchars_unicode[OF assms(1) h(2)] by (simp add: e u)
  qed
qed

lemma jchars_replacement:
  assumes "jchars r = Some (t, r')"
  shows "jchars ([CHR 0x5C, CHR ''u'', CHR ''f'', CHR ''f'', CHR ''f'', CHR ''d''] @ r) = Some (rune_error @ t, r')"
proof -
  have h: "hex4 (CHR ''f'' # CHR ''f'' # CHR ''f'' # CHR ''d'' # r) = Some (65533, r)"
    by (simp add: hex4_def hex_val_def Let_def)
  have "char_of (239 :: nat) = CHR 0xEF" "char_of (191 :: nat) = CHR 0xBF" "char_of (189 :: nat) = CHR 0xBD" by code_simp+
  then have u: "utf8 65533 = rune_error" by (simp add: utf8_def rune_error_def)
  have "jescape (CHR ''u'' # CHR ''f'' # CHR ''f'' # CHR ''f'' # CHR ''d'' # r) = Some (rune_error, r)"
    by (simp add: jescape_def unicode_escape_def h u)
  then show ?thesis using assms by (simp add: jchars.simps)
qed

lemma jchars_bytes:
  assumes "list_all (\<lambda>c. 128 \<le> (of_char c :: nat)) x" "jchars r = Some (t, r')"
  shows "jchars (x @ r) = Some (x @ t, r')"
  using assms by (induction x) (auto simp: jchars.simps)

lemma jchars_escape: "jchars (escape_string s @ CHR 0x22 # r) = Some (repaired s, r)"
proof (induction s rule: escape_string.induct)
  case (1 s)
  let ?n = "rune_len s" and ?x = "take (rune_len s) s"
  consider "s = []" | "s \<noteq> []" "?n = 0" | "?n = 1" | "1 < ?n" by linarith
  then show ?case
  proof cases
    case 1
    then show ?thesis by (simp add: escape_string.simps jchars.simps)
  next
    case 2
    then show ?thesis
      using jchars_replacement[OF "1.IH"(1)[OF 2]] by (simp add: escape_string.simps[of s] repaired.simps[of s])
  next
    case 3
    then have s: "s \<noteq> []" "?x = [hd s]" by (auto simp: rune_len_def take_Suc_conv_app_nth) (cases s; simp add: rune_len_def)+
    then show ?thesis
      using 3 jchars_escape_char[OF "1.IH"(2)[of ?x], of "hd s"]
      by (simp add: escape_string.simps[of s] repaired.simps[of s] Let_def)
  next
    case 4
    then have s: "s \<noteq> []" by (auto simp: rune_len_def)
    note ih = "1.IH"(2)[OF s _ refl]
    show ?thesis
    proof (cases "line_separator ?x")
      case True
      then have x: "?x = [CHR 0xE2, CHR 0x80, last ?x]" "last ?x = CHR 0xA8 \<or> last ?x = CHR 0xA9"
        by (auto simp: line_separator_def)
      have "jchars ([CHR 0x5C, CHR ''u'', CHR ''2'', CHR ''0'', CHR ''2'', if last ?x = CHR 0xA8 then CHR ''8'' else CHR ''9''] @
          escape_string (drop ?n s) @ CHR 0x22 # r) = Some (?x @ repaired (drop ?n s), r)"
        using jchars_separator[OF ih x(2)] 4 x(1) by (metis append_Cons append_Nil gr_implies_not_zero not_one_less_zero)
      then show ?thesis using 4 s True by (simp add: escape_string.simps[of s] repaired.simps[of s] Let_def)
    next
      case False
      then show ?thesis
        using 4 s jchars_bytes[OF long_rune_bytes[OF 4] ih]
        by (simp add: escape_string.simps[of s] repaired.simps[of s] Let_def)
    qed
  qed
qed

section \<open>Reading back a number\<close>

definition delimited :: "string \<Rightarrow> bool" where
  "delimited r = (case r of [] \<Rightarrow> True | c # _ \<Rightarrow> c \<in> {CHR '','', CHR '']'', CHR ''}''} \<or> is_json_ws c)"

lemma delimited_simps [simp]:
  "delimited []" "delimited (CHR '','' # r)" "delimited (CHR '']'' # r)" "delimited (CHR ''}'' # r)"
  "delimited (CHR 0x0A # r)"
  by (simp_all add: delimited_def is_json_ws_def)

lemma span_digits_append:
  "delimited r \<Longrightarrow> span_digits (s @ r) = apsnd (\<lambda>x. x @ r) (span_digits s)"
proof -
  assume "delimited r"
  then have r: "takeWhile is_digit r = []" "dropWhile is_digit r = r"
    by (auto simp: delimited_def is_digit_def is_json_ws_def split: list.splits)
  show ?thesis by (induction s) (auto simp: span_digits_def r)
qed

lemma jfrac_append:
  assumes "jfrac s = Some (x, s')" "delimited r"
  shows "jfrac (s @ r) = Some (x, s' @ r)"
proof (cases s)
  case Nil
  then show ?thesis using assms by (auto simp: jfrac_def delimited_def is_json_ws_def split: list.splits)
next
  case (Cons c t)
  then show ?thesis
    using assms by (auto simp: jfrac_def span_digits_append split: prod.splits if_splits)
qed

lemma jexp_append:
  assumes "jexp s = Some (x, s')" "delimited r"
  shows "jexp (s @ r) = Some (x, s' @ r)"
proof (cases s)
  case Nil
  then show ?thesis using assms by (auto simp: jexp_def delimited_def is_json_ws_def split: list.splits)
next
  case (Cons c t)
  then have "c = CHR ''e'' \<or> c = CHR ''E'' \<Longrightarrow> t \<noteq> []"
    using assms by (auto simp: jexp_def span_digits_def)
  then show ?thesis
    using assms Cons by (cases t) (auto simp: jexp_def Let_def span_digits_append span_digits_append[of r "_ # _", simplified]
        split: prod.splits if_splits)
qed

lemma jnumber_append:
  assumes "jnumber s = Some (x, s')" "delimited r"
  shows "jnumber (s @ r) = Some (x, s' @ r)"
proof -
  define sg where "sg = (case s of x # _ \<Rightarrow> if x = CHR ''-'' then [x] else [] | [] \<Rightarrow> [])"
  define s1 where "s1 = drop (length sg) s"
  have ne: "s \<noteq> []" "s1 \<noteq> []"
    using assms(1) by (auto simp: jnumber_def sg_def s1_def Let_def split: list.splits if_splits)
  then have sg: "sg = (case s @ r of x # _ \<Rightarrow> if x = CHR ''-'' then [x] else [] | [] \<Rightarrow> [])"
    "drop (length sg) (s @ r) = s1 @ r"
    by (cases s; simp add: sg_def s1_def)+
  obtain c t where s1: "s1 = c # t" using ne by (cases s1) auto
  show ?thesis
    using assms sg[symmetric] s1
    by (auto simp: jnumber_def Let_def sg_def[symmetric] s1_def[symmetric] span_digits_append[of r "_ # _", simplified]
        jfrac_append jexp_append split: prod.splits option.splits if_splits)
qed


section \<open>Reading back a document\<close>

text \<open>The first character of a printed value decides how it is read, and is no white space.\<close>

definition starts :: "string \<Rightarrow> bool" where
  "starts s = (case s of [] \<Rightarrow> False | c # _ \<Rightarrow> \<not> is_json_ws c \<and> c \<notin> {CHR '','', CHR '':'', CHR '']'', CHR ''}''})"

lemma jnumber_start:
  assumes "jnumber l = Some (l, [])"
  shows "\<exists>c t. l = c # t \<and> (is_digit c \<or> c = CHR ''-'')"
  using assms by (auto simp: jnumber_def Let_def span_digits_def takeWhile_eq_Nil_iff is_digit_def
      split: list.splits if_splits prod.splits)

lemma json_print_starts: "json_wf j \<Longrightarrow> starts (json_print j @ r)"
proof (cases j)
  case (JNum l)
  moreover assume "json_wf j"
  ultimately obtain c t where "l = c # t" "is_digit c \<or> c = CHR ''-''" using jnumber_start[of l] by auto
  then show ?thesis using JNum by (auto simp: starts_def is_json_ws_def is_digit_def)
qed (auto simp: starts_def is_json_ws_def print_string_def)

lemma skip_ws_starts: "starts s \<Longrightarrow> skip_ws s = s"
  by (cases s) (auto simp: starts_def skip_ws_def)

lemma expect_starts: "starts s \<Longrightarrow> c \<in> {CHR '','', CHR '':'', CHR '']'', CHR ''}''} \<Longrightarrow> expect c s = None"
  by (cases s) (auto simp: starts_def expect_def skip_ws_def)

lemma expect_hit [simp]: "\<not> is_json_ws c \<Longrightarrow> expect c (c # s) = Some s"
  by (simp add: expect_def skip_ws_def)

lemma expect_miss: "\<not> is_json_ws d \<Longrightarrow> d \<noteq> c \<Longrightarrow> expect c (d # s) = None"
  by (simp add: expect_def skip_ws_def)

lemma punctuation [simp]:
  "\<not> is_json_ws CHR '',''" "\<not> is_json_ws CHR '':''" "\<not> is_json_ws CHR '']''" "\<not> is_json_ws CHR ''}''"
  "\<not> is_json_ws CHR ''[''" "\<not> is_json_ws CHR ''{''" "\<not> is_json_ws CHR 0x22"
  by (simp_all add: is_json_ws_def)

text \<open>With enough fuel, and something that ends the value behind it, a printed value reads back.\<close>

definition reads :: "json \<Rightarrow> bool" where
  "reads j = (\<forall>r. delimited r \<longrightarrow> (\<exists>N. \<forall>n\<ge>N. jvalue n (json_print j @ r) = Some (json_repair j, r)))"

lemma readsD: "reads j \<Longrightarrow> delimited r \<Longrightarrow> \<exists>N. \<forall>n\<ge>N. jvalue n (json_print j @ r) = Some (json_repair j, r)"
  by (simp add: reads_def)

lemma readsI:
  assumes "\<And>r n. delimited r \<Longrightarrow> N r \<le> n \<Longrightarrow> jvalue (Suc n) (json_print j @ r) = Some (json_repair j, r)"
  shows "reads j"
  unfolding reads_def
proof (intro allI impI)
  fix r assume "delimited r"
  then have "jvalue n (json_print j @ r) = Some (json_repair j, r)" if "Suc (N r) \<le> n" for n
    using assms[of r "n - 1"] that by (cases n) auto
  then show "\<exists>N. \<forall>n\<ge>N. jvalue n (json_print j @ r) = Some (json_repair j, r)" by blast
qed

lemma jelems_print:
  assumes "list_all reads js" "list_all json_wf js" "js \<noteq> []"
  shows "\<exists>N. \<forall>n\<ge>N. jelems n (join_with '','' (map json_print js) @ CHR '']'' # r) = Some (map json_repair js, r)"
  using assms
proof (induction js rule: induct_list012)
  case (2 j)
  then obtain N where "\<forall>n\<ge>N. jvalue n (json_print j @ CHR '']'' # r) = Some (json_repair j, CHR '']'' # r)"
    using readsD[of j "CHR '']'' # r"] by auto
  then have "jelems n (json_print j @ CHR '']'' # r) = Some ([json_repair j], r)" if "Suc N \<le> n" for n
    using that by (cases n) (simp_all add: expect_miss)
  then show ?case by (auto intro!: exI[of _ "Suc N"])
next
  case (3 j k js)
  let ?rest = "join_with '','' (map json_print (k # js)) @ CHR '']'' # r"
  obtain N where N: "\<forall>n\<ge>N. jelems n ?rest = Some (map json_repair (k # js), r)" using 3 by auto
  obtain M where "\<forall>n\<ge>M. jvalue n (json_print j @ CHR '','' # ?rest) = Some (json_repair j, CHR '','' # ?rest)"
    using 3(3) readsD[of j "CHR '','' # ?rest"] by auto
  then have "jelems n (json_print j @ CHR '','' # ?rest) = Some (json_repair j # map json_repair (k # js), r)" if "Suc (max N M) \<le> n" for n
    using that N by (cases n) (simp_all del: list.map join_with.simps)
  then show ?case by (auto intro!: exI[of _ "Suc (max N M)"])
qed simp

lemma jmembers_print:
  assumes "list_all (\<lambda>(k, j). reads j) ms" "list_all (\<lambda>(k, j). json_wf j) ms" "ms \<noteq> []"
  shows "\<exists>N. \<forall>n\<ge>N. jmembers n (join_with '','' (map (\<lambda>(k, j). print_string k @ '':'' @ json_print j) ms) @ CHR ''}'' # r)
    = Some (map (\<lambda>(k, j). (repaired k, json_repair j)) ms, r)"
  using assms
proof (induction ms rule: induct_list012)
  case (2 m)
  obtain k j where m: "m = (k, j)" by (cases m)
  obtain N where "\<forall>n\<ge>N. jvalue n (json_print j @ CHR ''}'' # r) = Some (json_repair j, CHR ''}'' # r)"
    using 2 m readsD[of j "CHR ''}'' # r"] by auto
  then have "jmembers n (print_string k @ '':'' @ json_print j @ CHR ''}'' # r) = Some ([(repaired k, json_repair j)], r)" if "Suc N \<le> n" for n
    using that by (cases n) (simp_all add: expect_miss print_string_def jchars_escape)
  then show ?case by (auto simp: m intro!: exI[of _ "Suc N"])
next
  case (3 m m' ms)
  let ?pr = "\<lambda>(k, j). print_string k @ '':'' @ json_print j"
  let ?rest = "join_with '','' (map ?pr (m' # ms)) @ CHR ''}'' # r"
  obtain k j where m: "m = (k, j)" by (cases m)
  obtain N where N: "\<forall>n\<ge>N. jmembers n ?rest = Some (map (\<lambda>(k, j). (repaired k, json_repair j)) (m' # ms), r)" using 3 by auto
  obtain M where "\<forall>n\<ge>M. jvalue n (json_print j @ CHR '','' # ?rest) = Some (json_repair j, CHR '','' # ?rest)"
    using 3(3) m readsD[of j "CHR '','' # ?rest"] by auto
  then have "jmembers n (print_string k @ '':'' @ json_print j @ CHR '','' # ?rest) = Some ((repaired k, json_repair j) # map (\<lambda>(k, j). (repaired k, json_repair j)) (m' # ms), r)"
    if "Suc (max N M) \<le> n" for n
    using that N by (cases n) (simp_all add: print_string_def jchars_escape del: list.map join_with.simps)
  then show ?case by (auto simp: m intro!: exI[of _ "Suc (max N M)"])
qed simp

lemma json_print_reads: "json_wf j \<Longrightarrow> reads j"
proof (induction j rule: json_print.induct)
  case 1
  show ?case by (rule readsI[of "\<lambda>_. 0"]) (simp add: skip_ws_def is_json_ws_def jliteral_def)
next
  case (2 b)
  show ?case by (rule readsI[of "\<lambda>_. 0"]) (simp add: skip_ws_def is_json_ws_def jliteral_def)
next
  case (3 l)
  then obtain c t where l: "l = c # t" "is_digit c \<or> c = CHR ''-''" using jnumber_start[of l] by auto
  have ws: "skip_ws (l @ r) = l @ r" for r
    using json_print_starts[OF 3, of r] skip_ws_starts by simp
  have "jliteral (l @ r) = Some (JNum l, r)" if "delimited r" for r
    using jnumber_append[of l l "[]" r] 3 l that by (auto simp: jliteral_def is_digit_def)
  then show ?case
    by (intro readsI[of "\<lambda>_. 0"]) (use l ws in \<open>auto simp: is_digit_def\<close>)
next
  case (4 s)
  show ?case
    by (rule readsI[of "\<lambda>_. 0"]) (simp add: print_string_def skip_ws_def jchars_escape)
next
  case (5 js)
  then have js: "list_all reads js" "list_all json_wf js" by (auto simp: list_all_iff)
  show ?case
  proof (cases "js = []")
    case True
    then show ?thesis by (intro readsI[of "\<lambda>_. 0"]) (simp add: skip_ws_def)
  next
    case False
    then have st: "starts (join_with '','' (map json_print js) @ CHR '']'' # r)" for r
      using js(2) json_print_starts[of "hd js"] False by (cases js; cases "tl js") auto
    from jelems_print[OF js False] obtain N where
      N: "\<And>r n. N r \<le> n \<Longrightarrow> jelems n (join_with '','' (map json_print js) @ CHR '']'' # r) = Some (map json_repair js, r)"
      by metis
    show ?thesis
      by (rule readsI[of N]) (use N expect_starts[OF st] in \<open>simp add: skip_ws_def\<close>)
  qed
next
  case (6 ms)
  then have ms: "list_all (\<lambda>(k, j). reads j) ms" "list_all (\<lambda>(k, j). json_wf j) ms"
    by (auto simp: list_all_iff)
  show ?case
  proof (cases "ms = []")
    case True
    then show ?thesis by (intro readsI[of "\<lambda>_. 0"]) (simp add: skip_ws_def)
  next
    case False
    then have st: "starts (join_with '','' (map (\<lambda>(k, j). print_string k @ '':'' @ json_print j) ms) @ CHR ''}'' # r)" for r
      using False by (cases ms; cases "tl ms") (auto simp: starts_def print_string_def)
    from jmembers_print[OF ms False] obtain N where
      N: "\<And>r n. N r \<le> n \<Longrightarrow> jmembers n (join_with '','' (map (\<lambda>(k, j). print_string k @ '':'' @ json_print j) ms) @ CHR ''}'' # r) = Some (map (\<lambda>(k, j). (repaired k, json_repair j)) ms, r)"
      by metis
    show ?thesis
      by (rule readsI[of N]) (use N expect_starts[OF st] in \<open>simp add: skip_ws_def\<close>)
  qed
qed

lemma jvalue_print:
  assumes "json_wf j" "delimited r"
  shows "jvalue (2 * length (json_print j @ r) + 2) (json_print j @ r) = Some (json_repair j, r)"
proof -
  obtain N where N: "\<forall>n\<ge>N. jvalue n (json_print j @ r) = Some (json_repair j, r)"
    using readsD[OF json_print_reads[OF assms(1)] assms(2)] by blast
  let ?k = "2 * length (json_print j @ r) + 2"
  have "jvalue ?k (json_print j @ r) = jvalue (max N ?k) (json_print j @ r)" by (rule json_fuel[symmetric]) simp
  then show ?thesis using N by (simp del: jvalue.simps)
qed

lemma json_parse_print: "json_wf j \<Longrightarrow> json_parse (json_print j) = Some (json_repair j)"
  using jvalue_print[of j "[]"] by (simp add: json_parse_def skip_ws_def del: jvalue.simps)

lemma json_parse_print_newline: "json_wf j \<Longrightarrow> json_parse (json_print j @ [CHR 0x0A]) = Some (json_repair j)"
  using jvalue_print[of j "[CHR 0x0A]"] by (simp add: json_parse_def skip_ws_def is_json_ws_def del: jvalue.simps)

end
