(* ===== verification/Wire_DTO.thy ===== *)
theory Wire_DTO
  imports Json_Print Recsys_Items
begin

text \<open>
  The JSON shapes of \<open>pkg/recsyskit/transporthttp/dto.go\<close>: a record, an encoder (\<open>json.Marshal\<close>) and a
  decoder per struct, and the proofs that decoding undoes encoding. A nil slice is printed as \<open>null\<close>,
  an allocated one as an array. \<open>strconv\<close>'s shortest spelling of a float is a parameter \<open>fmt\<close>, which has
  none for infinities and NaN (\<open>json.Marshal\<close> then fails).
\<close>

section \<open>Encoding of basic values\<close>

definition enc_int :: "int \<Rightarrow> json" where
  "enc_int i = JNum (Itoa i)"

text \<open>A slice that is nil when empty, and one that is always allocated.\<close>

definition enc_nil_slice :: "('a \<Rightarrow> json) \<Rightarrow> 'a list \<Rightarrow> json" where
  "enc_nil_slice enc xs = (if xs = [] then JNull else JArr (map enc xs))"

definition enc_slice :: "('a \<Rightarrow> json) \<Rightarrow> 'a list \<Rightarrow> json" where
  "enc_slice enc xs = JArr (map enc xs)"

text \<open>\<open>omitempty\<close>\<close>

definition omit_if :: "bool \<Rightarrow> string \<Rightarrow> json \<Rightarrow> (string \<times> json) list" where
  "omit_if b k j = (if b then [] else [(k, j)])"

fun try_map :: "('a \<Rightarrow> 'b option) \<Rightarrow> 'a list \<Rightarrow> 'b list option" where
  "try_map f [] = Some []"
| "try_map f (x # xs) =
     (case f x of None \<Rightarrow> None | Some y \<Rightarrow> map_option ((#) y) (try_map f xs))"

section \<open>Requests\<close>

record ItemGroupJSON =
  gj_Name :: string
  gj_ItemIDs :: "int64 list"
  gj_RetCount :: int32

record MultiRankRequestJSON =
  qj_UUID :: string
  qj_UserID :: int64
  qj_Section :: int32
  qj_ExpIDs :: "int32 list"
  qj_DisablePersonal :: int32
  qj_DeviceID :: string
  qj_TerminalModel :: string
  qj_OS :: string
  qj_ItemGroups :: "ItemGroupJSON list"
  qj_PreRankTrunc :: int32
  qj_RankTrunc :: int32
  qj_RankProfile :: string

definition enc_ItemGroupJSON :: "ItemGroupJSON \<Rightarrow> json" where
  "enc_ItemGroupJSON g =
     JObj [(''name'', JStr (gj_Name g)), (''item_ids'', enc_slice enc_int (gj_ItemIDs g)),
           (''ret_count'', enc_int (gj_RetCount g))]"

definition enc_MultiRankRequestJSON :: "MultiRankRequestJSON \<Rightarrow> json" where
  "enc_MultiRankRequestJSON q =
     JObj ([(''uuid'', JStr (qj_UUID q)), (''user_id'', enc_int (qj_UserID q)),
            (''section'', enc_int (qj_Section q)), (''exp_ids'', enc_nil_slice enc_int (qj_ExpIDs q)),
            (''disable_personal'', enc_int (qj_DisablePersonal q)), (''device_id'', JStr (qj_DeviceID q)),
            (''terminal_model'', JStr (qj_TerminalModel q)), (''os_type'', JStr (qj_OS q)),
            (''item_groups'', enc_nil_slice enc_ItemGroupJSON (qj_ItemGroups q))]
           @ omit_if (qj_PreRankTrunc q = 0) ''pre_rank_trunc'' (enc_int (qj_PreRankTrunc q))
           @ omit_if (qj_RankTrunc q = 0) ''rank_trunc'' (enc_int (qj_RankTrunc q))
           @ omit_if (qj_RankProfile q = []) ''rank_profile'' (JStr (qj_RankProfile q)))"

definition dec_ItemGroupJSON :: "ItemGroupJSON dec" where
  "dec_ItemGroupJSON = dec_struct
     [(''name'', field dec_string gj_Name gj_Name_update),
      (''item_ids'', field (dec_slice 0 (dec_int 64)) gj_ItemIDs gj_ItemIDs_update),
      (''ret_count'', field (dec_int 32) gj_RetCount gj_RetCount_update)]"

definition zero_group :: ItemGroupJSON where
  "zero_group = \<lparr>gj_Name = [], gj_ItemIDs = [], gj_RetCount = 0\<rparr>"

definition dec_MultiRankRequestJSON :: "MultiRankRequestJSON dec" where
  "dec_MultiRankRequestJSON = dec_struct
     [(''uuid'', field dec_string qj_UUID qj_UUID_update),
      (''user_id'', field (dec_int 64) qj_UserID qj_UserID_update),
      (''section'', field (dec_int 32) qj_Section qj_Section_update),
      (''exp_ids'', field (dec_slice 0 (dec_int 32)) qj_ExpIDs qj_ExpIDs_update),
      (''disable_personal'', field (dec_int 32) qj_DisablePersonal qj_DisablePersonal_update),
      (''device_id'', field dec_string qj_DeviceID qj_DeviceID_update),
      (''terminal_model'', field dec_string qj_TerminalModel qj_TerminalModel_update),
      (''os_type'', field dec_string qj_OS qj_OS_update),
      (''item_groups'', field (dec_slice zero_group dec_ItemGroupJSON) qj_ItemGroups qj_ItemGroups_update),
      (''pre_rank_trunc'', field (dec_int 32) qj_PreRankTrunc qj_PreRankTrunc_update),
      (''rank_trunc'', field (dec_int 32) qj_RankTrunc qj_RankTrunc_update),
      (''rank_profile'', field dec_string qj_RankProfile qj_RankProfile_update)]"

definition zero_rank_request :: MultiRankRequestJSON where
  "zero_rank_request = \<lparr>qj_UUID = [], qj_UserID = 0, qj_Section = 0, qj_ExpIDs = [], qj_DisablePersonal = 0,
     qj_DeviceID = [], qj_TerminalModel = [], qj_OS = [], qj_ItemGroups = [], qj_PreRankTrunc = 0,
     qj_RankTrunc = 0, qj_RankProfile = []\<rparr>"

section \<open>Responses\<close>

record ExpInfoJSON =
  ej_PreRankExpID :: int32
  ej_RankExpID :: int32
  ej_ReRankExpID :: int32

record ItemScoresJSON =
  sj_ItemID :: int64
  sj_PreRankScore :: float32
  sj_RankScore :: float32
  sj_ReRankScore :: float32

record RankedGroupJSON =
  rj_Name :: string
  rj_ItemScores :: "ItemScoresJSON list"

record MultiRankResponseJSON =
  pj_UUID :: string
  pj_UserID :: int64
  pj_Exp :: ExpInfoJSON
  pj_RankedGroups :: "RankedGroupJSON list"

definition enc_ExpInfoJSON :: "ExpInfoJSON \<Rightarrow> json" where
  "enc_ExpInfoJSON e =
     JObj [(''pre_rank_exp_id'', enc_int (ej_PreRankExpID e)), (''rank_exp_id'', enc_int (ej_RankExpID e)),
           (''re_rank_exp_id'', enc_int (ej_ReRankExpID e))]"

definition enc_ItemScoresJSON :: "(float32 \<Rightarrow> string option) \<Rightarrow> ItemScoresJSON \<Rightarrow> json option" where
  "enc_ItemScoresJSON fmt s =
     (case (fmt (sj_PreRankScore s), fmt (sj_RankScore s), fmt (sj_ReRankScore s)) of
        (Some p, Some r, Some q) \<Rightarrow>
          Some (JObj [(''item_id'', enc_int (sj_ItemID s)), (''pre_rank_score'', JNum p),
                      (''rank_score'', JNum r), (''re_rank_score'', JNum q)])
      | _ \<Rightarrow> None)"

definition enc_RankedGroupJSON :: "(float32 \<Rightarrow> string option) \<Rightarrow> RankedGroupJSON \<Rightarrow> json option" where
  "enc_RankedGroupJSON fmt g =
     map_option (\<lambda>js. JObj [(''name'', JStr (rj_Name g)), (''item_scores'', enc_nil_slice id js)])
       (try_map (enc_ItemScoresJSON fmt) (rj_ItemScores g))"

definition enc_MultiRankResponseJSON :: "(float32 \<Rightarrow> string option) \<Rightarrow> MultiRankResponseJSON \<Rightarrow> json option" where
  "enc_MultiRankResponseJSON fmt p =
     map_option (\<lambda>js. JObj [(''uuid'', JStr (pj_UUID p)), (''user_id'', enc_int (pj_UserID p)),
           (''exp'', enc_ExpInfoJSON (pj_Exp p)), (''ranked_groups'', enc_nil_slice id js)])
       (try_map (enc_RankedGroupJSON fmt) (pj_RankedGroups p))"

definition dec_ExpInfoJSON :: "ExpInfoJSON dec" where
  "dec_ExpInfoJSON = dec_struct
     [(''pre_rank_exp_id'', field (dec_int 32) ej_PreRankExpID ej_PreRankExpID_update),
      (''rank_exp_id'', field (dec_int 32) ej_RankExpID ej_RankExpID_update),
      (''re_rank_exp_id'', field (dec_int 32) ej_ReRankExpID ej_ReRankExpID_update)]"

definition dec_ItemScoresJSON :: "ItemScoresJSON dec" where
  "dec_ItemScoresJSON = dec_struct
     [(''item_id'', field (dec_int 64) sj_ItemID sj_ItemID_update),
      (''pre_rank_score'', field dec_float32 sj_PreRankScore sj_PreRankScore_update),
      (''rank_score'', field dec_float32 sj_RankScore sj_RankScore_update),
      (''re_rank_score'', field dec_float32 sj_ReRankScore sj_ReRankScore_update)]"

definition zero_scores :: ItemScoresJSON where
  "zero_scores = \<lparr>sj_ItemID = 0, sj_PreRankScore = 0, sj_RankScore = 0, sj_ReRankScore = 0\<rparr>"

definition dec_RankedGroupJSON :: "RankedGroupJSON dec" where
  "dec_RankedGroupJSON = dec_struct
     [(''name'', field dec_string rj_Name rj_Name_update),
      (''item_scores'', field (dec_slice zero_scores dec_ItemScoresJSON) rj_ItemScores rj_ItemScores_update)]"

definition dec_MultiRankResponseJSON :: "MultiRankResponseJSON dec" where
  "dec_MultiRankResponseJSON = dec_struct
     [(''uuid'', field dec_string pj_UUID pj_UUID_update),
      (''user_id'', field (dec_int 64) pj_UserID pj_UserID_update),
      (''exp'', field dec_ExpInfoJSON pj_Exp pj_Exp_update),
      (''ranked_groups'', field (dec_slice \<lparr>rj_Name = [], rj_ItemScores = []\<rparr> dec_RankedGroupJSON)
         pj_RankedGroups pj_RankedGroups_update)]"

definition zero_rank_response :: MultiRankResponseJSON where
  "zero_rank_response = \<lparr>pj_UUID = [], pj_UserID = 0,
     pj_Exp = \<lparr>ej_PreRankExpID = 0, ej_RankExpID = 0, ej_ReRankExpID = 0\<rparr>, pj_RankedGroups = []\<rparr>"

section \<open>The recommend API\<close>

record RecommendRequestJSON =
  rq_UUID :: string
  rq_UserID :: int64
  rq_Section :: int32
  rq_ExpIDs :: "int32 list"
  rq_RetCount :: int32
  rq_DisablePersonal :: int32
  rq_DeviceID :: string
  rq_TerminalModel :: string
  rq_OS :: string
  rq_UserGroup :: string

record ItemRecallJSON =
  ir_ItemID :: int64
  ir_RecallType :: string

record RecommendResponseJSON =
  rr_UserID :: int64
  rr_ItemIDs :: "int64 list"
  rr_Recall :: "ItemRecallJSON list"

definition dec_RecommendRequestJSON :: "RecommendRequestJSON dec" where
  "dec_RecommendRequestJSON = dec_struct
     [(''uuid'', field dec_string rq_UUID rq_UUID_update),
      (''user_id'', field (dec_int 64) rq_UserID rq_UserID_update),
      (''section'', field (dec_int 32) rq_Section rq_Section_update),
      (''exp_ids'', field (dec_slice 0 (dec_int 32)) rq_ExpIDs rq_ExpIDs_update),
      (''ret_count'', field (dec_int 32) rq_RetCount rq_RetCount_update),
      (''disable_personal'', field (dec_int 32) rq_DisablePersonal rq_DisablePersonal_update),
      (''device_id'', field dec_string rq_DeviceID rq_DeviceID_update),
      (''terminal_model'', field dec_string rq_TerminalModel rq_TerminalModel_update),
      (''os_type'', field dec_string rq_OS rq_OS_update),
      (''user_group'', field dec_string rq_UserGroup rq_UserGroup_update)]"

definition enc_ItemRecallJSON :: "ItemRecallJSON \<Rightarrow> json" where
  "enc_ItemRecallJSON r = JObj [(''item_id'', enc_int (ir_ItemID r)), (''recall_type'', JStr (ir_RecallType r))]"

definition enc_RecommendResponseJSON :: "RecommendResponseJSON \<Rightarrow> json" where
  "enc_RecommendResponseJSON r =
     JObj ([(''user_id'', enc_int (rr_UserID r)), (''item_ids'', enc_nil_slice enc_int (rr_ItemIDs r))]
           @ omit_if (rr_Recall r = []) ''recall'' (enc_slice enc_ItemRecallJSON (rr_Recall r)))"


section \<open>Decoding undoes encoding\<close>

definition fits :: "nat \<Rightarrow> int \<Rightarrow> bool" where
  "fits w i = (- (2 ^ (w - 1)) \<le> i \<and> i < 2 ^ (w - 1))"

lemma fits_wrap: "0 < w \<Longrightarrow> fits w (wrap_signed w i)"
proof -
  assume "0 < w"
  then have "(2::int) ^ w = 2 * 2 ^ (w - 1)" by (metis power_eq_if not_gr_zero)
  moreover have "0 \<le> (i + 2 ^ (w - 1)) mod 2 ^ w" "(i + 2 ^ (w - 1)) mod 2 ^ w < (2::int) ^ w" by simp_all
  ultimately show ?thesis by (simp add: fits_def wrap_signed_def)
qed

lemma dec_enc_int [simp]:
  assumes "fits w i" "0 < w" "w \<le> 64"
  shows "dec_int w x (enc_int i) = (i, True)"
proof -
  have "(2::int) ^ (w - 1) \<le> 2 ^ 63" using assms(3) by (intro power_increasing) auto
  then have "ParseInt (Itoa i) = Some i" using assms(1) by (intro ParseInt_Itoa) (auto simp: fits_def)
  moreover have "wrap_signed w i = i" using assms(1,2) by (intro wrap_signed_id) (auto simp: fits_def)
  ultimately show ?thesis by (simp add: dec_int_def enc_int_def)
qed

lemma nat_dec_head: "0 < n \<Longrightarrow> hd (nat_dec n) \<noteq> CHR ''0''"
proof (induction n rule: nat_dec.induct)
  case (1 n)
  show ?case
  proof (cases "n < 10")
    case True
    have "of_char (digit_char n) \<noteq> (48 :: nat)" using True 1(2) by simp
    then have "digit_char n \<noteq> CHR ''0''" by (auto simp del: of_char_digit)
    then show ?thesis using True by (subst nat_dec.simps) simp
  next
    case False
    then show ?thesis using 1 by (subst nat_dec.simps) simp
  qed
qed

lemma jnumber_digits:
  assumes "list_all is_digit ds" "ds = ''0'' \<or> ds \<noteq> [] \<and> hd ds \<noteq> CHR ''0''"
  shows "jnumber ds = Some (ds, [])" "jnumber (CHR ''-'' # ds) = Some (CHR ''-'' # ds, [])"
proof -
  obtain c t where ds: "ds = c # t" using assms(2) by (cases ds) auto
  have sp: "span_digits ds = (ds, [])" using assms(1) by (simp add: span_digits_def list_all_iff)
  have c: "c \<noteq> CHR ''-''" using assms(1) ds by (auto simp: is_digit_def)
  have "jfrac [] = Some ([], [])" "jexp [] = Some ([], [])" by (simp_all add: jfrac_def jexp_def)
  then show "jnumber ds = Some (ds, [])" "jnumber (CHR ''-'' # ds) = Some (CHR ''-'' # ds, [])"
    using assms(2) ds sp c by (auto simp: jnumber_def Let_def)
qed

lemma json_wf_int [simp]: "json_wf (enc_int i)"
proof -
  have "nat_dec n = ''0'' \<or> nat_dec n \<noteq> [] \<and> hd (nat_dec n) \<noteq> CHR ''0''" for n
    using nat_dec_head[of n] by (cases "n = 0") (simp_all add: nat_dec.simps[of 0])
  then show ?thesis using jnumber_digits[OF nat_dec_digits] by (simp add: enc_int_def Itoa_def)
qed

lemma dec_JStr [simp]: "dec_string x (JStr s) = (repaired s, True)"
  by (simp add: dec_string_def)

lemma repaired_valid: "valid_utf8 s \<Longrightarrow> repaired s = s"
  by (simp add: valid_utf8_def)

lemma dec_elems_enc:
  "list_all (\<lambda>x. d z (enc x) = (x, True)) xs \<Longrightarrow> dec_elems z d [] (map enc xs) = (xs, True)"
  by (induction xs) auto

lemma dec_slice_enc:
  assumes "list_all (\<lambda>x. d z (enc x) = (x, True)) xs"
  shows "dec_slice z d [] (enc_slice enc xs) = (xs, True)" "dec_slice z d [] (enc_nil_slice enc xs) = (xs, True)"
  using dec_elems_enc[of d z enc xs] assms by (simp_all add: dec_slice_def enc_slice_def enc_nil_slice_def)

lemma dec_elems_try:
  "try_map f xs = Some js \<Longrightarrow> \<forall>x\<in>set xs. \<forall>j. f x = Some j \<longrightarrow> d z j = (x, True) \<Longrightarrow> dec_elems z d [] js = (xs, True)"
  by (induction xs arbitrary: js) (auto split: option.splits)

lemma dec_slice_try:
  assumes "try_map f xs = Some js" "\<forall>x\<in>set xs. \<forall>j. f x = Some j \<longrightarrow> d z j = (x, True)"
  shows "dec_slice z d [] (enc_nil_slice id js) = (xs, True)"
  using dec_elems_try[of f xs js d z] assms by (cases xs) (auto simp: dec_slice_def enc_nil_slice_def split: option.splits)

lemma try_map_all:
  "try_map f xs = Some js \<Longrightarrow> \<forall>x\<in>set xs. \<forall>j. f x = Some j \<longrightarrow> P j \<Longrightarrow> list_all P js"
  by (induction xs arbitrary: js) (auto split: option.splits)

lemma try_map_some: "list_all (\<lambda>x. f x \<noteq> None) xs \<Longrightarrow> \<exists>js. try_map f xs = Some js"
  by (induction xs) auto

lemma ints_ok: "list_all (fits w) xs \<Longrightarrow> 0 < w \<Longrightarrow> w \<le> 64 \<Longrightarrow> list_all (\<lambda>x. dec_int w 0 (enc_int x) = (x, True)) xs"
  by (auto simp: list_all_iff)

definition ExpInfo_fits :: "ExpInfoJSON \<Rightarrow> bool" where
  "ExpInfo_fits e = (fits 32 (ej_PreRankExpID e) \<and> fits 32 (ej_RankExpID e) \<and> fits 32 (ej_ReRankExpID e))"

definition group_fits :: "ItemGroupJSON \<Rightarrow> bool" where
  "group_fits g = (valid_utf8 (gj_Name g) \<and> list_all (fits 64) (gj_ItemIDs g) \<and> fits 32 (gj_RetCount g))"

text \<open>Every integer of the request lies in the range of its Go type, and its texts are UTF-8.\<close>

definition request_fits :: "MultiRankRequestJSON \<Rightarrow> bool" where
  "request_fits q =
     (fits 64 (qj_UserID q) \<and> fits 32 (qj_Section q) \<and> list_all (fits 32) (qj_ExpIDs q) \<and>
      fits 32 (qj_DisablePersonal q) \<and> list_all group_fits (qj_ItemGroups q) \<and> fits 32 (qj_PreRankTrunc q) \<and>
      fits 32 (qj_RankTrunc q) \<and>
      list_all valid_utf8 [qj_UUID q, qj_DeviceID q, qj_TerminalModel q, qj_OS q, qj_RankProfile q])"

lemmas struct_simps = dec_struct_def find_field_def field_def repaired_ascii repaired_valid

lemma dec_group: "group_fits g \<Longrightarrow> dec_ItemGroupJSON zero_group (enc_ItemGroupJSON g) = (g, True)"
  by (cases g) (simp add: dec_ItemGroupJSON_def enc_ItemGroupJSON_def zero_group_def group_fits_def struct_simps
      dec_slice_enc ints_ok)

lemma dec_request:
  assumes "request_fits q"
  shows "dec_MultiRankRequestJSON zero_rank_request (enc_MultiRankRequestJSON q) = (q, True)"
proof -
  have g: "list_all (\<lambda>g. dec_ItemGroupJSON zero_group (enc_ItemGroupJSON g) = (g, True)) (qj_ItemGroups q)"
    using assms dec_group by (auto simp: request_fits_def list_all_iff)
  show ?thesis
    using assms g
    by (cases q) (simp add: dec_MultiRankRequestJSON_def enc_MultiRankRequestJSON_def zero_rank_request_def
        request_fits_def struct_simps omit_if_def dec_slice_enc ints_ok)
qed

text \<open>
  What \<open>strconv\<close> documents for the spelling of a float: a JSON number that parses back to it. It is
  asked only of the scores that occur.
\<close>

definition spells :: "(float32 \<Rightarrow> string option) \<Rightarrow> float32 \<Rightarrow> bool" where
  "spells fmt v = (case fmt v of None \<Rightarrow> False | Some l \<Rightarrow> jnumber l = Some (l, []) \<and> float32_literal l = Some v)"

definition fmt_ok :: "(float32 \<Rightarrow> string option) \<Rightarrow> bool" where
  "fmt_ok fmt = (\<forall>v. fmt v = None \<or> spells fmt v)"

definition scores_ok :: "(float32 \<Rightarrow> string option) \<Rightarrow> ItemScoresJSON \<Rightarrow> bool" where
  "scores_ok fmt s = (fits 64 (sj_ItemID s) \<and> spells fmt (sj_PreRankScore s) \<and> spells fmt (sj_RankScore s) \<and>
     spells fmt (sj_ReRankScore s))"

definition response_ok :: "(float32 \<Rightarrow> string option) \<Rightarrow> MultiRankResponseJSON \<Rightarrow> bool" where
  "response_ok fmt p =
     (valid_utf8 (pj_UUID p) \<and> fits 64 (pj_UserID p) \<and> ExpInfo_fits (pj_Exp p) \<and>
      list_all (\<lambda>g. valid_utf8 (rj_Name g) \<and> list_all (scores_ok fmt) (rj_ItemScores g)) (pj_RankedGroups p))"

text \<open>A document that can be written, and is read back unchanged.\<close>

definition json_ok :: "json \<Rightarrow> bool" where
  "json_ok j = (json_wf j \<and> json_valid j)"

lemma json_ok_simps [simp]:
  "json_ok JNull" "json_ok (enc_int i)" "json_ok (JNum l) = (jnumber l = Some (l, []))" "json_ok (JStr s) = valid_utf8 s"
  "json_ok (JArr js) = list_all json_ok js" "json_ok (JObj ms) = list_all (\<lambda>(k, j). valid_utf8 k \<and> json_ok j) ms"
  by (auto simp: json_ok_def list_all_iff, simp add: enc_int_def)

lemma json_ok_repair: "json_ok j \<Longrightarrow> json_repair j = j"
  by (simp add: json_ok_def json_repair_valid)

lemma dec_scores:
  "scores_ok fmt s \<Longrightarrow> enc_ItemScoresJSON fmt s = Some j \<Longrightarrow> dec_ItemScoresJSON zero_scores j = (s, True) \<and> json_ok j"
  by (cases s) (auto simp: enc_ItemScoresJSON_def dec_ItemScoresJSON_def zero_scores_def scores_ok_def spells_def
      struct_simps dec_float32_def split: option.splits)

lemma dec_ranked_group:
  assumes "valid_utf8 (rj_Name g)" "list_all (scores_ok fmt) (rj_ItemScores g)" "enc_RankedGroupJSON fmt g = Some j"
  shows "dec_RankedGroupJSON \<lparr>rj_Name = [], rj_ItemScores = []\<rparr> j = (g, True) \<and> json_ok j"
proof -
  obtain js where js: "try_map (enc_ItemScoresJSON fmt) (rj_ItemScores g) = Some js"
    and j: "j = JObj [(''name'', JStr (rj_Name g)), (''item_scores'', enc_nil_slice id js)]"
    using assms(3) by (auto simp: enc_RankedGroupJSON_def)
  have each: "\<forall>s\<in>set (rj_ItemScores g). \<forall>j. enc_ItemScoresJSON fmt s = Some j \<longrightarrow>
      dec_ItemScoresJSON zero_scores j = (s, True) \<and> json_ok j"
    using assms(2) dec_scores by (auto simp: list_all_iff)
  then have "dec_slice zero_scores dec_ItemScoresJSON [] (enc_nil_slice id js) = (rj_ItemScores g, True)"
    by (intro dec_slice_try[OF js]) blast
  moreover have "list_all json_ok js" by (rule try_map_all[OF js]) (use each in blast)
  ultimately show ?thesis
    using assms(1) by (cases g) (simp add: j dec_RankedGroupJSON_def struct_simps enc_nil_slice_def)
qed

lemma dec_ranked_groups:
  assumes "list_all (\<lambda>g. valid_utf8 (rj_Name g) \<and> list_all (scores_ok fmt) (rj_ItemScores g)) gs"
    and "try_map (enc_RankedGroupJSON fmt) gs = Some js"
  shows "dec_slice \<lparr>rj_Name = [], rj_ItemScores = []\<rparr> dec_RankedGroupJSON [] (enc_nil_slice id js) = (gs, True)"
    and "list_all json_ok js"
proof -
  have each: "\<forall>g\<in>set gs. \<forall>j. enc_RankedGroupJSON fmt g = Some j \<longrightarrow>
      dec_RankedGroupJSON \<lparr>rj_Name = [], rj_ItemScores = []\<rparr> j = (g, True) \<and> json_ok j"
    using assms(1) dec_ranked_group by (auto simp: list_all_iff)
  then show "dec_slice \<lparr>rj_Name = [], rj_ItemScores = []\<rparr> dec_RankedGroupJSON [] (enc_nil_slice id js) = (gs, True)"
    by (intro dec_slice_try[OF assms(2)]) blast
  show "list_all json_ok js" by (rule try_map_all[OF assms(2)]) (use each in blast)
qed

lemma json_ok_exp: "json_ok (enc_ExpInfoJSON e)"
  by (simp add: enc_ExpInfoJSON_def)

lemma dec_response:
  assumes "response_ok fmt p" "enc_MultiRankResponseJSON fmt p = Some j"
  shows "dec_MultiRankResponseJSON zero_rank_response j = (p, True) \<and> json_ok j"
proof -
  obtain js where js: "try_map (enc_RankedGroupJSON fmt) (pj_RankedGroups p) = Some js"
    and j: "j = JObj [(''uuid'', JStr (pj_UUID p)), (''user_id'', enc_int (pj_UserID p)),
           (''exp'', enc_ExpInfoJSON (pj_Exp p)), (''ranked_groups'', enc_nil_slice id js)]"
    using assms(2) by (auto simp: enc_MultiRankResponseJSON_def)
  have "list_all (\<lambda>g. valid_utf8 (rj_Name g) \<and> list_all (scores_ok fmt) (rj_ItemScores g)) (pj_RankedGroups p)"
    using assms(1) by (simp add: response_ok_def)
  note dec_ranked_groups[OF this js]
  moreover have "dec_ExpInfoJSON \<lparr>ej_PreRankExpID = 0, ej_RankExpID = 0, ej_ReRankExpID = 0\<rparr>
      (enc_ExpInfoJSON (pj_Exp p)) = (pj_Exp p, True)"
    using assms(1) by (cases "pj_Exp p") (simp add: dec_ExpInfoJSON_def enc_ExpInfoJSON_def struct_simps
      response_ok_def ExpInfo_fits_def)
  ultimately show ?thesis
    using assms(1) json_ok_exp[of "pj_Exp p"]
    by (cases p) (simp add: j dec_MultiRankResponseJSON_def zero_rank_response_def struct_simps enc_nil_slice_def
        response_ok_def)
qed

text \<open>Whatever the experiment ids are, the groups are read back.\<close>

lemma dec_response_groups:
  assumes "valid_utf8 (pj_UUID p)" "enc_MultiRankResponseJSON fmt p = Some j"
    and "list_all (\<lambda>g. valid_utf8 (rj_Name g) \<and> list_all (scores_ok fmt) (rj_ItemScores g)) (pj_RankedGroups p)"
  shows "pj_RankedGroups (fst (dec_MultiRankResponseJSON zero_rank_response j)) = pj_RankedGroups p \<and> json_ok j"
proof -
  obtain js where js: "try_map (enc_RankedGroupJSON fmt) (pj_RankedGroups p) = Some js"
    and j: "j = JObj [(''uuid'', JStr (pj_UUID p)), (''user_id'', enc_int (pj_UserID p)),
           (''exp'', enc_ExpInfoJSON (pj_Exp p)), (''ranked_groups'', enc_nil_slice id js)]"
    using assms(2) by (auto simp: enc_MultiRankResponseJSON_def)
  note groups = dec_ranked_groups[OF assms(3) js]
  obtain e ok where "dec_ExpInfoJSON \<lparr>ej_PreRankExpID = 0, ej_RankExpID = 0, ej_ReRankExpID = 0\<rparr> (enc_ExpInfoJSON (pj_Exp p)) = (e, ok)"
    by (cases "dec_ExpInfoJSON \<lparr>ej_PreRankExpID = 0, ej_RankExpID = 0, ej_ReRankExpID = 0\<rparr> (enc_ExpInfoJSON (pj_Exp p))")
  moreover obtain u ok' where "dec_int 64 0 (enc_int (pj_UserID p)) = (u, ok')"
    by (cases "dec_int 64 0 (enc_int (pj_UserID p))")
  moreover have "json_ok (enc_nil_slice id js)" using groups(2) by (simp add: enc_nil_slice_def)
  ultimately show ?thesis
    using assms(1) json_ok_exp[of "pj_Exp p"] groups(1)
    by (simp add: j dec_MultiRankResponseJSON_def zero_rank_response_def struct_simps)
qed

lemma enc_response_spells:
  assumes "fmt_ok fmt" "enc_MultiRankResponseJSON fmt p = Some j"
    and "list_all (\<lambda>g. list_all (\<lambda>s. fits 64 (sj_ItemID s)) (rj_ItemScores g)) (pj_RankedGroups p)"
  shows "list_all (\<lambda>g. list_all (scores_ok fmt) (rj_ItemScores g)) (pj_RankedGroups p)"
proof -
  have written: "\<exists>y. f x = Some y" if "try_map f xs = Some ys" "x \<in> set xs" for f :: "'c \<Rightarrow> 'd option" and xs ys x
    using that by (induction xs arbitrary: ys) (auto split: option.splits simp: bind_eq_Some_conv)
  obtain js where js: "try_map (enc_RankedGroupJSON fmt) (pj_RankedGroups p) = Some js"
    using assms(2) by (auto simp: enc_MultiRankResponseJSON_def)
  have "scores_ok fmt s" if g: "g \<in> set (pj_RankedGroups p)" and s: "s \<in> set (rj_ItemScores g)" for g s
  proof -
    obtain ss where "try_map (enc_ItemScoresJSON fmt) (rj_ItemScores g) = Some ss"
      using written[OF js g] by (auto simp: enc_RankedGroupJSON_def)
    from written[OF this s] have "fmt (sj_PreRankScore s) \<noteq> None" "fmt (sj_RankScore s) \<noteq> None" "fmt (sj_ReRankScore s) \<noteq> None"
      by (auto simp: enc_ItemScoresJSON_def split: option.splits)
    moreover have "spells fmt v" if "fmt v \<noteq> None" for v using assms(1)[unfolded fmt_ok_def, THEN spec, of v] that by simp
    ultimately show ?thesis using assms(3) g s unfolding scores_ok_def list_all_iff by blast
  qed
  then show ?thesis by (auto simp: list_all_iff)
qed

lemma enc_response_some:
  assumes "response_ok fmt p"
  shows "\<exists>j. enc_MultiRankResponseJSON fmt p = Some j"
proof -
  have "enc_ItemScoresJSON fmt s \<noteq> None" if "scores_ok fmt s" for s
    using that by (auto simp: scores_ok_def spells_def enc_ItemScoresJSON_def split: option.splits)
  then have "enc_RankedGroupJSON fmt g \<noteq> None" if "list_all (scores_ok fmt) (rj_ItemScores g)" for g
    using that try_map_some[of "enc_ItemScoresJSON fmt" "rj_ItemScores g"]
    by (auto simp: enc_RankedGroupJSON_def list_all_iff)
  then show ?thesis
    using assms try_map_some[of "enc_RankedGroupJSON fmt" "pj_RankedGroups p"]
    by (auto simp: enc_MultiRankResponseJSON_def response_ok_def list_all_iff)
qed

lemma json_wf_slices [simp]:
  "(\<And>x. json_wf (enc x)) \<Longrightarrow> json_wf (enc_slice enc xs)"
  "(\<And>x. json_wf (enc x)) \<Longrightarrow> json_wf (enc_nil_slice enc xs)"
  by (simp_all add: enc_slice_def enc_nil_slice_def list_all_iff)

lemma json_wf_request: "json_wf (enc_MultiRankRequestJSON q)"
  by (simp add: enc_MultiRankRequestJSON_def enc_ItemGroupJSON_def omit_if_def)

lemma json_ok_request:
  assumes "request_fits q"
  shows "json_ok (enc_MultiRankRequestJSON q)"
proof -
  have "json_ok (enc_ItemGroupJSON g)" if "group_fits g" for g
    using that by (simp add: enc_ItemGroupJSON_def enc_slice_def group_fits_def  list_all_iff)
  then have "list_all json_ok (map enc_ItemGroupJSON (qj_ItemGroups q))"
    using assms by (simp add: request_fits_def list_all_iff)
  then show ?thesis
    using assms
    by (simp add: enc_MultiRankRequestJSON_def omit_if_def enc_nil_slice_def request_fits_def  list_all_iff)
qed

text \<open>Whole messages, as bytes.\<close>

lemma unmarshal_print: "json_ok j \<Longrightarrow> unmarshal d x (json_print j) = d x j"
  by (simp add: unmarshal_def json_parse_print json_ok_repair json_ok_def json_repair_valid)

end
