(* ===== verification/Rank_Client.thy ===== *)
theory Rank_Client
  imports Wire_DTO Upstream
begin

text \<open>
  \<open>pkg/recsyskit/transporthttp/rank_client.go\<close>: the rank client of the recommend service. A request
  is sent as JSON through the failover of \<open>Upstream\<close>; the client threads the doer's state (balancer
  and call log) through its calls.
\<close>

record RankHTTPClient =
  rh_doer :: "HTTPDoer option"
  rh_Path :: string

definition NewRankHTTPClient :: "EndpointsConfig \<Rightarrow> go_error + RankHTTPClient" where
  "NewRankHTTPClient eps =
     and_then (NewHTTPDoer eps) (\<lambda>doer. Inr \<lparr>rh_doer = Some doer, rh_Path = ''/v1/rank/multi''\<rparr>)"

definition NewRankHTTPClientSingle :: "string \<Rightarrow> go_error + RankHTTPClient" where
  "NewRankHTTPClientSingle baseURL =
     NewRankHTTPClient \<lparr>ep_BaseURL = baseURL, ep_Endpoints = [], ep_LoadBalance = []\<rparr>"

definition rank_body :: "MultiRankRequest \<Rightarrow> MultiRankRequestJSON" where
  "rank_body req =
     (let ctx = mq_Ctx req in
      \<lparr>qj_UUID = rc_UUID ctx, qj_UserID = rc_UserID ctx, qj_Section = rc_Section ctx, qj_ExpIDs = rc_ExpIDs ctx,
       qj_DisablePersonal = rc_DisablePersonal ctx, qj_DeviceID = rc_DeviceID ctx,
       qj_TerminalModel = rc_TerminalModel ctx, qj_OS = rc_OSType ctx,
       qj_ItemGroups = map (\<lambda>g. \<lparr>gj_Name = gr_Name g, gj_ItemIDs = gr_ItemIDs g, gj_RetCount = gr_RetCount g\<rparr>)
         (mq_Groups req),
       qj_PreRankTrunc = mq_PreRankTrunc req, qj_RankTrunc = mq_RankTrunc req, qj_RankProfile = mq_RankProfile req\<rparr>)"

definition rank_reply :: "MultiRankResponseJSON \<Rightarrow> MultiRankResponse" where
  "rank_reply wire =
     \<lparr>mp_UUID = pj_UUID wire, mp_UserID = pj_UserID wire,
      mp_Exp = \<lparr>ei_PreRankExpID = ej_PreRankExpID (pj_Exp wire), ei_RankExpID = ej_RankExpID (pj_Exp wire),
                ei_ReRankExpID = ej_ReRankExpID (pj_Exp wire)\<rparr>,
      mp_Groups = map (\<lambda>g. \<lparr>rg_Name = rj_Name g,
          rg_Items = map (\<lambda>s. \<lparr>sc_ItemID = sj_ItemID s, sc_PreRankScore = sj_PreRankScore s,
             sc_RankScore = sj_RankScore s, sc_ReRankScore = sj_ReRankScore s\<rparr>) (rj_ItemScores g)\<rparr>)
        (pj_RankedGroups wire)\<rparr>"

text \<open>The checks on the answer: a request with groups needs ranked groups, and a first group with
  candidates needs scores.\<close>

definition check_reply :: "MultiRankRequest \<Rightarrow> bytes \<Rightarrow> go_error + MultiRankResponse" where
  "check_reply req b =
     (case unmarshal_ok dec_MultiRankResponseJSON zero_rank_response b of
        None \<Rightarrow> Inl (DecodeError b)
      | Some wire \<Rightarrow>
          (let out = rank_reply wire in
           if qj_ItemGroups (rank_body req) \<noteq> [] \<and> pj_RankedGroups wire = [] then Inl MissingRankedGroups
           else if mq_Groups req \<noteq> [] \<and> gr_ItemIDs (hd (mq_Groups req)) \<noteq> [] \<and>
                   (mp_Groups out = [] \<or> rg_Items (hd (mp_Groups out)) = [])
           then Inl EmptyItemScores
           else Inr out))"

definition RankHTTPClient_MultiRank ::
  "(nat \<Rightarrow> nat) \<Rightarrow> (nat \<Rightarrow> string \<Rightarrow> bytes \<Rightarrow> http_outcome) \<Rightarrow> RankHTTPClient option \<Rightarrow> MultiRankRequest \<Rightarrow>
   string list \<Rightarrow> (go_error + MultiRankResponse) \<times> post_state option" where
  "RankHTTPClient_MultiRank rng net client req sent =
     (case Option.bind client rh_doer of
        None \<Rightarrow> (Inl RankNotConfigured, None)
      | Some doer \<Rightarrow>
          (let raw = json_print (enc_MultiRankRequestJSON (rank_body req)) in
           case PostBytes rng net doer (rh_Path (the client)) raw sent of
             (Inl e, st) \<Rightarrow> (Inl (RankCallFailed e), st)
           | (Inr b, st) \<Rightarrow> (check_reply req b, st)))"

text \<open>The client as the pipeline sees it, in the state of the call.\<close>

definition as_RankClient ::
  "(nat \<Rightarrow> nat) \<Rightarrow> (nat \<Rightarrow> string \<Rightarrow> bytes \<Rightarrow> http_outcome) \<Rightarrow> RankHTTPClient option \<Rightarrow> string list \<Rightarrow> RankClient" where
  "as_RankClient rng net client sent = (\<lambda>req. map_sum id Some (fst (RankHTTPClient_MultiRank rng net client req sent)))"

section \<open>What a caller may rely on\<close>

text \<open>The contract of \<open>RankClient\<close> the funnels use: no answer without scores for the first group.\<close>

definition answers :: "MultiRankRequest \<Rightarrow> MultiRankResponse \<Rightarrow> bool" where
  "answers req resp =
     (mq_Groups req = [] \<or>
      (mp_Groups resp \<noteq> [] \<and> (gr_ItemIDs (hd (mq_Groups req)) = [] \<or> rg_Items (hd (mp_Groups resp)) \<noteq> [])))"

lemma check_reply_answers: "check_reply req b = Inr resp \<Longrightarrow> answers req resp"
  by (auto simp: check_reply_def answers_def rank_body_def rank_reply_def Let_def split: option.splits if_splits)

text \<open>C29: the rank client never succeeds with an answer the funnel could not use: a call either fails, or gives
  at least one ranked group when groups were asked for, with scores when the first group had
  candidates; a client without endpoints always fails.\<close>

theorem MultiRank_answers:
  "case RankHTTPClient_MultiRank rng net client req sent of
     (Inl e, st) \<Rightarrow>
       (case Option.bind client rh_doer of
          None \<Rightarrow> e = RankNotConfigured \<and> st = None
        | Some doer \<Rightarrow> e \<noteq> RankNotConfigured)
   | (Inr resp, st) \<Rightarrow>
       Option.bind client rh_doer \<noteq> None
       \<and> (if mq_Groups req = [] then True
          else mp_Groups resp \<noteq> [] \<and>
            (if gr_ItemIDs (hd (mq_Groups req)) = [] then True else rg_Items (hd (mp_Groups resp)) \<noteq> []))"
proof (cases "Option.bind client rh_doer")
  case (Some doer)
  have "e \<noteq> RankNotConfigured" if "check_reply req b = Inl e" for b e
    using that by (auto simp: check_reply_def Let_def split: option.splits if_splits)
  then show ?thesis
    using Some check_reply_answers[of req]
    by (auto simp: RankHTTPClient_MultiRank_def Let_def answers_def split: sum.split prod.split)
qed (simp add: RankHTTPClient_MultiRank_def)

text \<open>C30: what travels arrives: the rank service decodes exactly the request the client encoded, and the client
  decodes exactly the response the service encoded, provided every integer is in the range of its type, every text is
  UTF-8 (JSON replaces other bytes) and \<open>strconv\<close> spells the scores.\<close>

theorem wire_round_trip:
  assumes "request_fits q" "response_ok fmt p"
  shows "unmarshal_ok dec_MultiRankRequestJSON zero_rank_request (json_print (enc_MultiRankRequestJSON q)) = Some q
    \<and> (case enc_MultiRankResponseJSON fmt p of
         None \<Rightarrow> False
       | Some j \<Rightarrow> unmarshal_ok dec_MultiRankResponseJSON zero_rank_response (json_print j) = Some p)"
proof -
  obtain j where j: "enc_MultiRankResponseJSON fmt p = Some j" using enc_response_some[OF assms(2)] by blast
  show ?thesis
    using dec_request[OF assms(1)] dec_response[OF assms(2) j]
    by (simp add: j unmarshal_ok_def unmarshal_print json_ok_request[OF assms(1)])
qed

definition one_fmt :: "float32 \<Rightarrow> string option" where
  "one_fmt v = (if v = Fin 1 then Some ''1'' else None)"

lemma one_fmt_spells: "spells one_fmt (Fin 1)"
proof -
  have "parse_decimal ''1'' = Some (False, 1)"
    by (simp add: parse_decimal_def take_sign_def span_digits_def dec_exponent_def is_digit_def dec_nat_def
        digit_val_def)
  moreover have "mk32 False 1 = Fin 1"
    using fmake_on_grid[of 24 "-149" 1 128 False] on_grid_nums(2)[of 24 "-149"] by simp
  moreover have "jnumber ''1'' = Some (''1'', [])"
    by (simp add: jnumber_def span_digits_def is_digit_def jfrac_def jexp_def)
  ultimately show ?thesis by (simp add: spells_def one_fmt_def float32_literal_def Let_def)
qed

lemma wire_round_trip_witness:
  "let q = rank_body \<lparr>mq_Ctx = zero_ctx\<lparr>rc_UUID := ''a<b'', rc_ExpIDs := [7]\<rparr>,
              mq_Groups = [\<lparr>gr_Name = ''Main'', gr_ItemIDs = [3, -4], gr_RetCount = 2\<rparr>],
              mq_PreRankTrunc = 0, mq_RankTrunc = 5, mq_RankProfile = []\<rparr>;
       p = \<lparr>pj_UUID = ''u'', pj_UserID = 9, pj_Exp = \<lparr>ej_PreRankExpID = 1, ej_RankExpID = 2, ej_ReRankExpID = 3\<rparr>,
            pj_RankedGroups = [\<lparr>rj_Name = ''Main'',
              rj_ItemScores = [\<lparr>sj_ItemID = 3, sj_PreRankScore = Fin 1, sj_RankScore = Fin 1, sj_ReRankScore = Fin 1\<rparr>]\<rparr>]\<rparr>
   in unmarshal_ok dec_MultiRankRequestJSON zero_rank_request (json_print (enc_MultiRankRequestJSON q)) = Some q
    \<and> (case enc_MultiRankResponseJSON one_fmt p of
         None \<Rightarrow> False
       | Some j \<Rightarrow> unmarshal_ok dec_MultiRankResponseJSON zero_rank_response (json_print j) = Some p)"
  unfolding Let_def
  by (rule wire_round_trip)
    (simp_all add: request_fits_def rank_body_def zero_ctx_def group_fits_def fits_def response_ok_def ExpInfo_fits_def
      scores_ok_def one_fmt_spells Let_def)

end
