(* ===== verification/Feature_Merge.thy ===== *)
theory Feature_Merge
  imports Feature_Store "HOL-Library.Word"
begin

unbundle bit_operations_syntax

text \<open>
  \<open>pkg/featurestore/merge.go\<close> (re-exported by the rank service as
  \<open>internal/featurestore/alias.go\<close>): a user and an item feature document become the sparse
  features of the FM model (the documents' explicit \<open>fm_sparse\<close> entries, then the semantic slots 1
  to 5) and the dense features of the TF model.
\<close>

section \<open>Feature documents\<close>

record fmEntry =
  fe_K :: "json option"
  fe_W :: float64

record userProfile =
  up_Age :: "float64 option"
  up_Gender :: "float64 option"

record userFinance =
  uf_IncomeWan :: "float64 option"

record itemStats =
  is_CTR7d :: "float64 option"
  is_Revenue7d :: "float64 option"

record featDoc =
  fd_FMSparse :: "fmEntry list"
  fd_TFDense :: "float64 list"
  fd_Age :: "float64 option"
  fd_Gender :: "float64 option"
  fd_IncomeWan :: "float64 option"
  fd_CTR7d :: "float64 option"
  fd_Revenue7d :: "float64 option"
  fd_UserProfile :: "userProfile option"
  fd_UserFinance :: "userFinance option"
  fd_ItemStats :: "itemStats option"

definition zero_featDoc :: featDoc where
  "zero_featDoc = \<lparr>fd_FMSparse = [], fd_TFDense = [], fd_Age = None, fd_Gender = None,
     fd_IncomeWan = None, fd_CTR7d = None, fd_Revenue7d = None, fd_UserProfile = None,
     fd_UserFinance = None, fd_ItemStats = None\<rparr>"

abbreviation dec_float_ptr :: "float64 option dec" where
  "dec_float_ptr \<equiv> dec_ptr 0 dec_float"

definition dec_fmEntry :: "fmEntry dec" where
  "dec_fmEntry = dec_struct [(''k'', field dec_raw fe_K fe_K_update), (''w'', field dec_float fe_W fe_W_update)]"

definition dec_userProfile :: "userProfile dec" where
  "dec_userProfile = dec_struct
     [(''age'', field dec_float_ptr up_Age up_Age_update),
      (''gender'', field dec_float_ptr up_Gender up_Gender_update)]"

definition dec_userFinance :: "userFinance dec" where
  "dec_userFinance = dec_struct [(''income_wan'', field dec_float_ptr uf_IncomeWan uf_IncomeWan_update)]"

definition dec_itemStats :: "itemStats dec" where
  "dec_itemStats = dec_struct
     [(''ctr_7d'', field dec_float_ptr is_CTR7d is_CTR7d_update),
      (''revenue_7d'', field dec_float_ptr is_Revenue7d is_Revenue7d_update)]"

definition dec_featDoc :: "featDoc dec" where
  "dec_featDoc = dec_struct
     [(''fm_sparse'', field (dec_slice \<lparr>fe_K = None, fe_W = 0\<rparr> dec_fmEntry) fd_FMSparse fd_FMSparse_update),
      (''tf_dense'', field (dec_slice 0 dec_float) fd_TFDense fd_TFDense_update),
      (''age'', field dec_float_ptr fd_Age fd_Age_update),
      (''gender'', field dec_float_ptr fd_Gender fd_Gender_update),
      (''income_wan'', field dec_float_ptr fd_IncomeWan fd_IncomeWan_update),
      (''ctr_7d'', field dec_float_ptr fd_CTR7d fd_CTR7d_update),
      (''revenue_7d'', field dec_float_ptr fd_Revenue7d fd_Revenue7d_update),
      (''user_profile'', field (dec_ptr \<lparr>up_Age = None, up_Gender = None\<rparr> dec_userProfile)
         fd_UserProfile fd_UserProfile_update),
      (''user_finance'', field (dec_ptr \<lparr>uf_IncomeWan = None\<rparr> dec_userFinance)
         fd_UserFinance fd_UserFinance_update),
      (''item_stats'', field (dec_ptr \<lparr>is_CTR7d = None, is_Revenue7d = None\<rparr> dec_itemStats)
         fd_ItemStats fd_ItemStats_update)]"

section \<open>Merging\<close>

record SparseKV =
  kv_Key :: int64
  kv_Weight :: float64

definition or_ptr :: "'a option \<Rightarrow> 'a option \<Rightarrow> 'a option" where
  "or_ptr x y = (case x of None \<Rightarrow> y | Some v \<Rightarrow> Some v)"

text \<open>The flat spelling of a feature wins over the nested one.\<close>

definition coalesceFeatDoc :: "featDoc \<Rightarrow> featDoc" where
  "coalesceFeatDoc d =
     (let d1 = (case fd_UserProfile d of
                  None \<Rightarrow> d
                | Some p \<Rightarrow> d\<lparr>fd_Age := or_ptr (fd_Age d) (up_Age p), fd_Gender := or_ptr (fd_Gender d) (up_Gender p)\<rparr>);
          d2 = (case fd_UserFinance d1 of
                  None \<Rightarrow> d1
                | Some f \<Rightarrow> d1\<lparr>fd_IncomeWan := or_ptr (fd_IncomeWan d1) (uf_IncomeWan f)\<rparr>)
      in case fd_ItemStats d2 of
           None \<Rightarrow> d2
         | Some s \<Rightarrow> d2\<lparr>fd_CTR7d := or_ptr (fd_CTR7d d2) (is_CTR7d s),
                        fd_Revenue7d := or_ptr (fd_Revenue7d d2) (is_Revenue7d s)\<rparr>)"

text \<open>\<open>int64(uint64(uint32(0)) | (uint64(uint32(field)) << 32))\<close>\<close>

definition fmSlotKey :: "int \<Rightarrow> int64" where
  "fmSlotKey fd =
     (if fd \<le> 0 then 0
      else sint ((ucast (0 :: 32 word) :: 64 word) OR push_bit 32 (ucast (word_of_int fd :: 32 word) :: 64 word)))"

definition clamp :: "float64 \<Rightarrow> float64 \<Rightarrow> float64 \<Rightarrow> float64" where
  "clamp v lo hi = (if v < lo then lo else if hi < v then hi else v)"

definition slot :: "int \<Rightarrow> (float64 \<Rightarrow> float64) \<Rightarrow> float64 option \<Rightarrow> SparseKV list" where
  "slot fd w x = (case x of None \<Rightarrow> [] | Some v \<Rightarrow> [\<lparr>kv_Key = fmSlotKey fd, kv_Weight = w v\<rparr>])"

definition appendSemanticSlots :: "SparseKV list \<Rightarrow> featDoc \<Rightarrow> featDoc \<Rightarrow> SparseKV list" where
  "appendSemanticSlots out user item =
     out
     @ slot 1 (\<lambda>v. clamp v (Fin 0) (Fin 100) / Fin 100) (fd_Age user)
     @ slot 2 (\<lambda>v. clamp v (Fin 0) (Fin 1)) (fd_Gender user)
     @ slot 3 (\<lambda>v. clamp v (Fin 1) (Fin 10) / Fin 10) (fd_IncomeWan user)
     @ slot 4 (\<lambda>v. clamp v (Fin 0) (Fin 1)) (fd_CTR7d item)
     @ slot 5 (\<lambda>v. (if v < Fin 0 then Fin 0 else v) / Fin 100000) (fd_Revenue7d item)"

text \<open>The key as a number, or as a string holding one; \<open>null\<close> is 0.\<close>

definition parseK :: "json option \<Rightarrow> int64 option" where
  "parseK raw =
     (case raw of
        None \<Rightarrow> None
      | Some j \<Rightarrow>
          (case dec_int 64 0 j of
             (n, True) \<Rightarrow> Some n
           | (_, False) \<Rightarrow>
               (case dec_string [] j of (s, True) \<Rightarrow> ParseInt s | (_, False) \<Rightarrow> None)))"

definition explicit_slots :: "featDoc \<Rightarrow> SparseKV list" where
  "explicit_slots d =
     List.map_filter (\<lambda>e. map_option (\<lambda>k. \<lparr>kv_Key = k, kv_Weight = fe_W e\<rparr>) (parseK (fe_K e))) (fd_FMSparse d)"

definition load_featDoc :: "string \<Rightarrow> bytes \<Rightarrow> go_error + featDoc" where
  "load_featDoc what raw =
     (if raw = [] then Inr zero_featDoc
      else case unmarshal_ok dec_featDoc zero_featDoc raw of
        None \<Rightarrow> Inl (DecodeError what)
      | Some d \<Rightarrow> Inr d)"

definition MergeUserItemJSON :: "bytes \<Rightarrow> bytes \<Rightarrow> go_error + SparseKV list \<times> float64 list" where
  "MergeUserItemJSON user item =
     and_then (load_featDoc ''user json'' user)
       (\<lambda>u. and_then (load_featDoc ''item json'' item)
          (\<lambda>i. let du = coalesceFeatDoc u; di = coalesceFeatDoc i;
                  out = explicit_slots du @ explicit_slots di;
                  dense = (if fd_TFDense di = [] then fd_TFDense du else fd_TFDense di)
              in Inr (appendSemanticSlots out du di, dense)))"


section \<open>Weights of the semantic slots\<close>

text \<open>Decoding never produces NaN, and neither does the coalescing.\<close>

definition no_nan :: "float64 option \<Rightarrow> bool" where
  "no_nan x = (x \<noteq> Some NaN)"

definition slots_ok :: "featDoc \<Rightarrow> bool" where
  "slots_ok d =
     (no_nan (fd_Age d) \<and> no_nan (fd_Gender d) \<and> no_nan (fd_IncomeWan d) \<and> no_nan (fd_CTR7d d) \<and>
      no_nan (fd_Revenue7d d) \<and>
      (case fd_UserProfile d of None \<Rightarrow> True | Some p \<Rightarrow> no_nan (up_Age p) \<and> no_nan (up_Gender p)) \<and>
      (case fd_UserFinance d of None \<Rightarrow> True | Some f \<Rightarrow> no_nan (uf_IncomeWan f)) \<and>
      (case fd_ItemStats d of None \<Rightarrow> True | Some s \<Rightarrow> no_nan (is_CTR7d s) \<and> no_nan (is_Revenue7d s)))"

lemma float_literal_not_NaN: "float_literal l \<noteq> Some NaN"
  by (auto simp: float_literal_def Let_def split: option.splits)

lemma dec_float_ptr_no_nan: "no_nan x \<Longrightarrow> no_nan (fst (dec_float_ptr x j))"
  using float_literal_not_NaN
  by (auto simp: dec_ptr_def dec_float_def no_nan_def map_prod_def case_prod_beta float_ops
      split: option.splits json.splits)

lemma dec_ptr_inv:
  assumes "dec_inv P d" "P z"
  shows "dec_inv (case_option True P) (dec_ptr z d)"
  using assms by (intro dec_invI) (auto simp: dec_ptr_def map_prod_def case_prod_beta dest: dec_invD split: option.splits)

lemma dec_userProfile_inv: "dec_inv (\<lambda>p. no_nan (up_Age p) \<and> no_nan (up_Gender p)) dec_userProfile"
  unfolding dec_userProfile_def
  by (intro dec_inv_struct) (auto intro!: dec_inv_field dec_float_ptr_no_nan)

lemma dec_userFinance_inv: "dec_inv (\<lambda>f. no_nan (uf_IncomeWan f)) dec_userFinance"
  unfolding dec_userFinance_def
  by (intro dec_inv_struct) (auto intro!: dec_inv_field dec_float_ptr_no_nan)

lemma dec_itemStats_inv: "dec_inv (\<lambda>s. no_nan (is_CTR7d s) \<and> no_nan (is_Revenue7d s)) dec_itemStats"
  unfolding dec_itemStats_def
  by (intro dec_inv_struct) (auto intro!: dec_inv_field dec_float_ptr_no_nan)

lemma no_nan_None [simp]: "no_nan None"
  by (simp add: no_nan_def)

lemma dec_featDoc_inv: "dec_inv slots_ok dec_featDoc"
proof -
  note nested = dec_invD[OF dec_ptr_inv[OF dec_userProfile_inv]]
    dec_invD[OF dec_ptr_inv[OF dec_userFinance_inv]] dec_invD[OF dec_ptr_inv[OF dec_itemStats_inv]]
  show ?thesis
    unfolding dec_featDoc_def
    by (intro dec_inv_struct) (auto simp: slots_ok_def intro!: dec_inv_field dec_float_ptr_no_nan nested)
qed

lemma load_featDoc_ok: "load_featDoc what raw = Inr d \<Longrightarrow> slots_ok d"
  using unmarshal_ok_inv[OF dec_featDoc_inv, of zero_featDoc raw d]
  by (auto simp: load_featDoc_def zero_featDoc_def slots_ok_def split: if_splits option.splits)

lemma coalesce_ok: "slots_ok d \<Longrightarrow> slots_ok (coalesceFeatDoc d)"
  by (auto simp: coalesceFeatDoc_def slots_ok_def or_ptr_def Let_def split: option.splits)

definition unit_weight :: "float64 \<Rightarrow> bool" where
  "unit_weight w = (nonneg w \<and> w \<le> Fin 1)"

lemma mk64_unit: "0 \<le> x \<Longrightarrow> x \<le> 1 \<Longrightarrow> unit_weight (mk64 s x)"
proof -
  assume x: "0 \<le> x" "x \<le> 1"
  have "round_bin 53 (-1074) x \<le> 1" using round_bin_mono[OF x(2), of 53 "-1074"] by simp
  moreover have "\<not> (2::rat) powi 1024 \<le> \<bar>round_bin 53 (-1074) x\<bar>"
  proof -
    have "\<bar>round_bin 53 (-1074) x\<bar> \<le> (2::rat) powi 0"
      using calculation round_bin_nonneg[OF x(1), of 53 "-1074"] by simp
    also have "(2::rat) powi 0 < 2 powi 1024" by (simp only: powi2_less_iff)
    finally show ?thesis by (simp only: not_le)
  qed
  ultimately show ?thesis
    using fmake_nonneg[OF x(1), of 53 "-1074" 1024 s]
    by (auto simp: unit_weight_def fmake_def Let_def float_ops fle_def simp del: power_int_numeral)
qed

lemma clamp_cases:
  assumes "v \<noteq> NaN" "lo \<le> hi"
  shows "(\<exists>r. clamp v (Fin lo) (Fin hi) = Fin r \<and> lo \<le> r \<and> r \<le> hi) \<or> clamp v (Fin lo) (Fin hi) = NegZero"
  using assms by (cases v) (auto simp: clamp_def float_ops)

lemma clamp_scaled_unit:
  assumes "v \<noteq> NaN" "0 \<le> lo" "lo \<le> hi" "0 < hi"
  shows "unit_weight (clamp v (Fin lo) (Fin hi) / Fin hi)"
  using clamp_cases[OF assms(1,3)] assms
  by (auto simp: float_ops fdiv_def Let_def intro!: mk64_unit)

lemma clamp_unit: "v \<noteq> NaN \<Longrightarrow> unit_weight (clamp v (Fin 0) (Fin 1))"
  using clamp_cases[of v 0 1] by (auto simp: unit_weight_def float_ops fle_def)

lemma revenue_nonneg: "v \<noteq> NaN \<Longrightarrow> nonneg ((if v < Fin 0 then Fin 0 else v) / Fin 100000)"
  by (cases v) (auto simp: float_ops fdiv_def Let_def intro!: fmake_nonneg)

lemma fmSlotKey_values:
  "map fmSlotKey [1, 2, 3, 4, 5] = [4294967296, 8589934592, 12884901888, 17179869184, 21474836480]"
  by code_simp

lemma slot_all:
  "no_nan x \<Longrightarrow> (\<And>v. v \<noteq> NaN \<Longrightarrow> P \<lparr>kv_Key = fmSlotKey fd, kv_Weight = w v\<rparr>) \<Longrightarrow> list_all P (slot fd w x)"
  by (auto simp: slot_def no_nan_def split: option.split)

lemma semantic_slots:
  assumes "slots_ok u" "slots_ok i"
  shows "list_all (\<lambda>kv. nonneg (kv_Weight kv) \<and> (kv_Weight kv \<le> Fin 1 \<or> kv_Key kv = fmSlotKey 5))
      (appendSemanticSlots [] u i)"
    and "distinct (map kv_Key (appendSemanticSlots [] u i))"
    and "set (map kv_Key (appendSemanticSlots [] u i)) \<subseteq> set (map fmSlotKey [1, 2, 3, 4, 5])"
proof -
  let ?P = "\<lambda>kv. nonneg (kv_Weight kv) \<and> (kv_Weight kv \<le> Fin 1 \<or> kv_Key kv = fmSlotKey 5)"
  have n: "no_nan (fd_Age u)" "no_nan (fd_Gender u)" "no_nan (fd_IncomeWan u)" "no_nan (fd_CTR7d i)"
    "no_nan (fd_Revenue7d i)" using assms by (simp_all add: slots_ok_def)
  have u: "?P \<lparr>kv_Key = k, kv_Weight = w\<rparr>" if "unit_weight w" for k w
    using that by (simp add: unit_weight_def)
  have "list_all ?P (slot 1 (\<lambda>v. clamp v (Fin 0) (Fin 100) / Fin 100) (fd_Age u))"
    by (rule slot_all[OF n(1)], rule u, rule clamp_scaled_unit) simp_all
  moreover have "list_all ?P (slot 2 (\<lambda>v. clamp v (Fin 0) (Fin 1)) (fd_Gender u))"
    by (rule slot_all[OF n(2)], rule u, rule clamp_unit)
  moreover have "list_all ?P (slot 3 (\<lambda>v. clamp v (Fin 1) (Fin 10) / Fin 10) (fd_IncomeWan u))"
    by (rule slot_all[OF n(3)], rule u, rule clamp_scaled_unit) simp_all
  moreover have "list_all ?P (slot 4 (\<lambda>v. clamp v (Fin 0) (Fin 1)) (fd_CTR7d i))"
    by (rule slot_all[OF n(4)], rule u, rule clamp_unit)
  moreover have "list_all ?P (slot 5 (\<lambda>v. (if v < Fin 0 then Fin 0 else v) / Fin 100000) (fd_Revenue7d i))"
    by (rule slot_all[OF n(5)]) (simp add: revenue_nonneg)
  ultimately show "list_all ?P (appendSemanticSlots [] u i)"
    unfolding appendSemanticSlots_def by (simp only: list_all_append list.pred_inject append_Nil simp_thms)
  show "distinct (map kv_Key (appendSemanticSlots [] u i))"
    using fmSlotKey_values by (auto simp: appendSemanticSlots_def slot_def split: option.split)
  show "set (map kv_Key (appendSemanticSlots [] u i)) \<subseteq> set (map fmSlotKey [1, 2, 3, 4, 5])"
    by (auto simp: appendSemanticSlots_def slot_def split: option.split)
qed

lemma appendSemanticSlots_append: "appendSemanticSlots out u i = out @ appendSemanticSlots [] u i"
  by (simp add: appendSemanticSlots_def)

text \<open>C23: merging fails exactly when one of the two documents does not decode (a missing document is an
  empty one). Otherwise the sparse features are the explicit entries of the user and then of the item,
  followed by at most one entry per semantic slot; every semantic weight is a non-negative number,
  at most 1 except for the revenue slot, whatever numbers the documents hold.\<close>

theorem MergeUserItemJSON_slots:
  "case (load_featDoc ''user json'' user, load_featDoc ''item json'' item) of
     (Inl e, _) \<Rightarrow> MergeUserItemJSON user item = Inl e
   | (Inr u, Inl e) \<Rightarrow> MergeUserItemJSON user item = Inl e
   | (Inr u, Inr i) \<Rightarrow>
       (case MergeUserItemJSON user item of
          Inl e \<Rightarrow> False
        | Inr (sparse, dense) \<Rightarrow>
            (let explicit = explicit_slots u @ explicit_slots i; semantic = drop (length explicit) sparse in
             sparse = explicit @ semantic
             \<and> distinct (map kv_Key semantic)
             \<and> set (map kv_Key semantic) \<subseteq> set (map fmSlotKey [1, 2, 3, 4, 5])
             \<and> list_all (\<lambda>kv. nonneg (kv_Weight kv) \<and> (kv_Weight kv \<le> Fin 1 \<or> kv_Key kv = fmSlotKey 5)) semantic
             \<and> dense = (if fd_TFDense i = [] then fd_TFDense u else fd_TFDense i)))"
proof -
  have c: "fd_FMSparse (coalesceFeatDoc d) = fd_FMSparse d" "fd_TFDense (coalesceFeatDoc d) = fd_TFDense d" for d
    by (simp_all add: coalesceFeatDoc_def Let_def split: option.split)
  have e: "explicit_slots (coalesceFeatDoc d) = explicit_slots d" for d by (simp add: explicit_slots_def c)
  show ?thesis
    using semantic_slots[OF coalesce_ok coalesce_ok] load_featDoc_ok
    by (auto simp: MergeUserItemJSON_def Let_def e c appendSemanticSlots_append[of "_ @ _"] simp del: set_map list.map
        split: sum.split)
qed

end
