(* ===== verification/FM_Model.thy ===== *)
theory FM_Model
  imports Feature_Merge
begin

text \<open>
  The factorization machine of the rank service (\<open>rankengine/fm.go\<close>, \<open>trans.go\<close>, \<open>features.go\<close>):
  packed field-value keys, the legacy text formats, the score, and the placeholder features. The
  file system, \<open>math.Exp\<close>, Go's map iteration order and the spellings of a float that are not
  plain decimals (infinities, NaN, hexadecimal) are parameters.
\<close>

section \<open>Packed keys\<close>

definition packFieldValue :: "int \<Rightarrow> int \<Rightarrow> int64" where
  "packFieldValue fd v =
     sint ((ucast (word_of_int v :: 32 word) :: 64 word) OR
           push_bit 32 (ucast (word_of_int fd :: 32 word) :: 64 word))"

definition fieldValueFromIndex :: "int64 \<Rightarrow> int64" where
  "fieldValueFromIndex index =
     (let fd = drop_bit 32 index in
      if fd = 0 then packFieldValue (drop_bit 24 index AND 0xFF) (index AND 0xFFFFFF)
      else if 0 < fd then index
      else 0)"

section \<open>Reading a model\<close>

text \<open>
  \<open>bufio.Scanner\<close> over lines: the final line need not be terminated, a carriage return at the end
  is dropped, and a line that does not fit the 64 KiB buffer ends the scan.
\<close>

definition drop_cr :: "string \<Rightarrow> string" where
  "drop_cr s = (if s \<noteq> [] \<and> last s = CHR 0x0D then butlast s else s)"

definition scan_lines :: "bytes \<Rightarrow> string list" where
  "scan_lines s =
     (let ls = split_on (CHR 0x0A) s; ls' = (if last ls = [] then butlast ls else ls) in
      map drop_cr (takeWhile (\<lambda>l. length l < 65536) ls'))"

text \<open>\<open>strconv.ParseFloat(s, 64)\<close>; \<open>other\<close> decides what is not a decimal literal.\<close>

definition ParseFloat :: "(string \<Rightarrow> float64 option) \<Rightarrow> string \<Rightarrow> float64 option" where
  "ParseFloat other s = (case parse_decimal s of None \<Rightarrow> other s | Some _ \<Rightarrow> float_literal s)"

record FMModel =
  fm_Factor :: int
  fm_W0 :: float64
  fm_W1 :: "int64 \<rightharpoonup> float64"
  fm_W2 :: "int64 \<rightharpoonup> float64 list"

fun parse_floats :: "(string \<Rightarrow> float64 option) \<Rightarrow> string list \<Rightarrow> go_error + float64 list" where
  "parse_floats other [] = Inr []"
| "parse_floats other (t # ts) =
     (case ParseFloat other t of
        None \<Rightarrow> Inl (FMBadNumber t)
      | Some v \<Rightarrow> and_then (parse_floats other ts) (\<lambda>vs. Inr (v # vs)))"

definition fm_line :: "(string \<Rightarrow> float64 option) \<Rightarrow> string \<Rightarrow> FMModel \<Rightarrow> go_error + FMModel" where
  "fm_line other raw m =
     (let line = TrimSpace raw; tok = Fields line; k = nat (fm_Factor m) in
      if line = [] then Inr m
      else if length tok < 2 + k then Inl (FMShortLine (2 + k) (length tok))
      else
        (case ParseInt (tok ! 0) of
           None \<Rightarrow> Inl (FMBadNumber (tok ! 0))
         | Some idx \<Rightarrow>
             (case ParseFloat other (tok ! 1) of
                None \<Rightarrow> Inl (FMBadNumber (tok ! 1))
              | Some w1 \<Rightarrow>
                  and_then (parse_floats other (take k (drop 2 tok)))
                    (\<lambda>vec. let fv = fieldValueFromIndex idx in
                       Inr (m\<lparr>fm_W1 := (fm_W1 m)(fv \<mapsto> w1), fm_W2 := (fm_W2 m)(fv \<mapsto> vec)\<rparr>)))))"

definition LoadFMModel ::
  "(string \<Rightarrow> go_error + bytes) \<Rightarrow> (string \<Rightarrow> float64 option) \<Rightarrow> string \<Rightarrow> int \<Rightarrow> go_error + FMModel" where
  "LoadFMModel open_file other path cfgFactor =
     (if path = [] then Inl FMEmptyPath
      else and_then (open_file path)
        (\<lambda>content. case scan_lines content of
             [] \<Rightarrow> Inl FMEmptyFile
           | first # rest \<Rightarrow>
               (let head = Fields first in
                if length head \<noteq> 4 then Inl (FMBadHeader (length head))
                else
                  (case ParseFloat other (head ! 1) of
                     None \<Rightarrow> Inl (FMBadNumber (head ! 1))
                   | Some w0 \<Rightarrow>
                       if cfgFactor \<le> 0 then Inl FMBadFactor
                       else fold_try (fm_line other) rest
                         \<lparr>fm_Factor = cfgFactor, fm_W0 = w0, fm_W1 = Map.empty, fm_W2 = Map.empty\<rparr>))))"

section \<open>The score\<close>

record SparseFeature =
  sf_Key :: int64
  sf_Weight :: float64

text \<open>The three accumulators of \<open>Predict\<close>: the linear score, the factor sums and their squares.\<close>

type_synonym fm_acc = "float64 \<times> float64 list \<times> float64 list"

definition predict_step :: "FMModel \<Rightarrow> SparseFeature \<Rightarrow> fm_acc \<Rightarrow> fm_acc" where
  "predict_step m fe acc =
     (case acc of
        (score, vec, sqr) \<Rightarrow>
          (let score' = (case fm_W1 m (sf_Key fe) of None \<Rightarrow> score | Some w1 \<Rightarrow> score + w1 * sf_Weight fe) in
           case fm_W2 m (sf_Key fe) of
             None \<Rightarrow> (score', vec, sqr)
           | Some w2 \<Rightarrow>
               if int (length w2) = fm_Factor m then
                 (let ds = map (\<lambda>w. w * sf_Weight fe) w2 in
                  (score', map2 (+) vec ds, map2 (\<lambda>s d. s + d * d) sqr ds))
               else (score', vec, sqr)))"

definition fm_score :: "FMModel \<Rightarrow> SparseFeature list \<Rightarrow> float64" where
  "fm_score m features =
     (let z = replicate (nat (fm_Factor m)) 0;
          (score, vec, sqr) = fold (predict_step m) features (fm_W0 m, z, z);
          tmp = fold (\<lambda>(s, q) t. t + (s * s - q)) (zip vec sqr) 0
      in score + Fin (1 / 2) * tmp)"

definition Predict :: "(float64 \<Rightarrow> float64) \<Rightarrow> FMModel option \<Rightarrow> SparseFeature list \<Rightarrow> float64" where
  "Predict exp_fn model features =
     (case model of
        None \<Rightarrow> 0
      | Some m \<Rightarrow> Fin 1 / (Fin 1 + exp_fn (- fm_score m features)))"

section \<open>The field table and placeholder features\<close>

text \<open>A Go map as an association list with distinct keys, in insertion order.\<close>

record FMTrans =
  tr_AllFieldCount :: int
  tr_FieldTrans :: "(int \<times> int) list"

text \<open>One line; conversion errors are ignored by the code, which goes on with the value returned.\<close>

definition trans_line :: "string \<Rightarrow> (int \<times> int) list \<times> int \<Rightarrow> go_error + (int \<times> int) list \<times> int" where
  "trans_line raw st =
     (case st of
        (ft, tot) \<Rightarrow>
          (let line = TrimSpace raw; parts = Fields line in
           if line = [] then Inr (ft, tot)
           else if length parts \<noteq> 2 then Inl (TransBadLine line)
           else
             (let fd = fst (parse_int (parts ! 0)); cnt = fst (parse_int (parts ! 1)) in
              if fd \<le> 0 \<or> cnt < 0 then Inl (TransInvalidField line)
              else Inr (AList.update fd cnt ft, wrap64 (tot + cnt)))))"

definition LoadFMTrans :: "(string \<Rightarrow> go_error + bytes) \<Rightarrow> string \<Rightarrow> go_error + FMTrans" where
  "LoadFMTrans open_file path =
     (if path = [] then Inr \<lparr>tr_AllFieldCount = 0, tr_FieldTrans = []\<rparr>
      else and_then (open_file path)
        (\<lambda>content. case scan_lines content of
             [] \<Rightarrow> Inl TransEmptyFile
           | first # rest \<Rightarrow>
               (case ParseInt (TrimSpace first) of
                  None \<Rightarrow> Inl (TransBadHeader first)
                | Some all \<Rightarrow>
                    and_then (fold_try trans_line rest ([], 0))
                      (\<lambda>(ft, tot).
                         if tot \<noteq> all then Inl (TransSumMismatch tot all)
                         else Inr \<lparr>tr_AllFieldCount = all, tr_FieldTrans = ft\<rparr>))))"

text \<open>\<open>hash/fnv\<close>: the 64-bit FNV-1a hash.\<close>

definition fnv64a :: "string \<Rightarrow> 64 word" where
  "fnv64a s = fold (\<lambda>c h. (h XOR of_char c) * 1099511628211) s 14695981039346656037"

definition crossFeatureKey :: "int64 \<Rightarrow> int64 \<Rightarrow> int64" where
  "crossFeatureKey userID itemID =
     (let v = fnv64a (Sprintf ''u:%d:i:%d'' [FInt ''int64'' userID, FInt ''int64'' itemID]) AND 0x0fffffff
      in sint (push_bit 32 (1 :: 64 word) OR v))"

definition placeholder_key :: "int64 \<Rightarrow> int64 \<Rightarrow> int \<Rightarrow> int \<Rightarrow> int64" where
  "placeholder_key userID itemID fd i =
     (let h = fnv64a (Sprintf ''%d:%d:%d:%d''
                [FInt ''int64'' userID, FInt ''int64'' itemID, FInt ''int'' fd, FInt ''int'' i]);
          v = h AND 0xffffffff
      in if 0 < fd then sint (push_bit 32 (word_of_int fd :: 64 word) OR v)
         else packFieldValue (uint (drop_bit 24 v AND 0xFF)) (uint (v AND 0xffffff)))"

definition BuildPlaceholderSparse ::
  "((int \<times> int) list \<Rightarrow> (int \<times> int) list) \<Rightarrow> int64 \<Rightarrow> int64 \<Rightarrow> FMTrans option \<Rightarrow> SparseFeature list" where
  "BuildPlaceholderSparse ord userID itemID tbl =
     (case tbl of
        None \<Rightarrow> [\<lparr>sf_Key = crossFeatureKey userID itemID, sf_Weight = 1\<rparr>]
      | Some t \<Rightarrow>
          if tr_FieldTrans t = [] then [\<lparr>sf_Key = crossFeatureKey userID itemID, sf_Weight = 1\<rparr>]
          else concat (map (\<lambda>(fd, cnt).
                 map (\<lambda>i. \<lparr>sf_Key = placeholder_key userID itemID fd (int i), sf_Weight = 1\<rparr>) [0..<nat cnt])
               (ord (tr_FieldTrans t))))"


section \<open>Keys\<close>

lemma word32_uint: "uint (word_of_int v :: 32 word) = v mod 2 ^ 32"
  by (simp add: uint_word_of_int)

lemma pack_uint:
  "uint ((ucast (v :: 32 word) :: 64 word) OR push_bit 32 (ucast (f :: 32 word) :: 64 word)) =
   uint v + 2 ^ 32 * uint f"
proof -
  have v: "uint v < 2 ^ 32" and f: "uint f < 2 ^ 32" and nn: "0 \<le> uint v" "0 \<le> uint f"
    using uint_bounded[of v] uint_bounded[of f] by simp_all
  have t: "take_bit 64 (uint v) = uint v" "take_bit 64 (uint f) = uint f"
    using v f nn by (intro take_bit_int_eq_self; simp)+
  have "uint ((ucast v :: 64 word) OR push_bit 32 (ucast f :: 64 word)) =
        uint v OR take_bit 64 (push_bit 32 (uint f))"
    by (simp add: unsigned_or_eq unsigned_push_bit_eq unsigned_ucast_eq t)
  also have "take_bit 64 (push_bit 32 (uint f)) = push_bit 32 (uint f)"
    using f nn by (intro take_bit_int_eq_self) (simp_all add: push_bit_eq_mult)
  also have "uint v OR push_bit 32 (uint f) = uint v + push_bit 32 (uint f)"
  proof (rule disjunctive_add[symmetric])
    fix n
    show "\<not> bit (uint v) n \<or> \<not> bit (push_bit 32 (uint f)) n"
    proof (cases "n < 32")
      case False
      have "bit (uint v) n = bit (take_bit 32 (uint v)) n" using v nn by (simp add: take_bit_int_eq_self)
      then show ?thesis using False by (simp add: bit_take_bit_iff)
    qed (simp add: bit_push_bit_iff)
  qed
  finally show ?thesis by (simp add: push_bit_eq_mult algebra_simps)
qed

lemma packFieldValue_value:
  assumes "0 \<le> fd" "fd < 2 ^ 31" "0 \<le> v" "v < 2 ^ 32"
  shows "packFieldValue fd v = fd * 2 ^ 32 + v"
proof -
  have "uint (word_of_int v :: 32 word) = v" "uint (word_of_int fd :: 32 word) = fd"
    using assms by (simp_all add: word32_uint)
  then have u: "uint ((ucast (word_of_int v :: 32 word) :: 64 word) OR
      push_bit 32 (ucast (word_of_int fd :: 32 word) :: 64 word)) = fd * 2 ^ 32 + v"
    by (simp add: pack_uint)
  have "sint w = uint w" if "uint w < 2 ^ 63" for w :: "64 word"
    using that order_trans[of "- (2 ^ 63)" 0 "uint w"] by (simp add: sint_uint signed_take_bit_int_eq_self)
  then show ?thesis unfolding packFieldValue_def using u assms by simp
qed

lemma mask_mod: "x AND 0xFF = x mod 2 ^ 8" "x AND 0xFFFFFF = x mod 2 ^ 24" for x :: int
  using and_exp_eq_0_iff_not_bit[of x 8] take_bit_eq_mask[of 8 x] take_bit_eq_mask[of 24 x]
  by (simp_all add: mask_eq_exp_minus_1 take_bit_eq_mod)

lemma fieldValueFromIndex_cases:
  "fieldValueFromIndex index =
   (if index < 0 then 0
    else if index < 2 ^ 32 then index div 2 ^ 24 * 2 ^ 32 + index mod 2 ^ 24
    else index)"
proof -
  have d: "drop_bit 32 index = index div 2 ^ 32" "drop_bit 24 index = index div 2 ^ 24"
    by (simp_all add: drop_bit_eq_div)
  show ?thesis
  proof (cases "0 \<le> index \<and> index < 2 ^ 32")
    case True
    then have q: "index div 2 ^ 24 < 2 ^ 8" "0 \<le> index div 2 ^ 24" by (auto simp: div_less_iff_less_mult)
    then have "index div 2 ^ 24 mod 2 ^ 8 = index div 2 ^ 24" by (intro mod_pos_pos_trivial)
    moreover have "0 \<le> index mod 2 ^ 24" "index mod 2 ^ 24 < 2 ^ 24" by simp_all
    then have "packFieldValue (index div 2 ^ 24) (index mod 2 ^ 24) = index div 2 ^ 24 * 2 ^ 32 + index mod 2 ^ 24"
      using q by (intro packFieldValue_value) simp_all
    moreover have "index div 2 ^ 32 = 0" using True by simp
    ultimately show ?thesis using True by (simp only: fieldValueFromIndex_def Let_def d mask_mod) simp
  next
    case False
    then have "index div 2 ^ 32 \<noteq> 0" "0 < index div 2 ^ 32 \<longleftrightarrow> 0 \<le> index"
      by (auto simp: zdiv_eq_0_iff pos_imp_zdiv_pos_iff)
    then show ?thesis using False by (auto simp: fieldValueFromIndex_def Let_def d)
  qed
qed


text \<open>C24: the keys of the FM model: packing a legacy 32-bit index (one byte of field, three of value) can be
  undone, an index that carries its field in the upper half is its own key, keying twice changes nothing,
  and the slot keys the feature store writes are the keys the rank service packs.\<close>

theorem fieldValueFromIndex_keys:
  fixes w :: "32 word"
  shows "(let k = fieldValueFromIndex (uint w) in
           k div 2 ^ 32 * 2 ^ 24 + k mod 2 ^ 32 = uint w \<and> k div 2 ^ 32 = uint w div 2 ^ 24)
    \<and> fieldValueFromIndex (fieldValueFromIndex i) = fieldValueFromIndex i
    \<and> fieldValueFromIndex i = (if 2 ^ 32 \<le> i then i else if i < 0 then 0 else
           packFieldValue (i div 2 ^ 24) (i mod 2 ^ 24))
    \<and> fmSlotKey fd = (if fd \<le> 0 then 0 else packFieldValue fd 0)"
proof (intro conjI)
  have b: "0 \<le> uint w" "uint w < 2 ^ 32" using uint_bounded[of w] by simp_all
  have m: "0 \<le> uint w mod 2 ^ 24" "uint w mod 2 ^ 24 < 2 ^ 24" by simp_all
  let ?k = "uint w div 2 ^ 24 * 2 ^ 32 + uint w mod 2 ^ 24"
  have "?k div 2 ^ 32 = uint w div 2 ^ 24" "?k mod 2 ^ 32 = uint w mod 2 ^ 24"
    using m by simp_all
  then show "let k = fieldValueFromIndex (uint w) in
      k div 2 ^ 32 * 2 ^ 24 + k mod 2 ^ 32 = uint w \<and> k div 2 ^ 32 = uint w div 2 ^ 24"
    using b div_mult_mod_eq[of "uint w" "2 ^ 24"] by (simp add: fieldValueFromIndex_cases Let_def)
  show "fieldValueFromIndex (fieldValueFromIndex i) = fieldValueFromIndex i"
  proof (cases "0 \<le> i \<and> i < 2 ^ 32")
    case True
    have r: "0 \<le> i mod 2 ^ 24" "i mod 2 ^ 24 < 2 ^ 24" by simp_all
    show ?thesis
    proof (cases "i div 2 ^ 24 = 0")
      case False
      then have "1 \<le> i div 2 ^ 24" using True pos_imp_zdiv_nonneg_iff[of "2 ^ 24" i] by simp
      then have "1 * 2 ^ 32 \<le> i div 2 ^ 24 * 2 ^ 32" by (rule mult_right_mono) simp
      then have "2 ^ 32 \<le> i div 2 ^ 24 * 2 ^ 32 + i mod 2 ^ 24" using r by simp
      then show ?thesis using True by (simp add: fieldValueFromIndex_cases)
    qed (use True r in \<open>simp add: fieldValueFromIndex_cases\<close>)
  qed (auto simp: fieldValueFromIndex_cases)
  show "fieldValueFromIndex i = (if 2 ^ 32 \<le> i then i else if i < 0 then 0 else
      packFieldValue (i div 2 ^ 24) (i mod 2 ^ 24))"
  proof (cases "0 \<le> i \<and> i < 2 ^ 32")
    case True
    then have "0 \<le> i div 2 ^ 24" "i div 2 ^ 24 < 2 ^ 31"
      by (auto simp: div_less_iff_less_mult pos_imp_zdiv_nonneg_iff)
    then have "packFieldValue (i div 2 ^ 24) (i mod 2 ^ 24) = i div 2 ^ 24 * 2 ^ 32 + i mod 2 ^ 24"
      by (intro packFieldValue_value) (simp_all add: order_less_trans[OF pos_mod_bound])
    then show ?thesis using True by (simp add: fieldValueFromIndex_cases)
  qed (auto simp: fieldValueFromIndex_cases)
  show "fmSlotKey fd = (if fd \<le> 0 then 0 else packFieldValue fd 0)"
    by (simp add: fmSlotKey_def packFieldValue_def)
qed

section \<open>Loaded models and their score\<close>

definition fm_wf :: "FMModel \<Rightarrow> bool" where
  "fm_wf m = (0 < fm_Factor m \<and> dom (fm_W2 m) = dom (fm_W1 m) \<and>
     (\<forall>v\<in>ran (fm_W2 m). int (length v) = fm_Factor m))"

lemma parse_floats_length: "parse_floats other ts = Inr vs \<Longrightarrow> length vs = length ts"
  by (induction ts arbitrary: vs) (auto simp: and_then_Inr split: option.splits)

lemma fm_line_wf:
  assumes "fm_line other raw m = Inr m'" "fm_wf m"
  shows "fm_wf m' \<and> fm_Factor m' = fm_Factor m"
proof -
  let ?tok = "Fields (TrimSpace raw)" and ?k = "nat (fm_Factor m)"
  consider "m' = m"
    | fv w1 vec where "m' = m\<lparr>fm_W1 := (fm_W1 m)(fv \<mapsto> w1), fm_W2 := (fm_W2 m)(fv \<mapsto> vec)\<rparr>"
        "length vec = ?k"
    using assms(1) parse_floats_length[of other "take ?k (drop 2 ?tok)"]
    by (auto simp: fm_line_def Let_def and_then_Inr min_def split: if_splits option.splits)
  then show ?thesis
    using assms(2) by cases (auto simp: fm_wf_def ran_def)
qed

lemma LoadFMModel_wf:
  assumes "LoadFMModel open_file other path k = Inr m"
  shows "fm_wf m \<and> fm_Factor m = k"
proof -
  have "path \<noteq> []" using assms by (auto simp: LoadFMModel_def)
  with assms obtain content where c: "open_file path = Inr content"
    by (cases "open_file path") (simp_all add: LoadFMModel_def)
  with assms \<open>path \<noteq> []\<close> obtain first rest where l: "scan_lines content = first # rest"
    by (cases "scan_lines content") (simp_all add: LoadFMModel_def)
  obtain w0 where f: "fold_try (fm_line other) rest
      \<lparr>fm_Factor = k, fm_W0 = w0, fm_W1 = Map.empty, fm_W2 = Map.empty\<rparr> = Inr m" and k: "0 < k"
    using assms \<open>path \<noteq> []\<close> c l
    by (cases "ParseFloat other (Fields first ! 1)") (simp_all add: LoadFMModel_def Let_def split: if_splits)
  show ?thesis
    using f
  proof (rule fold_try_invariant)
    show "fm_wf \<lparr>fm_Factor = k, fm_W0 = w0, fm_W1 = Map.empty, fm_W2 = Map.empty\<rparr> \<and>
        fm_Factor \<lparr>fm_Factor = k, fm_W0 = w0, fm_W1 = Map.empty, fm_W2 = Map.empty\<rparr> = k"
      using k by (simp add: fm_wf_def)
  qed (use fm_line_wf in blast)
qed

lemma predict_step_unknown:
  "fm_wf m \<Longrightarrow> sf_Key fe \<notin> dom (fm_W1 m) \<Longrightarrow> predict_step m fe acc = acc"
  by (cases acc) (auto simp: predict_step_def fm_wf_def split: option.splits)

lemma fm_score_known:
  assumes "fm_wf m"
  shows "fm_score m (filter (\<lambda>fe. sf_Key fe \<in> dom (fm_W1 m)) features) = fm_score m features"
proof -
  have "fold (predict_step m) (filter (\<lambda>fe. sf_Key fe \<in> dom (fm_W1 m)) features) acc =
        fold (predict_step m) features acc" for acc
    using predict_step_unknown[OF assms] by (induction features arbitrary: acc) auto
  then show ?thesis by (simp add: fm_score_def)
qed

text \<open>What \<open>math.Exp\<close> documents: only NaN gives NaN, and no result is negative.\<close>

definition exp_ok :: "(float64 \<Rightarrow> float64) \<Rightarrow> bool" where
  "exp_ok e \<longleftrightarrow> (\<forall>x. if x = NaN then e x = NaN else nonneg (e x))"

lemma one_plus_nonneg:
  assumes "nonneg x"
  shows "\<exists>r. Fin 1 + x = Fin r \<and> 1 \<le> r \<or> Fin 1 + x = Inf False"
proof -
  have "\<exists>r. mk64 s x = Fin r \<and> 1 \<le> r \<or> mk64 s x = Inf False" if "1 \<le> x" for x s
    using round_bin_mono[OF that, of 53 "-1074"] by (auto simp: fmake_def Let_def)
  from this[of "1 + fval x" False] show ?thesis
    using nonneg_cases[OF assms] by (auto simp: float_ops fadd_def)
qed

lemma sigmoid_unit: "nonneg x \<Longrightarrow> unit_weight (Fin 1 / (Fin 1 + x))"
  using one_plus_nonneg[of x] mk64_unit[of "1 / _" False]
  by (auto simp: float_ops fdiv_def Let_def unit_weight_def fle_def)

text \<open>C25: a model that loads has the configured factor, and a weight vector of that length for exactly the
  keys with a linear weight; features of other keys do not change the score. The prediction is a
  probability, a number in [0, 1], unless the score itself is not a number.\<close>

theorem Predict_loaded_model:
  assumes "LoadFMModel open_file other path k = Inr m" "exp_ok e"
  shows "fm_Factor m = k \<and> dom (fm_W2 m) = dom (fm_W1 m)
    \<and> list_all (\<lambda>fe. case fm_W2 m (sf_Key fe) of None \<Rightarrow> fm_W1 m (sf_Key fe) = None
                    | Some v \<Rightarrow> int (length v) = k) features
    \<and> Predict e (Some m) features = Predict e (Some m) (filter (\<lambda>fe. sf_Key fe \<in> dom (fm_W1 m)) features)
    \<and> (if fm_score m features = NaN then Predict e (Some m) features = NaN
       else nonneg (Predict e (Some m) features) \<and> Predict e (Some m) features \<le> Fin 1)"
proof -
  have wf: "fm_wf m" "fm_Factor m = k" using LoadFMModel_wf[OF assms(1)] by simp_all
  have "- fm_score m features = NaN \<longleftrightarrow> fm_score m features = NaN"
    by (cases "fm_score m features") (auto simp: float_ops)
  then have "if fm_score m features = NaN then e (- fm_score m features) = NaN else nonneg (e (- fm_score m features))"
    using assms(2) unfolding exp_ok_def by (metis (full_types))
  then have "if fm_score m features = NaN then Predict e (Some m) features = NaN
       else nonneg (Predict e (Some m) features) \<and> Predict e (Some m) features \<le> Fin 1"
    using sigmoid_unit[of "e (- fm_score m features)"]
    by (auto simp: Predict_def unit_weight_def float_ops fadd_def fdiv_def)
  then show ?thesis
    using wf fm_score_known[OF wf(1), of features]
    by (auto simp: fm_wf_def Predict_def list_all_iff ran_def split: option.split)
qed

definition fm_example_file :: bytes where
  "fm_example_file = ''fm 0.5 1 1'' @ [CHR 0x0A] @ ''7 2 4 -1'' @ [CHR 0x0A]"

lemma fm_example_lines: "scan_lines fm_example_file = [''fm 0.5 1 1'', ''7 2 4 -1'']"
  by (simp add: scan_lines_def fm_example_file_def drop_cr_def Let_def)

lemma fm_example_numbers:
  "ParseFloat f ''0.5'' = Some (Fin (1 / 2))" "ParseFloat f ''2'' = Some (Fin 2)"
  "ParseFloat f ''4'' = Some (Fin 4)" "ParseFloat f ''-1'' = Some (Fin (- 1))"
proof -
  have "parse_decimal ''0.5'' = Some (False, 1 / 2)" "parse_decimal ''2'' = Some (False, 2)"
    "parse_decimal ''4'' = Some (False, 4)" "parse_decimal ''-1'' = Some (True, 1)"
    by (simp_all add: parse_decimal_def take_sign_def span_digits_def dec_exponent_def is_digit_def dec_nat_def
        digit_val_def)
  then show "ParseFloat f ''0.5'' = Some (Fin (1 / 2))" "ParseFloat f ''2'' = Some (Fin 2)"
    "ParseFloat f ''4'' = Some (Fin 4)" "ParseFloat f ''-1'' = Some (Fin (- 1))"
    by (simp_all add: ParseFloat_def float_literal_def Let_def mk64_dyadic[of 1 1] mk64_dyadic[of 2 0]
        mk64_dyadic[of 4 0] mk64_dyadic[of "-1" 0])
qed

lemma fm_example_words:
  "Fields ''fm 0.5 1 1'' = [''fm'', ''0.5'', ''1'', ''1'']"
  "Fields (TrimSpace ''7 2 4 -1'') = [''7'', ''2'', ''4'', ''-1'']"
  "TrimSpace ''7 2 4 -1'' \<noteq> []"
  "ParseInt ''7'' = Some 7"
  by (simp_all add: Fields_def is_space_def TrimSpace_def trim_right_def ParseInt_def parse_int_def is_digit_def
      dec_nat_def digit_val_def)

lemma Predict_loaded_model_witness:
  "\<exists>m. LoadFMModel (\<lambda>p. Inr fm_example_file) (\<lambda>s. None) ''fm.txt'' 2 = Inr m \<and> fm_Factor m = 2
   \<and> fm_score m [\<lparr>sf_Key = 7, sf_Weight = 1\<rparr>] = Fin (5 / 2)
   \<and> Predict (\<lambda>x. if x = NaN then NaN else Fin 1) (Some m) [\<lparr>sf_Key = 7, sf_Weight = 1\<rparr>] \<le> Fin 1"
proof -
  let ?e = "\<lambda>x. if x = NaN then NaN else Fin 1"
  let ?L = "LoadFMModel (\<lambda>p. Inr fm_example_file) (\<lambda>s. None) ''fm.txt'' 2"
  let ?m = "\<lparr>fm_Factor = 2, fm_W0 = Fin (1 / 2), fm_W1 = [7 \<mapsto> Fin 2], fm_W2 = [7 \<mapsto> [Fin 4, Fin (- 1)]]\<rparr>"
  have key: "fieldValueFromIndex 7 = 7" by (simp add: fieldValueFromIndex_cases)
  have m: "?L = Inr ?m"
    by (simp add: LoadFMModel_def fm_example_lines Let_def fm_example_words fm_example_numbers fm_line_def
        key numeral_2_eq_2)
  have sc: "fm_score ?m [\<lparr>sf_Key = 7, sf_Weight = 1\<rparr>] = Fin (5 / 2)"
    by (simp add: fm_score_def predict_step_def Let_def numeral_2_eq_2 float_ops fmul_def fadd_def fsub_def
      mk64_dyadic[of 2 0] mk64_dyadic[of 4 0] mk64_dyadic[of "-1" 0] mk64_dyadic[of 5 1] mk64_dyadic[of 16 0]
      mk64_dyadic[of 1 0] mk64_dyadic[of 0 0])
  have "exp_ok ?e" by (simp add: exp_ok_def)
  from Predict_loaded_model[OF m this, of "[\<lparr>sf_Key = 7, sf_Weight = 1\<rparr>]"] m sc
  show ?thesis by (intro exI[of _ ?m]) simp
qed

end
