(* ===== verification/Rank_Config.thy ===== *)
theory Rank_Config
  imports Funnel_Config Go_Json Upstream
begin

text \<open>
  Configuration of the rank service: \<open>config/config.go\<close> (engine, FM and TF-Serving settings) and
  \<open>config/rank_exp_conf.go\<close> (which experiment entry and which strategy serve a request, and the
  key of the engine for a pair of models).
\<close>

section \<open>Engine settings\<close>

record FMConfig =
  fc_Factor :: int
  fc_ModelPath :: string
  fc_TransPath :: string

record TFConfig =
  tc_BaseURL :: string
  tc_Endpoints :: "string list"
  tc_LoadBalance :: string
  tc_ModelName :: string
  tc_SignatureName :: string
  tc_InputTensor :: string
  tc_FeatureDim :: int
  tc_TimeoutMs :: int
  tc_OutputName :: string

record RankEngineConfig =
  rk_Mode :: string
  rk_FM :: FMConfig
  rk_TFServing :: TFConfig
  rk_PreRankTrunc :: int
  rk_RankTrunc :: int

definition TFEndpoints :: "TFConfig \<Rightarrow> EndpointsConfig" where
  "TFEndpoints c = \<lparr>ep_BaseURL = tc_BaseURL c, ep_Endpoints = tc_Endpoints c, ep_LoadBalance = tc_LoadBalance c\<rparr>"

section \<open>Rank experiments\<close>

record RankStrategy =
  st_Platform :: string
  st_FeatureName :: string
  st_ModelName :: string
  st_TruncCount :: int

record RankExpEntry =
  xe_ExpID :: int32
  xe_StrategyList :: "RankStrategy list"

record RankExpConf =
  xc_PreRankExp :: "RankExpEntry list"
  xc_RankExp :: "RankExpEntry list"
  xc_ReRankExp :: "RankExpEntry list"

definition dec_RankStrategy :: "RankStrategy dec" where
  "dec_RankStrategy = dec_struct
     [(''Platform'', field dec_string st_Platform st_Platform_update),
      (''FeatureName'', field dec_string st_FeatureName st_FeatureName_update),
      (''ModelName'', field dec_string st_ModelName st_ModelName_update),
      (''TruncCount'', field (dec_int 64) st_TruncCount st_TruncCount_update)]"

definition dec_RankExpEntry :: "RankExpEntry dec" where
  "dec_RankExpEntry = dec_struct
     [(''exp_id'', field (dec_int 32) xe_ExpID xe_ExpID_update),
      (''StrategyList'', field (dec_slice \<lparr>st_Platform = [], st_FeatureName = [], st_ModelName = [], st_TruncCount = 0\<rparr>
         dec_RankStrategy) xe_StrategyList xe_StrategyList_update)]"

definition dec_RankExpConf :: "RankExpConf dec" where
  "dec_RankExpConf =
     (let entries = dec_slice \<lparr>xe_ExpID = 0, xe_StrategyList = []\<rparr> dec_RankExpEntry in
      dec_struct
        [(''PreRankExp'', field entries xc_PreRankExp xc_PreRankExp_update),
         (''RankExp'', field entries xc_RankExp xc_RankExp_update),
         (''ReRankExp'', field entries xc_ReRankExp xc_ReRankExp_update)])"

definition LoadRankExpConf :: "(string \<Rightarrow> go_error + bytes) \<Rightarrow> string \<Rightarrow> go_error + RankExpConf" where
  "LoadRankExpConf read_file path =
     and_then (read_file path)
       (\<lambda>b. case unmarshal_ok dec_RankExpConf \<lparr>xc_PreRankExp = [], xc_RankExp = [], xc_ReRankExp = []\<rparr> b of
             None \<Rightarrow> Inl (DecodeError path)
           | Some c \<Rightarrow> Inr c)"

definition pickRankExpEntry :: "int32 list \<Rightarrow> RankExpEntry list \<Rightarrow> RankExpEntry option" where
  "pickRankExpEntry expIDs rows =
     (if rows = [] then None
      else case find_by_exps xe_ExpID expIDs rows of
        Some r \<Rightarrow> Some r
      | None \<Rightarrow>
          (case find (\<lambda>r. xe_ExpID r = 0) rows of Some r \<Rightarrow> Some r | None \<Rightarrow> Some (hd rows)))"

definition resolve_stage :: "RankExpEntry list \<Rightarrow> int32 list \<Rightarrow> int32 \<times> RankStrategy option" where
  "resolve_stage rows expIDs =
     (case pickRankExpEntry expIDs rows of
        None \<Rightarrow> (0, None)
      | Some ent \<Rightarrow> (case xe_StrategyList ent of [] \<Rightarrow> (0, None) | s # _ \<Rightarrow> (xe_ExpID ent, Some s)))"

definition ResolvePreRank :: "RankExpConf option \<Rightarrow> int32 list \<Rightarrow> int32 \<times> RankStrategy option" where
  "ResolvePreRank conf expIDs =
     (case conf of None \<Rightarrow> (0, None) | Some c \<Rightarrow> resolve_stage (xc_PreRankExp c) expIDs)"

definition ResolveRank :: "RankExpConf option \<Rightarrow> int32 list \<Rightarrow> int32 \<times> RankStrategy option" where
  "ResolveRank conf expIDs =
     (case conf of None \<Rightarrow> (0, None) | Some c \<Rightarrow> resolve_stage (xc_RankExp c) expIDs)"

definition ResolveReRank :: "RankExpConf option \<Rightarrow> int32 list \<Rightarrow> int32 \<times> RankStrategy option" where
  "ResolveReRank conf expIDs =
     (case conf of None \<Rightarrow> (0, None) | Some c \<Rightarrow> resolve_stage (xc_ReRankExp c) expIDs)"

definition RankModelBundleKey :: "string \<Rightarrow> string \<Rightarrow> string" where
  "RankModelBundleKey preModelName rankModelName =
     (let pre = (if preModelName = [] then ''_'' else preModelName);
          rank = (if rankModelName = [] then ''_'' else rankModelName)
      in pre @ ''|'' @ rank)"

section \<open>The choice of an entry\<close>

lemma pickRankExpEntry_variant: "pickRankExpEntry es rows = pick_variant xe_ExpID es rows"
proof (cases rows)
  case Nil
  then show ?thesis by (simp add: pickRankExpEntry_def variant.pick_Nil)
qed (simp add: pickRankExpEntry_def pick_variant_def split: option.split)

interpretation rank_exp: ab_pick xe_ExpID pickRankExpEntry
  unfolding pickRankExpEntry_variant[abs_def] by (rule variant.ab_pick_axioms)

text \<open>A bundle key names its pair of models as long as the coarse model's name has no bar.\<close>

lemma RankModelBundleKey_inj:
  assumes "RankModelBundleKey a b = RankModelBundleKey c d" "a \<noteq> []" "b \<noteq> []" "c \<noteq> []" "d \<noteq> []"
    and "CHR ''|'' \<notin> set a" "CHR ''|'' \<notin> set c"
  shows "a = c \<and> b = d"
proof -
  have eq: "a @ CHR ''|'' # b = c @ CHR ''|'' # d"
    using assms by (simp add: RankModelBundleKey_def Let_def)
  from arg_cong[OF this, of "takeWhile (\<lambda>x. x \<noteq> CHR ''|'')"] assms(6,7)
  have "a = c" by (simp add: takeWhile_append takeWhile_eq_all_conv[THEN iffD2] split: if_splits)
  then show ?thesis using eq by simp
qed

text \<open>C26: the rank service's resolver is the experiment contract of the funnel configuration, for each of the
  three stages: the first request id with an entry, else entry 0, else the first entry, and of it the
  first strategy (none, and experiment 0, when the entry has no strategy). Request ids without an
  entry never matter.\<close>

theorem ResolveRank_contract:
  "let serve = (\<lambda>rows. case ab_variant xe_ExpID es rows of
         None \<Rightarrow> (0, None)
       | Some ent \<Rightarrow> (if xe_StrategyList ent = [] then (0, None)
                     else (xe_ExpID ent, Some (hd (xe_StrategyList ent)))));
       known = (\<lambda>rows. filter (\<lambda>e. e \<in> xe_ExpID ` set rows) es) in
   ResolvePreRank (Some c) es = serve (xc_PreRankExp c)
   \<and> ResolveRank (Some c) es = serve (xc_RankExp c)
   \<and> ResolveReRank (Some c) es = serve (xc_ReRankExp c)
   \<and> ResolveRank (Some c) (known (xc_RankExp c)) = ResolveRank (Some c) es"
  by (auto simp: Let_def ResolvePreRank_def ResolveRank_def ResolveReRank_def resolve_stage_def
      rank_exp.pick_spec rank_exp.pick_filter[unfolded rank_exp.pick_spec] split: option.split list.split)

end
