(* ===== verification/Rank_Engine.thy ===== *)
theory Rank_Engine
  imports FM_Model Rank_Config Json_Print
begin

text \<open>
  The ranking engine: \<open>rankengine/engine.go\<close> (features, coarse, fine and re-rank stage of one group) and
  \<open>rankengine/tf_rest.go\<close> (the TensorFlow Serving call). The TF client's balancer and the log of calls are
  threaded through the items of a group.
\<close>

section \<open>The runtime of the engine\<close>

record itemWork =
  iw_id :: int64
  iw_sparse :: "SparseFeature list"
  iw_dense :: "float64 list"
  iw_pre :: float64
  iw_rank :: float64
  iw_re :: float64

text \<open>A row of the mock ranking: id, score and index.\<close>

type_synonym mock_row = "int64 \<times> float32 \<times> nat"

text \<open>
  Parameters: the elementary functions, the two sorts behind \<open>sort.Slice\<close>, the order in which a range
  over the field table visits it (for a user and an item), the network and the random source of the TF
  client, and \<open>strconv\<close>'s spelling of a float.
\<close>

record rank_env =
  rt_exp :: "float64 \<Rightarrow> float64"
  rt_sin :: "float64 \<Rightarrow> float64"
  rt_cos :: "float64 \<Rightarrow> float64"
  rt_sort_work :: "(itemWork \<Rightarrow> itemWork \<Rightarrow> bool) \<Rightarrow> itemWork list \<Rightarrow> itemWork list"
  rt_sort_rows :: "(mock_row \<Rightarrow> mock_row \<Rightarrow> bool) \<Rightarrow> mock_row list \<Rightarrow> mock_row list"
  rt_ord :: "int64 \<times> int64 \<Rightarrow> (int \<times> int) list \<Rightarrow> (int \<times> int) list"
  rt_rng :: "nat \<Rightarrow> nat"
  rt_net :: "nat \<Rightarrow> string \<Rightarrow> bytes \<Rightarrow> http_outcome"
  rt_fmt :: "float64 \<Rightarrow> string option"

locale rank_runtime =
  fixes rt :: rank_env
  assumes sort_work: "slice_sort (rt_sort_work rt)"
    and sort_rows: "slice_sort (rt_sort_rows rt)"

definition rank_env0 :: rank_env where
  "rank_env0 = \<lparr>rt_exp = (\<lambda>x. if x = NaN then NaN else Fin 1), rt_sin = id, rt_cos = id,
     rt_sort_work = go_insertion_sort, rt_sort_rows = go_insertion_sort, rt_ord = (\<lambda>_. id), rt_rng = (\<lambda>_. 0),
     rt_net = (\<lambda>_ _ _. NoReply (TransportError ''down'')), rt_fmt = (\<lambda>_. None)\<rparr>"

interpretation rank0: rank_runtime rank_env0
  by unfold_locales (simp_all add: rank_env0_def go_sort.sort_perm go_sort.sort_sorted)

section \<open>TensorFlow Serving (\<open>tf_rest.go\<close>)\<close>

record TFPredictor =
  tf_doer :: "HTTPDoer option"
  tf_ModelName :: string
  tf_SignatureName :: string
  tf_InputTensor :: string
  tf_FeatureDim :: int
  tf_OutputName :: string

definition NewTFPredictor :: "TFConfig \<Rightarrow> go_error + TFPredictor option" where
  "NewTFPredictor c =
     (let urls = Resolve (TFEndpoints c) in
      if urls = [] then Inr None
      else if tc_ModelName c = [] then Inr None
      else
        (let nfeat = (if tc_FeatureDim c \<le> 0 then 8 else tc_FeatureDim c);
             inp = (if tc_InputTensor c = [] then ''inputs'' else tc_InputTensor c);
             sig = (if tc_SignatureName c = [] then ''serving_default'' else tc_SignatureName c);
             trimmed = TrimSpace (tc_OutputName c);
             outName = (if trimmed = [] then ''predictions'' else trimmed)
         in and_then (NewHTTPDoer (TFEndpoints c))
              (\<lambda>doer. Inr (Some \<lparr>tf_doer = Some doer, tf_ModelName = tc_ModelName c, tf_SignatureName = sig,
                 tf_InputTensor = inp, tf_FeatureDim = nfeat, tf_OutputName = outName\<rparr>))))"

definition Configured :: "TFPredictor option \<Rightarrow> bool" where
  "Configured p = (case p of None \<Rightarrow> False | Some t \<Rightarrow> tf_doer t \<noteq> None \<and> tf_ModelName t \<noteq> [])"

definition fit_nfeat :: "int \<Rightarrow> float64 list \<Rightarrow> float64 list" where
  "fit_nfeat nfeat feature =
     (if int (length feature) < nfeat then feature @ replicate (nat nfeat - length feature) 0
      else if nfeat < int (length feature) then upto_n nfeat feature
      else feature)"

fun spell_all :: "(float64 \<Rightarrow> string option) \<Rightarrow> float64 list \<Rightarrow> string list option" where
  "spell_all fmt [] = Some []"
| "spell_all fmt (x # xs) =
     (case fmt x of None \<Rightarrow> None | Some s \<Rightarrow> map_option ((#) s) (spell_all fmt xs))"

definition tf_body :: "(float64 \<Rightarrow> string option) \<Rightarrow> TFPredictor \<Rightarrow> float64 list \<Rightarrow> bytes option" where
  "tf_body fmt p feature =
     map_option (\<lambda>ls. json_print (JObj
         [(''instances'', JArr [JObj [(tf_InputTensor p, JArr (map JNum ls))]]),
          (''signature_name'', JStr (tf_SignatureName p))]))
       (spell_all fmt feature)"

text \<open>The answer: a number, the first of a list, or the first of the first list.\<close>

definition tf_scalar :: "string \<Rightarrow> bytes \<Rightarrow> go_error + float64" where
  "tf_scalar outName b =
     (case unmarshal_ok (dec_map None dec_raw) [] b of
        None \<Rightarrow> Inl (DecodeError b)
      | Some out \<Rightarrow>
          (case Option.bind (map_of out outName) id of
             None \<Rightarrow> Inl (TFMissingOutput outName)
           | Some j \<Rightarrow>
               (case (dec_float 0 j, dec_slice 0 dec_float [] j, dec_slice [] (dec_slice 0 dec_float) [] j) of
                  ((v, ok1), (one, ok2), (two, ok3)) \<Rightarrow>
                    if ok1 then Inr v
                    else if ok2 \<and> one \<noteq> [] then Inr (hd one)
                    else if ok3 \<and> two \<noteq> [] \<and> hd two \<noteq> [] then Inr (hd (hd two))
                    else Inl (TFCannotParse outName))))"

text \<open>A prediction, the predictor with its balancer moved on, and the calls made so far.\<close>

definition tf_Predict ::
  "rank_env \<Rightarrow> TFPredictor option \<Rightarrow> float64 list \<Rightarrow> string list \<Rightarrow>
   (go_error + float64) \<times> TFPredictor option \<times> string list" where
  "tf_Predict rt tf feature sent =
     (if \<not> Configured tf then (Inl TFNotConfigured, tf, sent)
      else
        (let p = the tf in
         case tf_body (rt_fmt rt) p (fit_nfeat (tf_FeatureDim p) feature) of
           None \<Rightarrow> (Inl (DecodeError ''json: unsupported value''), tf, sent)
         | Some raw \<Rightarrow>
             (let path = Sprintf ''/v1/models/%s:predict'' [FStr (tf_ModelName p)]; doer = the (tf_doer p) in
              case PostBytes (rt_rng rt) (rt_net rt) doer path raw sent of
                (res, st) \<Rightarrow>
                  (and_then res (tf_scalar (tf_OutputName p)),
                   (case st of None \<Rightarrow> tf | Some s \<Rightarrow> Some (p\<lparr>tf_doer := Some (doer\<lparr>hd_Balancer := Some (ps_bal s)\<rparr>)\<rparr>)),
                   (case st of None \<Rightarrow> sent | Some s \<Rightarrow> ps_sent s)))))"

section \<open>The engine (\<open>engine.go\<close>)\<close>

record ScoredItem =
  si_ItemID :: int64
  si_PreRank :: float32
  si_Rank :: float32
  si_ReRank :: float32

record Engine =
  eg_cfg :: RankEngineConfig
  eg_fm :: "FMModel option"
  eg_trans :: "FMTrans option"
  eg_tf :: "TFPredictor option"
  eg_feat :: Fetcher

definition NewEngine ::
  "(string \<Rightarrow> go_error + bytes) \<Rightarrow> (string \<Rightarrow> float64 option) \<Rightarrow> RankEngineConfig \<Rightarrow> Fetcher option \<Rightarrow>
   go_error + Engine" where
  "NewEngine open_file other cfg feat =
     (let e0 = \<lparr>eg_cfg = cfg, eg_fm = None, eg_trans = None, eg_tf = None,
                eg_feat = (case feat of None \<Rightarrow> NoOp | Some f \<Rightarrow> f)\<rparr>;
          with_fm =
            (if rk_Mode cfg = ''pipeline'' then
               and_then (LoadFMTrans open_file (fc_TransPath (rk_FM cfg)))
                 (\<lambda>tr. let e1 = e0\<lparr>eg_trans := Some tr\<rparr> in
                    if fc_ModelPath (rk_FM cfg) = [] then Inr e1
                    else
                      (let factor = (if fc_Factor (rk_FM cfg) \<le> 0 then 8 else fc_Factor (rk_FM cfg)) in
                       and_then (LoadFMModel open_file other (fc_ModelPath (rk_FM cfg)) factor)
                         (\<lambda>fm. Inr (e1\<lparr>eg_fm := Some fm\<rparr>))))
             else Inr e0)
      in and_then with_fm
           (\<lambda>e. and_then (NewTFPredictor (rk_TFServing cfg)) (\<lambda>tf. Inr (e\<lparr>eg_tf := tf\<rparr>))))"

text \<open>\<open>(userID*31 + itemID*17 + int64(salt)*13) % 1000\<close>, in 64-bit arithmetic.\<close>

definition mockFloat64 :: "int64 \<Rightarrow> int64 \<Rightarrow> int \<Rightarrow> float64" where
  "mockFloat64 userID itemID salt =
     float_of_int (go_rem (wrap64 (userID * 31 + itemID * 17 + salt * 13)) 1000) / Fin 1000"

definition denseFeatures :: "rank_env \<Rightarrow> int64 \<Rightarrow> int64 \<Rightarrow> int \<Rightarrow> float64 list" where
  "denseFeatures rt userID itemID nfeat =
     map (\<lambda>n. let i = int n;
                  v = float_of_int (go_rem (wrap64 (userID + itemID * (i + 3) + i * 7)) 997) / Fin 997
              in rt_sin rt v * rt_cos rt (float_of_int (i + 1) / Fin 10))
       [0..<nat nfeat]"

text \<open>\<open>if n > 0 \&\& len(xs) > n { xs = xs[:n] }\<close>\<close>

definition limit :: "int \<Rightarrow> 'a list \<Rightarrow> 'a list" where
  "limit n xs = (if 0 < n \<and> n < int (length xs) then upto_n n xs else xs)"

definition mockRankGroup :: "rank_env \<Rightarrow> int64 list \<Rightarrow> int32 \<Rightarrow> ScoredItem list" where
  "mockRankGroup rt ids retCount =
     (let rows = map (\<lambda>(i, idx). (i, float32_of_int (int idx + 1), idx)) (zip ids [0..<length ids]);
          sorted = rt_sort_rows rt (\<lambda>(_, s, _) (_, t, _). t < s) rows
      in limit retCount
           (map (\<lambda>(i, s, idx). \<lparr>si_ItemID = i, si_PreRank = s, si_Rank = s, si_ReRank = s\<rparr>) sorted))"

text \<open>The features of one candidate; errors of the store and of the merge are ignored.\<close>

definition load_work :: "rank_env \<Rightarrow> Engine \<Rightarrow> int64 \<Rightarrow> bytes \<Rightarrow> int64 \<Rightarrow> itemWork" where
  "load_work rt e userID userJSON i =
     (let itemJSON = (case fe_ItemJSON (eg_feat e) i of Inl _ \<Rightarrow> [] | Inr b \<Rightarrow> b);
          (kv, dense) = (case MergeUserItemJSON userJSON itemJSON of Inl _ \<Rightarrow> ([], []) | Inr p \<Rightarrow> p);
          w = \<lparr>iw_id = i, iw_sparse = [], iw_dense = [], iw_pre = 0, iw_rank = 0, iw_re = 0\<rparr>
      in if kv \<noteq> [] then
           w\<lparr>iw_sparse := map (\<lambda>s. \<lparr>sf_Key = kv_Key s, sf_Weight = kv_Weight s\<rparr>) kv, iw_dense := dense\<rparr>
         else w\<lparr>iw_sparse := BuildPlaceholderSparse (rt_ord rt (userID, i)) userID i (eg_trans e)\<rparr>)"

definition pre_score :: "rank_env \<Rightarrow> Engine \<Rightarrow> int64 \<Rightarrow> itemWork \<Rightarrow> float64" where
  "pre_score rt e userID w =
     (case eg_fm e of
        Some fm \<Rightarrow> Predict (rt_exp rt) (Some fm) (iw_sparse w)
      | None \<Rightarrow> mockFloat64 userID (iw_id w) 1)"

text \<open>The fine stage, item by item, with the state of the TF client.\<close>

fun fine_stage ::
  "rank_env \<Rightarrow> int64 \<Rightarrow> itemWork list \<Rightarrow> TFPredictor option \<Rightarrow> string list \<Rightarrow>
   itemWork list \<times> TFPredictor option \<times> string list" where
  "fine_stage rt userID [] tf sent = ([], tf, sent)"
| "fine_stage rt userID (w # ws) tf sent =
     (if Configured tf then
        (let vec = (if iw_dense w = [] then denseFeatures rt userID (iw_id w) (tf_FeatureDim (the tf)) else iw_dense w)
         in case tf_Predict rt tf vec sent of
              (res, tf', sent') \<Rightarrow>
                (let sc = (case res of Inr v \<Rightarrow> v | Inl _ \<Rightarrow> mockFloat64 userID (iw_id w) 2) in
                 map_prod ((#) (w\<lparr>iw_rank := sc\<rparr>)) id (fine_stage rt userID ws tf' sent')))
      else map_prod ((#) (w\<lparr>iw_rank := iw_pre w\<rparr>)) id (fine_stage rt userID ws tf sent))"

definition coarse_stage :: "rank_env \<Rightarrow> Engine \<Rightarrow> int64 \<Rightarrow> int64 list \<Rightarrow> int32 \<Rightarrow> int32 \<Rightarrow> itemWork list" where
  "coarse_stage rt e userID ids preRankTrunc rankTrunc =
     (let userJSON = (case fe_UserJSON (eg_feat e) userID of Inl _ \<Rightarrow> [] | Inr b \<Rightarrow> b);
          work = map (\<lambda>i. let w = load_work rt e userID userJSON i in w\<lparr>iw_pre := pre_score rt e userID w\<rparr>) ids;
          sorted = rt_sort_work rt (\<lambda>a b. iw_pre b < iw_pre a) work;
          preN = (if 0 < preRankTrunc then preRankTrunc else rk_PreRankTrunc (eg_cfg e));
          rankN = (if 0 < rankTrunc then rankTrunc else rk_RankTrunc (eg_cfg e))
      in limit rankN (limit preN sorted))"

definition rerank_stage :: "rank_env \<Rightarrow> int64 \<Rightarrow> itemWork list \<Rightarrow> itemWork list" where
  "rerank_stage rt userID ws =
     (let ranked = rt_sort_work rt (\<lambda>a b. iw_rank b < iw_rank a) ws;
          reranked = map (\<lambda>w. w\<lparr>iw_re := iw_rank w + flit (1 / 100) * mockFloat64 userID (iw_id w) 3\<rparr>) ranked
      in rt_sort_work rt (\<lambda>a b. iw_re b < iw_re a) reranked)"

definition scored :: "itemWork \<Rightarrow> ScoredItem" where
  "scored w = \<lparr>si_ItemID = iw_id w, si_PreRank = to_float32 (iw_pre w), si_Rank = to_float32 (iw_rank w),
     si_ReRank = to_float32 (iw_re w)\<rparr>"

definition RankGroupExt ::
  "rank_env \<Rightarrow> Engine \<Rightarrow> int64 \<Rightarrow> int64 list \<Rightarrow> int32 \<Rightarrow> int32 \<Rightarrow> int32 \<Rightarrow> string list \<Rightarrow>
   ScoredItem list \<times> Engine \<times> string list" where
  "RankGroupExt rt e userID ids retCount preRankTrunc rankTrunc sent =
     (if ids = [] then ([], e, sent)
      else if rk_Mode (eg_cfg e) \<noteq> ''pipeline'' then (mockRankGroup rt ids retCount, e, sent)
      else
        (case fine_stage rt userID (coarse_stage rt e userID ids preRankTrunc rankTrunc) (eg_tf e) sent of
           (ws, tf, sent') \<Rightarrow>
             (limit retCount (map scored (rerank_stage rt userID ws)), e\<lparr>eg_tf := tf\<rparr>, sent')))"

definition RankGroup ::
  "rank_env \<Rightarrow> Engine \<Rightarrow> int64 \<Rightarrow> int64 list \<Rightarrow> int32 \<Rightarrow> string list \<Rightarrow> ScoredItem list \<times> Engine \<times> string list" where
  "RankGroup rt e userID ids retCount sent = RankGroupExt rt e userID ids retCount 0 0 sent"


section \<open>What a ranked group holds\<close>

definition capped :: "int \<Rightarrow> nat \<Rightarrow> nat" where
  "capped n k = (if 0 < n \<and> n < int k then nat n else k)"

lemma length_limit [simp]: "length (limit n xs) = capped n (length xs)"
  by (auto simp: limit_def capped_def)

lemma limit_take: "limit n xs = take (capped n (length xs)) xs"
  by (simp add: limit_def capped_def upto_n_def)

lemma limit_map: "limit n (map f xs) = map f (limit n xs)"
  by (simp add: limit_def upto_n_def take_map)

lemma mset_limit: "mset (map f (limit n xs)) \<subseteq># mset (map f xs)"
proof -
  have "mset (take k (map f xs)) \<subseteq># mset (map f xs)" for k
    by (metis append_take_drop_id mset_append mset_subset_eq_add_left)
  then show ?thesis by (simp add: limit_take take_map)
qed

lemma load_work_id [simp]: "iw_id (load_work rt e u uj i) = i"
  by (simp add: load_work_def Let_def split: prod.split)

lemma fine_stage_id:
  "map iw_id (fst (fine_stage rt u ws tf sent)) = map iw_id ws"
  by (induction rt u ws tf sent rule: fine_stage.induct) (auto simp: Let_def split: prod.splits)

definition coarse_score :: "rank_env \<Rightarrow> Engine \<Rightarrow> int64 \<Rightarrow> int64 \<Rightarrow> float64" where
  "coarse_score rt e userID i =
     pre_score rt e userID
       (load_work rt e userID (case fe_UserJSON (eg_feat e) userID of Inl _ \<Rightarrow> [] | Inr b \<Rightarrow> b) i)"

definition coarse_work :: "rank_env \<Rightarrow> Engine \<Rightarrow> int64 \<Rightarrow> int64 \<Rightarrow> itemWork" where
  "coarse_work rt e userID i =
     (load_work rt e userID (case fe_UserJSON (eg_feat e) userID of Inl _ \<Rightarrow> [] | Inr b \<Rightarrow> b) i)
       \<lparr>iw_pre := coarse_score rt e userID i\<rparr>"

lemma coarse_work_simps [simp]:
  "iw_id (coarse_work rt e u i) = i" "iw_pre (coarse_work rt e u i) = coarse_score rt e u i"
  by (simp_all add: coarse_work_def)

definition pre_limit :: "Engine \<Rightarrow> int32 \<Rightarrow> int" where
  "pre_limit e n = (if 0 < n then n else rk_PreRankTrunc (eg_cfg e))"

definition rank_limit :: "Engine \<Rightarrow> int32 \<Rightarrow> int" where
  "rank_limit e n = (if 0 < n then n else rk_RankTrunc (eg_cfg e))"

lemma coarse_stage_eq:
  "coarse_stage rt e u ids pt rk =
   limit (rank_limit e rk) (limit (pre_limit e pt)
     (rt_sort_work rt (\<lambda>a b. iw_pre b < iw_pre a) (map (coarse_work rt e u) ids)))"
  by (simp add: coarse_stage_def coarse_work_def[abs_def] coarse_score_def pre_limit_def rank_limit_def Let_def)

lemma rescored_ids: "map iw_id (map (\<lambda>w. w\<lparr>iw_re := g w\<rparr>) ws) = map iw_id ws"
  by simp

context rank_runtime
begin

lemma sorted_work_ids: "mset (map iw_id (rt_sort_work rt lt ws)) = mset (map iw_id ws)"
  using slice_sort.sort_perm[OF sort_work, of lt ws] by simp

lemma sorted_work_length [simp]: "length (rt_sort_work rt lt ws) = length ws"
  by (rule slice_sort.sort_length[OF sort_work])

lemma coarse_ids: "mset (map iw_id (coarse_stage rt e u ids pt rk)) \<subseteq># mset ids"
proof -
  have "mset (map iw_id (rt_sort_work rt lt (map (coarse_work rt e u) ids))) = mset ids" for lt
    by (simp only: sorted_work_ids) (simp add: comp_def)
  then show ?thesis
    unfolding coarse_stage_eq using mset_limit subset_mset.order_trans by metis
qed

lemma coarse_length: "length (coarse_stage rt e u ids pt rk) = capped (rank_limit e rk) (capped (pre_limit e pt) (length ids))"
  by (simp add: coarse_stage_eq)

lemma rerank_ids: "mset (map iw_id (rerank_stage rt u ws)) = mset (map iw_id ws)"
  unfolding rerank_stage_def Let_def by (simp only: sorted_work_ids rescored_ids)

lemma rerank_length [simp]: "length (rerank_stage rt u ws) = length ws"
  using arg_cong[OF rerank_ids[of u ws], of size] by simp

lemma mock_ids: "mset (map si_ItemID (mockRankGroup rt ids n)) \<subseteq># mset ids"
proof -
  let ?rows = "map (\<lambda>(i, idx). (i, float32_of_int (int idx + 1), idx)) (zip ids [0..<length ids])"
  have "mset (map fst (rt_sort_rows rt lt ?rows)) = mset (map fst ?rows)" for lt
    using arg_cong[OF slice_sort.sort_perm[OF sort_rows, of lt ?rows], of "image_mset fst"]
    by (simp only: mset_map)
  moreover have "map fst ?rows = ids" by (simp add: comp_def case_prod_beta)
  ultimately have p: "mset (map fst (rt_sort_rows rt lt ?rows)) = mset ids" for lt by (simp only:)
  have "map si_ItemID (mockRankGroup rt ids n) = limit n (map fst (rt_sort_rows rt (\<lambda>(_, s, _) (_, t, _). t < s) ?rows))"
    by (simp add: mockRankGroup_def Let_def limit_map[symmetric] comp_def case_prod_beta)
  then show ?thesis
    using mset_limit[of id n "map fst (rt_sort_rows rt (\<lambda>(_, s, _) (_, t, _). t < s) ?rows)"] p by simp
qed

lemma mock_length: "length (mockRankGroup rt ids n) = capped n (length ids)"
  by (simp add: mockRankGroup_def Let_def slice_sort.sort_length[OF sort_rows])

lemma fine_length [simp]: "length (fst (fine_stage rt u ws tf sent)) = length ws"
  using arg_cong[OF fine_stage_id[of rt u ws tf sent], of length] by simp

lemma group_ids:
  "mset (map si_ItemID (fst (RankGroupExt rt e u ids n pt rk sent))) \<subseteq># mset ids"
proof -
  have p: "mset (map si_ItemID (limit n (map scored (rerank_stage rt u (fst F))))) \<subseteq># mset ids"
    if "F = fine_stage rt u (coarse_stage rt e u ids pt rk) tf sent" for F tf
  proof -
    have "mset (map si_ItemID (limit n (map scored (rerank_stage rt u (fst F))))) \<subseteq>#
        mset (map iw_id (rerank_stage rt u (fst F)))"
      using mset_limit[of si_ItemID n "map scored (rerank_stage rt u (fst F))"] by (simp add: comp_def scored_def)
    also have "\<dots> = mset (map iw_id (coarse_stage rt e u ids pt rk))"
      by (simp only: rerank_ids that fine_stage_id)
    finally show ?thesis using coarse_ids subset_mset.order_trans by metis
  qed
  show ?thesis using p mock_ids by (auto simp: RankGroupExt_def case_prod_beta)
qed

end

text \<open>C27: a ranked group holds only candidates it was given, none more often than it was given, and exactly as
  many as the request's limits (or the configured ones) leave: the coarse and fine limits in pipeline mode,
  then the return count. Ranking changes nothing of the engine but its TF client.\<close>

theorem RankGroupExt_result:
  assumes "rank_runtime rt"
  shows "case RankGroupExt rt e userID ids retCount preRankTrunc rankTrunc sent of
    (out, e', sent') \<Rightarrow>
      mset (map si_ItemID out) \<subseteq># mset ids
      \<and> length out = capped retCount
          (if rk_Mode (eg_cfg e) = ''pipeline''
           then capped (if 0 < rankTrunc then rankTrunc else rk_RankTrunc (eg_cfg e))
                  (capped (if 0 < preRankTrunc then preRankTrunc else rk_PreRankTrunc (eg_cfg e)) (length ids))
           else length ids)
      \<and> e' = e\<lparr>eg_tf := eg_tf e'\<rparr>"
  using rank_runtime.group_ids[OF assms, of e userID ids retCount preRankTrunc rankTrunc sent]
  by (auto simp: RankGroupExt_def case_prod_beta rank_runtime.mock_length[OF assms]
      rank_runtime.fine_length[OF assms] rank_runtime.rerank_length[OF assms] rank_runtime.coarse_length[OF assms]
      pre_limit_def rank_limit_def capped_def)


text \<open>The best candidates survive the coarse cut.\<close>

lemma strict_weak_scores:
  "(\<And>x. x \<in> A \<Longrightarrow> f x \<noteq> NaN) \<Longrightarrow> strict_weak (\<lambda>a b. f b < f a) A"
  unfolding strict_weak_def less_float64_def
proof (intro conjI ballI impI)
  fix x y z assume n: "\<And>x. x \<in> A \<Longrightarrow> f x \<noteq> NaN" and m: "x \<in> A" "y \<in> A" "z \<in> A" and lt: "flt (f z) (f x)"
  show "flt (f y) (f x) \<or> flt (f z) (f y)" using flt_linear[OF n n n lt] m by blast
qed (use flt_asym in auto)

lemma sorted_cut:
  assumes "sorted_wrt (\<lambda>x y. \<not> f x < f y) xs" "x \<in> set (take k xs)" "y \<in> set xs" "y \<notin> set (take k xs)"
  shows "\<not> f x < f y"
proof -
  have "y \<in> set (drop k xs)" using assms(3,4) by (metis Un_iff append_take_drop_id set_append)
  moreover have "sorted_wrt (\<lambda>x y. \<not> f x < f y) (take k xs @ drop k xs)" using assms(1) by simp
  ultimately show ?thesis using assms(2) unfolding sorted_wrt_append by blast
qed

text \<open>C28: no candidate the coarse cut drops scores higher than one it keeps, when every coarse score is a
  number: the fine stage sees the top of the list by the FM score (or the mock score without a model).\<close>

theorem coarse_stage_top:
  assumes "rank_runtime rt" "list_all (\<lambda>i. coarse_score rt e userID i \<noteq> NaN) ids"
    and "w \<in> set (coarse_stage rt e userID ids preRankTrunc rankTrunc)"
    and "j \<in> set ids" "j \<notin> iw_id ` set (coarse_stage rt e userID ids preRankTrunc rankTrunc)"
  shows "iw_pre w = coarse_score rt e userID (iw_id w) \<and> coarse_score rt e userID j \<le> coarse_score rt e userID (iw_id w)"
proof -
  let ?lt = "\<lambda>a b. iw_pre b < iw_pre a"
  let ?ws = "map (coarse_work rt e userID) ids"
  let ?sorted = "rt_sort_work rt ?lt ?ws"
  obtain k where k: "coarse_stage rt e userID ids preRankTrunc rankTrunc = take k ?sorted"
    unfolding coarse_stage_eq limit_take take_take by blast
  have set: "set ?sorted = coarse_work rt e userID ` set ids"
    using slice_sort.sort_set[OF rank_runtime.sort_work[OF assms(1)]] by simp
  have "strict_weak ?lt (set ?ws)"
    using assms(2) by (intro strict_weak_scores) (auto simp: list_all_iff)
  then have srt: "sorted_wrt (\<lambda>x y. \<not> iw_pre x < iw_pre y) ?sorted"
    using slice_sort.sort_sorted[OF rank_runtime.sort_work[OF assms(1)]] by blast
  have w: "w \<in> set (take k ?sorted)" using assms(3) k by simp
  then obtain i where i: "i \<in> set ids" "w = coarse_work rt e userID i" using set set_take_subset[of k ?sorted] by auto
  have "coarse_work rt e userID j \<notin> set (take k ?sorted)"
    using assms(5) k by (metis coarse_work_simps(1) image_eqI)
  then have "\<not> iw_pre w < iw_pre (coarse_work rt e userID j)"
    using sorted_cut[OF srt w] set assms(4) by blast
  then show ?thesis
    using i assms(2,4) by (auto simp: list_all_iff float_ops fle_def)
qed

definition mock_engine :: Engine where
  "mock_engine = \<lparr>eg_cfg = \<lparr>rk_Mode = ''pipeline'', rk_FM = \<lparr>fc_Factor = 0, fc_ModelPath = [], fc_TransPath = []\<rparr>,
       rk_TFServing = \<lparr>tc_BaseURL = [], tc_Endpoints = [], tc_LoadBalance = [], tc_ModelName = [], tc_SignatureName = [],
          tc_InputTensor = [], tc_FeatureDim = 0, tc_TimeoutMs = 0, tc_OutputName = []\<rparr>,
       rk_PreRankTrunc = 1, rk_RankTrunc = 0\<rparr>,
     eg_fm = None, eg_trans = None, eg_tf = None, eg_feat = NoOp\<rparr>"

lemma coarse_stage_top_witness:
  "coarse_stage rank_env0 mock_engine 5 [946, 196] 0 0 = [coarse_work rank_env0 mock_engine 5 196]
   \<and> coarse_score rank_env0 mock_engine 5 946 \<le> coarse_score rank_env0 mock_engine 5 196"
proof -
  have sc: "coarse_score rank_env0 mock_engine 5 946 = Fin (1 / 4)"
    "coarse_score rank_env0 mock_engine 5 196 = Fin (1 / 2)"
    by (simp_all add: coarse_score_def pre_score_def mock_engine_def mockFloat64_def go_rem_def wrap64_id
        float_of_int_def float_ops fdiv_def mk64_dyadic[of 250 0] mk64_dyadic[of 500 0] mk64_dyadic[of 1 2]
        mk64_dyadic[of 1 1] Let_def)
  have sort0: "rt_sort_work rank_env0 = go_insertion_sort" by (simp add: rank_env0_def)
  have cfg0: "rk_PreRankTrunc (eg_cfg mock_engine) = 1" "rk_RankTrunc (eg_cfg mock_engine) = 0"
    by (simp_all add: mock_engine_def)
  have st: "coarse_stage rank_env0 mock_engine 5 [946, 196] 0 0 = [coarse_work rank_env0 mock_engine 5 196]"
    unfolding coarse_stage_eq
    using sc by (simp add: sort0 go_insertion_sort_def less_float64_def pre_limit_def rank_limit_def limit_def upto_n_def cfg0)
  from coarse_stage_top[OF rank0.rank_runtime_axioms, of mock_engine 5 "[946, 196]" "coarse_work rank_env0 mock_engine 5 196" 0 0 946]
  show ?thesis by (simp add: st sc)
qed

lemma RankGroupExt_result_witness:
  "case RankGroupExt rank_env0 mock_engine 5 [10, 20, 30] 2 2 0 [] of
    (out, e', sent') \<Rightarrow> mset (map si_ItemID out) \<subseteq># mset [10, 20, 30] \<and> length out = 2"
  using RankGroupExt_result[OF rank0.rank_runtime_axioms, where e = mock_engine and userID = 5 and ids = "[10, 20, 30]"
      and retCount = 2 and preRankTrunc = 2 and rankTrunc = 0 and sent = "[]"]
  by (auto simp: capped_def mock_engine_def split: prod.splits)

section \<open>The mock ranking\<close>

lemma float32_small: "0 \<le> n \<Longrightarrow> n < 2 ^ 24 \<Longrightarrow> float32_of_int n = Fin (of_int n)"
proof -
  assume n: "0 \<le> n" "n < 2 ^ 24"
  have "on_grid 24 (-149) (of_int n)" using n by (intro on_grid_int) auto
  moreover have "\<bar>of_int n :: rat\<bar> < 2 powi 128"
  proof -
    have "\<bar>of_int n :: rat\<bar> < of_int (2 ^ 24)" using n by (simp only: of_int_abs[symmetric] of_int_less_iff)
    also have "of_int (2 ^ 24) = (2 :: rat) powi 24" by simp
    also have "\<dots> < 2 powi 128" by (simp only: powi2_less_iff)
    finally show ?thesis .
  qed
  ultimately show ?thesis by (simp add: float32_of_int_def fmake_on_grid)
qed

text \<open>Outside pipeline mode a group comes back in reverse, with scores counting down from its size, cut to
  the return count.\<close>

theorem mockRankGroup_reverse:
  assumes "rank_runtime rt" "length ids < 2 ^ 24 - 1"
  shows "mockRankGroup rt ids retCount =
    limit retCount (map (\<lambda>(i, n). let s = Fin (of_nat n) in
        \<lparr>si_ItemID = i, si_PreRank = s, si_Rank = s, si_ReRank = s\<rparr>) (rev (zip ids [1..<Suc (length ids)])))"
proof -
  let ?lt = "\<lambda>(_, s, _) (_, t, _). (t :: float32) < s"
  let ?row = "\<lambda>(i, idx). (i, float32_of_int (int idx + 1), idx)"
  let ?rows = "map ?row (zip ids [0..<length ids])"
  have f: "float32_of_int (int k + 1) = Fin (of_nat (Suc k))" if "k < length ids" for k
    using float32_small[of "int k + 1"] that assms(2) by simp
  have f': "float32_of_int (int (length ids) - int k) = Fin (of_nat (length ids) - of_nat k)" if "k < length ids" for k
    using float32_small[of "int (length ids) - int k"] that assms(2) by simp
  have mem: "x \<in> set ?rows \<Longrightarrow> \<exists>k<length ids. x = (ids ! k, Fin (of_nat (Suc k)), k)" for x
    using f by (auto simp: set_zip)
  have lt: "?lt (i, Fin (of_nat (Suc k)), k) (j, Fin (of_nat (Suc l)), l) = (l < k)" for i j k l
    by (simp add: less_float64_def)
  have "rt_sort_rows rt ?lt ?rows = rev ?rows"
  proof (rule slice_sort.sort_unique[OF rank_runtime.sort_rows[OF assms(1)]])
    show "strict_weak ?lt (set ?rows)"
      unfolding strict_weak_def using mem lt by (smt (verit) linorder_less_linear not_less_iff_gr_or_eq order_less_trans)
    show "?lt x y \<or> ?lt y x" if "x \<in> set ?rows" "y \<in> set ?rows" "x \<noteq> y" for x y
      using mem[OF that(1)] mem[OF that(2)] that(3) lt by (metis linorder_less_linear)
    show "sorted_wrt ?lt (rev ?rows)"
      by (subst sorted_wrt_rev) (auto simp: sorted_wrt_iff_nth_less f less_float64_def)
  qed simp
  moreover have "map (\<lambda>(i, s, idx). \<lparr>si_ItemID = i, si_PreRank = s, si_Rank = s, si_ReRank = s\<rparr>) (rev ?rows) =
      map (\<lambda>(i, n). let s = Fin (of_nat n) in
        \<lparr>si_ItemID = i, si_PreRank = s, si_Rank = s, si_ReRank = s\<rparr>) (rev (zip ids [1..<Suc (length ids)]))"
    by (rule nth_equalityI) (auto simp: rev_nth f f' Let_def case_prod_beta nth_append simp del: upt_Suc)
  ultimately show ?thesis by (simp only: mockRankGroup_def Let_def)
qed

lemma mockRankGroup_reverse_witness:
  "map si_ItemID (mockRankGroup rank_env0 [10, 20, 30] 2) = [30, 20]"
proof -
  have "length [10, 20, 30 :: int64] < 2 ^ 24 - 1" by simp
  from mockRankGroup_reverse[OF rank0.rank_runtime_axioms this, of 2] show ?thesis
    by (simp add: limit_def upto_n_def numeral_2_eq_2 Let_def upt_rec)
qed

end
