(* ===== verification/Redis_Crypt.thy ===== *)
theory Redis_Crypt
  imports Feature_Store "HOL-Library.Word"
begin

unbundle bit_operations_syntax

text \<open>
  \<open>pkg/redisdecrypt\<close> (re-exported by \<open>services/rank/internal/redisdecrypt/alias.go\<close>): the wrapping of
  the Redis password, and \<open>NewFetcher\<close> of \<open>pkg/featurestore/config.go\<close>, which unwraps it. AES itself is a
  pair of parameters, the encryption and decryption of one 16-byte block under a key.
\<close>

section \<open>Hexadecimal\<close>

definition nibble_char :: "nat \<Rightarrow> char" where
  "nibble_char d = (if d < 10 then digit_char d else char_of (87 + d))"

definition hex_encode :: "bytes \<Rightarrow> string" where
  "hex_encode s = concat (map (\<lambda>c. let n = of_char c :: nat in [nibble_char (n div 16), nibble_char (n mod 16)]) s)"

fun hex_decode :: "string \<Rightarrow> bytes option" where
  "hex_decode [] = Some []"
| "hex_decode [c] = None"
| "hex_decode (a # b # r) =
     (case (hex_val a, hex_val b) of
        (Some x, Some y) \<Rightarrow> map_option ((#) (char_of (16 * x + y))) (hex_decode r)
      | _ \<Rightarrow> None)"

section \<open>The cipher (\<open>encrypt.go\<close>, \<open>decrypt.go\<close>)\<close>

definition xor_char :: "char \<Rightarrow> char \<Rightarrow> char" where
  "xor_char a b = char_of ((of_char a :: nat) XOR of_char b)"

definition defaultKey :: bytes where
  "defaultKey = the (hex_decode ''23544452656469732d2d3e3230323123'')"

definition key_of :: "bytes option \<Rightarrow> bytes" where
  "key_of key = (case key of None \<Rightarrow> defaultKey | Some k \<Rightarrow> k)"

definition key_size_ok :: "bytes \<Rightarrow> bool" where
  "key_size_ok k = (length k \<in> {16, 24, 32})"

text \<open>The loop over the blocks of the data: the first bytes of the buffer are xored, the rest is kept.\<close>

function encrypt_blocks :: "(bytes \<Rightarrow> bytes) \<Rightarrow> bytes \<Rightarrow> bytes \<Rightarrow> bytes" where
  "encrypt_blocks enc buf data =
     (if data = [] then []
      else
        (let part = take 16 data;
             block = enc (map2 xor_char (take (length part) buf) part @ drop (length part) buf)
         in block @ encrypt_blocks enc block (drop 16 data)))"
  by pat_completeness auto
termination by (relation "measure (\<lambda>(_, _, d). length d)") auto

declare encrypt_blocks.simps [simp del]

definition EncryptPassword :: "(bytes \<Rightarrow> bytes \<Rightarrow> bytes) \<Rightarrow> string \<Rightarrow> bytes option \<Rightarrow> go_error + string" where
  "EncryptPassword enc plain key =
     (let k = key_of key; rem = length plain mod 16 in
      if \<not> key_size_ok k then Inl (InvalidKeySize (length k))
      else
        (let out = encrypt_blocks (enc k) (replicate 16 (CHR 0x00)) plain;
             out' = (if rem \<noteq> 0 then out @ [char_of rem] else out)
         in Inr (hex_encode out')))"

function decrypt_blocks :: "(bytes \<Rightarrow> bytes) \<Rightarrow> bytes \<Rightarrow> bytes \<Rightarrow> bytes" where
  "decrypt_blocks dec prev cs =
     (if cs = [] then []
      else
        (let block = take 16 cs in
         map2 xor_char (dec block) prev @ decrypt_blocks dec block (drop 16 cs)))"
  by pat_completeness auto
termination by (relation "measure (\<lambda>(_, _, c). length c)") auto

declare decrypt_blocks.simps [simp del]

text \<open>The length check: the ciphertext without its padding byte, and that byte.\<close>

definition strip_padding :: "bytes \<Rightarrow> go_error + bytes \<times> nat" where
  "strip_padding cs =
     (if length cs < 16 then Inl CipherTooShort
      else if length cs mod 16 = 0 then Inr (cs, 0)
      else if length cs mod 16 = 1 then
        (let pad = of_char (last cs) :: nat in
         if pad \<le> 0 \<or> 16 \<le> pad then Inl InvalidPaddingByte
         else if length (butlast cs) mod 16 \<noteq> 0 then Inl BadCipherLength
         else Inr (butlast cs, pad))
      else Inl BadCipherLength)"

definition DecryptPassword :: "(bytes \<Rightarrow> bytes \<Rightarrow> bytes) \<Rightarrow> string \<Rightarrow> bytes option \<Rightarrow> go_error + string" where
  "DecryptPassword dec cipherHex key =
     (case hex_decode cipherHex of
        None \<Rightarrow> Inl HexError
      | Some cs \<Rightarrow>
          and_then (strip_padding cs)
            (\<lambda>(body, trimPad).
               let k = key_of key in
               if \<not> key_size_ok k then Inl (InvalidKeySize (length k))
               else
                 (let plain = decrypt_blocks (dec k) (replicate 16 (CHR 0x00)) body in
                  if 0 < trimPad then
                    (if length plain < 16 - trimPad then Inl InvalidTrim
                     else Inr (take (length plain - (16 - trimPad)) plain))
                  else Inr plain)))"

section \<open>The fetcher of a configuration (\<open>config.go\<close>)\<close>

record RedisConfig =
  rc_Disabled :: bool
  rc_Host :: string
  rc_Port :: int
  rc_DB :: int
  rc_Crypto :: bool
  rc_PasswordHex :: string
  rc_UserKeyPattern :: string
  rc_ItemKeyPattern :: string
  rc_FilterExposureKey :: string
  rc_FilterFeatureLessKey :: string
  rc_FilterLabelKey :: string
  rc_RecallLanePrefix :: string
  rc_RecallCFUserKey :: string

definition or_default :: "string \<Rightarrow> string \<Rightarrow> string" where
  "or_default s d = (if s = [] then d else s)"

definition config_patterns :: "RedisConfig \<Rightarrow> KeyPatterns" where
  "config_patterns c =
     DefaultKeyPatterns\<lparr>kp_UserFeat := or_default (rc_UserKeyPattern c) (kp_UserFeat DefaultKeyPatterns),
        kp_ItemFeat := or_default (rc_ItemKeyPattern c) (kp_ItemFeat DefaultKeyPatterns)\<rparr>"

definition config_strategy :: "RedisConfig \<Rightarrow> StrategyKeyPatterns" where
  "config_strategy c =
     (let d = DefaultStrategyKeyPatterns in
      d\<lparr>sk_FilterExposure := or_default (rc_FilterExposureKey c) (sk_FilterExposure d),
        sk_FilterFeatureLess := or_default (rc_FilterFeatureLessKey c) (sk_FilterFeatureLess d),
        sk_FilterLabel := or_default (rc_FilterLabelKey c) (sk_FilterLabel d),
        sk_RecallLanePrefix := or_default (rc_RecallLanePrefix c) (sk_RecallLanePrefix d),
        sk_RecallCFUser := or_default (rc_RecallCFUserKey c) (sk_RecallCFUser d)\<rparr>)"

definition NewFetcher ::
  "(string \<Rightarrow> string) \<Rightarrow> (bytes \<Rightarrow> bytes \<Rightarrow> bytes) \<Rightarrow> (string \<Rightarrow> string \<Rightarrow> int \<Rightarrow> go_error + redis) \<Rightarrow>
   RedisConfig \<Rightarrow> go_error + Fetcher" where
  "NewFetcher getenv dec dial c =
     (if rc_Disabled c then Inr NoOp
      else
        (let pwdHex = or_default (rc_PasswordHex c) (getenv ''RECSYS_REDIS_PASSWORD_HEX'') in
         if pwdHex = [] then Inl PasswordMissing
         else and_then (if rc_Crypto c then DecryptPassword dec pwdHex None else Inr pwdHex)
           (\<lambda>plain.
              let host = or_default (rc_Host c) ''algo-cn-test-redis.miniworldplus.com'';
                  port = (if rc_Port c \<le> 0 then 6379 else rc_Port c)
              in NewRedisJSONFetcher dial
                   \<lparr>rj_Addr = Sprintf ''%s:%d'' [FStr host, FInt ''int'' port], rj_Password = plain, rj_DB = rc_DB c,
                    rj_Keys = config_patterns c, rj_Strategy = config_strategy c\<rparr>)))"

section \<open>Decryption undoes encryption\<close>

lemma xor_byte: "a < 256 \<Longrightarrow> b < 256 \<Longrightarrow> a XOR b < (256 :: nat)"
proof -
  assume "a < 256" "b < 256"
  then have "take_bit 8 a = a" "take_bit 8 b = b" by (simp_all add: take_bit_nat_eq_self)
  then have "take_bit 8 (a XOR b) = a XOR b" by (simp add: take_bit_xor)
  then show ?thesis using take_bit_nat_less_exp[of 8 "a XOR b"] by simp
qed

lemma xor_char_cancel [simp]: "xor_char (xor_char a b) b = a" "xor_char (xor_char b a) b = a"
proof -
  have n: "(of_char c :: nat) < 256" for c using nat_of_char_less_256[of c] by simp
  have "(of_char (xor_char a b) :: nat) = of_char a XOR of_char b" for a b
    using xor_byte[OF n n, of a b] by (simp add: xor_char_def)
  then show "xor_char (xor_char a b) b = a" "xor_char (xor_char b a) b = a"
    by (simp_all add: xor_char_def[of "xor_char _ _"] xor.assoc xor.commute xor.left_commute)
qed

lemma hex_val_nibble: "d < 16 \<Longrightarrow> hex_val (nibble_char d) = Some d"
  by (auto simp: hex_val_def nibble_char_def Let_def)

lemma hex_decode_encode: "hex_decode (hex_encode s) = Some s"
proof (induction s)
  case (Cons c s)
  have "(of_char c :: nat) < 256" using nat_of_char_less_256[of c] by simp
  then have "of_char c div 16 < (16 :: nat)" "of_char c mod 16 < (16 :: nat)"
    by (simp_all add: less_mult_imp_div_less)
  then have "hex_val (nibble_char (of_char c div 16)) = Some (of_char c div 16)"
    "hex_val (nibble_char (of_char c mod 16)) = Some (of_char c mod 16)"
    by (simp_all add: hex_val_nibble)
  moreover have "char_of (16 * (of_char c div 16) + of_char c mod 16 :: nat) = c" by simp
  ultimately show ?case using Cons by (simp add: hex_encode_def Let_def)
qed (simp add: hex_encode_def)


text \<open>What AES promises: on blocks of 16 bytes, decryption inverts encryption.\<close>

definition block_cipher :: "(bytes \<Rightarrow> bytes \<Rightarrow> bytes) \<Rightarrow> (bytes \<Rightarrow> bytes \<Rightarrow> bytes) \<Rightarrow> bytes \<Rightarrow> bool" where
  "block_cipher enc dec k \<longleftrightarrow> (\<forall>b. length b = 16 \<longrightarrow> length (enc k b) = 16 \<and> dec k (enc k b) = b)"

lemma block_cipherD:
  "block_cipher enc dec k \<Longrightarrow> length b = 16 \<Longrightarrow> length (enc k b) = 16"
  "block_cipher enc dec k \<Longrightarrow> length b = 16 \<Longrightarrow> dec k (enc k b) = b"
  by (simp_all add: block_cipher_def)

definition blocks_of :: "nat \<Rightarrow> nat" where
  "blocks_of n = (n + 15) div 16"

lemma blocks_of_simps: "n \<noteq> 0 \<Longrightarrow> blocks_of n = Suc (blocks_of (n - 16))"
  unfolding blocks_of_def by (cases "16 \<le> n") (auto simp: div_if[of "n + 15"])

lemma blocks_of_rem: "0 < r \<Longrightarrow> r < 16 \<Longrightarrow> blocks_of (16 * q + r) = Suc q"
  unfolding blocks_of_def by (intro div_nat_eqI) auto

lemma encrypt_length:
  assumes "block_cipher enc dec k" "length buf = 16"
  shows "length (encrypt_blocks (enc k) buf data) = 16 * blocks_of (length data)"
  using assms(2)
proof (induction "enc k" buf data rule: encrypt_blocks.induct)
  case (1 buf data)
  show ?case
  proof (cases "data = []")
    case False
    let ?in = "map2 xor_char (take (length (take 16 data)) buf) (take 16 data) @ drop (length (take 16 data)) buf"
    have l: "length ?in = 16" using 1(2) by simp
    have b: "length (enc k ?in) = 16" by (rule block_cipherD(1)[OF assms(1) l])
    then show ?thesis
      using 1(1)[OF False refl refl b] False blocks_of_simps[of "length data"]
      by (subst encrypt_blocks.simps) (simp add: Let_def)
  qed (simp add: encrypt_blocks.simps blocks_of_def)
qed

lemma xor_chain: "length b = 16 \<Longrightarrow> length p \<le> 16 \<Longrightarrow>
    take (length p) (map2 xor_char (map2 xor_char (take (length p) b) p @ drop (length p) b) b) = p"
  by (rule nth_equalityI) (auto simp: nth_append)

lemma decrypt_encrypt:
  assumes "block_cipher enc dec k" "length buf = 16"
  shows "take (length data) (decrypt_blocks (dec k) buf (encrypt_blocks (enc k) buf data)) = data
    \<and> length (decrypt_blocks (dec k) buf (encrypt_blocks (enc k) buf data)) = 16 * blocks_of (length data)"
  using assms(2)
proof (induction "enc k" buf data rule: encrypt_blocks.induct)
  case (1 buf data)
  show ?case
  proof (cases "data = []")
    case False
    let ?p = "take 16 data"
    let ?in = "map2 xor_char (take (length ?p) buf) ?p @ drop (length ?p) buf"
    have l: "length ?in = 16" using 1(2) by simp
    have b: "length (enc k ?in) = 16" "dec k (enc k ?in) = ?in" by (rule block_cipherD[OF assms(1) l])+
    let ?rest = "encrypt_blocks (enc k) (enc k ?in) (drop 16 data)"
    have e: "encrypt_blocks (enc k) buf data = enc k ?in @ ?rest"
      using False by (subst encrypt_blocks.simps) (simp only: Let_def if_False)
    let ?first = "map2 xor_char ?in buf"
    let ?more = "decrypt_blocks (dec k) (enc k ?in) ?rest"
    have d: "decrypt_blocks (dec k) buf (encrypt_blocks (enc k) buf data) = ?first @ ?more"
      using b by (subst decrypt_blocks.simps) (auto simp: e Let_def)
    have f: "length ?first = 16" using l 1(2) by simp
    have f2: "take (length ?p) ?first = ?p" by (rule xor_chain) (use 1(2) in simp_all)
    have ih: "take (length (drop 16 data)) ?more = drop 16 data" "length ?more = 16 * blocks_of (length (drop 16 data))"
      using 1(1)[OF False refl refl b(1)] by auto
    have "take (length data) (?first @ ?more) = data"
    proof (cases "length data \<le> 16")
      case True
      then show ?thesis using f f2 by simp
    next
      case big: False
      then have "take 16 ?first = take 16 data" using f2 by simp
      then show ?thesis using big f ih(1) append_take_drop_id[of 16 data] by simp
    qed
    moreover have "length (?first @ ?more) = 16 * blocks_of (length data)"
      using f ih(2) 1(2) False blocks_of_simps[of "length data"] by simp
    ultimately show ?thesis unfolding d by blast
  qed (simp add: encrypt_blocks.simps decrypt_blocks.simps blocks_of_def)
qed

text \<open>C31: a password that is not empty comes back from its wrapping, under the built-in key or any key of a
  valid size, whether or not its length is a multiple of the block size.\<close>

theorem DecryptPassword_EncryptPassword:
  assumes "block_cipher enc dec (key_of key)" "key_size_ok (key_of key)" "plain \<noteq> []"
  shows "and_then (EncryptPassword enc plain key) (\<lambda>c. DecryptPassword dec c key) = Inr plain"
proof -
  let ?z = "replicate 16 (CHR 0x00)" and ?k = "key_of key" and ?n = "length plain"
  let ?out = "encrypt_blocks (enc ?k) ?z plain"
  have lo: "length ?out = 16 * blocks_of ?n" by (rule encrypt_length[OF assms(1)]) simp
  have d: "take ?n (decrypt_blocks (dec ?k) ?z ?out) = plain"
    "length (decrypt_blocks (dec ?k) ?z ?out) = 16 * blocks_of ?n"
    using decrypt_encrypt[OF assms(1), of ?z plain] by simp_all
  have pos: "0 < blocks_of ?n" using assms(3) blocks_of_simps[of ?n] by simp
  show ?thesis
  proof (cases "?n mod 16 = 0")
    case True
    then obtain m where "?n = 16 * m" by (auto elim: dvdE)
    then have "16 * blocks_of ?n = ?n" by (simp add: blocks_of_def)
    moreover have "strip_padding ?out = Inr (?out, 0)" using lo pos by (simp add: strip_padding_def)
    ultimately show ?thesis
      using assms(2) d True by (simp add: EncryptPassword_def DecryptPassword_def Let_def hex_decode_encode)
  next
    case False
    have n: "?n = 16 * (?n div 16) + ?n mod 16" by simp
    have "blocks_of (16 * (?n div 16) + ?n mod 16) = Suc (?n div 16)"
      by (rule blocks_of_rem) (use False in simp_all)
    then have "16 * blocks_of ?n = 16 + 16 * (?n div 16)" using n by simp
    moreover have "?n mod 16 < 16" by simp
    ultimately have q: "16 * blocks_of ?n - (16 - ?n mod 16) = ?n" "16 - ?n mod 16 \<le> 16 * blocks_of ?n"
      using n by simp_all
    have "(of_char (char_of (?n mod 16) :: char) :: nat) = ?n mod 16" by simp
    then have "strip_padding (?out @ [char_of (?n mod 16)]) = Inr (?out, ?n mod 16)"
      using lo pos False by (simp add: strip_padding_def Let_def mod_Suc)
    then show ?thesis
      using assms(2) d q False by (simp add: EncryptPassword_def DecryptPassword_def Let_def hex_decode_encode not_less)
  qed
qed

lemma DecryptPassword_EncryptPassword_witness:
  "let key = Some (replicate 16 (CHR ''k'')) in
   and_then (EncryptPassword (\<lambda>k. rev) ''secret'' key) (\<lambda>c. DecryptPassword (\<lambda>k. rev) c key) = Inr ''secret''"
proof -
  let ?key = "Some (replicate 16 (CHR ''k''))"
  have "block_cipher (\<lambda>k. rev) (\<lambda>k. rev) (key_of ?key)" by (simp add: block_cipher_def)
  moreover have "key_size_ok (key_of ?key)" by (simp add: key_size_ok_def key_of_def)
  ultimately have "and_then (EncryptPassword (\<lambda>k. rev) ''secret'' ?key) (\<lambda>c. DecryptPassword (\<lambda>k. rev) c ?key) = Inr ''secret''"
    by (rule DecryptPassword_EncryptPassword) simp
  then show ?thesis by (simp only: Let_def)
qed

end
