(* ===== verification/Multi_Rank.thy ===== *)
theory Multi_Rank
  imports Rank_Engine Rank_Client Redis_Crypt
begin

text \<open>
  The rank service around the engine: \<open>internal/logic/multiranklogic.go\<close> (one request over all its
  groups), \<open>internal/svc/servicecontext.go\<close> (the engine registry), the settings it is built from and the
  HTTP route \<open>/v1/rank/multi\<close> of \<open>internal/handler/routes.go\<close>. Engines are pointers that several profile
  names may share, so the registry maps names to addresses of an explicit store.
\<close>

section \<open>The service context\<close>

record RankService =
  rs_store :: "Engine list"
  rs_engines :: "(string \<rightharpoonup> nat) option"
  rs_rankExp :: "RankExpConf option"

definition EngineFor :: "RankService \<Rightarrow> string \<Rightarrow> nat option" where
  "EngineFor s profile =
     (case rs_engines s of
        None \<Rightarrow> None
      | Some m \<Rightarrow>
          (case (if profile \<noteq> [] then m profile else None) of
             Some a \<Rightarrow> Some a
           | None \<Rightarrow> m ''default''))"

record FeatureRedis =
  fr_Disabled :: bool
  fr_Host :: string
  fr_Port :: int
  fr_DB :: int
  fr_Crypto :: bool
  fr_PasswordHex :: string
  fr_UserKeyPattern :: string
  fr_ItemKeyPattern :: string

definition AsFeaturestore :: "FeatureRedis \<Rightarrow> RedisConfig" where
  "AsFeaturestore c =
     \<lparr>rc_Disabled = fr_Disabled c, rc_Host = fr_Host c, rc_Port = fr_Port c, rc_DB = fr_DB c, rc_Crypto = fr_Crypto c,
      rc_PasswordHex = fr_PasswordHex c, rc_UserKeyPattern = fr_UserKeyPattern c,
      rc_ItemKeyPattern = fr_ItemKeyPattern c, rc_FilterExposureKey = [], rc_FilterFeatureLessKey = [],
      rc_FilterLabelKey = [], rc_RecallLanePrefix = [], rc_RecallCFUserKey = []\<rparr>"

text \<open>The maps of profiles and bundles in the order the range statements visit them.\<close>

record RankConfig =
  cf_RankEngine :: RankEngineConfig
  cf_RankProfiles :: "(string \<times> RankEngineConfig) list"
  cf_RankModelBundles :: "(string \<times> RankEngineConfig) list"
  cf_RankExpConfPath :: string
  cf_FeatureRedis :: FeatureRedis

text \<open>
  What the constructor needs of the outside: environment, block decryption, the Redis connection, files,
  \<open>strconv\<close>'s other float spellings, and \<open>filepath.IsAbs\<close> and \<open>filepath.Join(filepath.Dir(cfg), p)\<close>.
\<close>

record rank_host =
  ho_getenv :: "string \<Rightarrow> string"
  ho_decrypt :: "bytes \<Rightarrow> bytes \<Rightarrow> bytes"
  ho_dial :: "string \<Rightarrow> string \<Rightarrow> int \<Rightarrow> go_error + redis"
  ho_read_file :: "string \<Rightarrow> go_error + bytes"
  ho_float :: "string \<Rightarrow> float64 option"
  ho_is_abs :: "string \<Rightarrow> bool"
  ho_beside :: "string \<Rightarrow> string \<Rightarrow> string"

definition new_engine :: "rank_host \<Rightarrow> Fetcher \<Rightarrow> RankEngineConfig \<Rightarrow> go_error + Engine" where
  "new_engine ho fetch cfg = NewEngine (ho_read_file ho) (ho_float ho) cfg (Some fetch)"

type_synonym registry = "Engine list \<times> (string \<rightharpoonup> nat)"

definition add_engine :: "string \<Rightarrow> Engine \<Rightarrow> registry \<Rightarrow> registry" where
  "add_engine name e r = (case r of (store, m) \<Rightarrow> (store @ [e], m(name \<mapsto> length store)))"

definition add_bundle :: "rank_host \<Rightarrow> Fetcher \<Rightarrow> string \<times> RankEngineConfig \<Rightarrow> registry \<Rightarrow> go_error + registry" where
  "add_bundle ho fetch krc r =
     (case krc of (k, rc) \<Rightarrow> and_then (new_engine ho fetch rc) (\<lambda>e. Inr (add_engine k e r)))"

definition add_profile :: "rank_host \<Rightarrow> Fetcher \<Rightarrow> string \<times> RankEngineConfig \<Rightarrow> registry \<Rightarrow> go_error + registry" where
  "add_profile ho fetch nrc r =
     (case nrc of (name, rc) \<Rightarrow>
        if name = [] \<or> name = ''default'' then Inr r
        else if snd r name \<noteq> None then Inr r
        else and_then (new_engine ho fetch rc) (\<lambda>e. Inr (add_engine name e r)))"

definition load_rank_exp :: "rank_host \<Rightarrow> string \<Rightarrow> string \<Rightarrow> go_error + RankExpConf option" where
  "load_rank_exp ho path cfgPath =
     (if path = [] then Inr None
      else
        (let p = (if \<not> ho_is_abs ho path \<and> cfgPath \<noteq> [] then ho_beside ho cfgPath path else path) in
         and_then (LoadRankExpConf (ho_read_file ho) p) (\<lambda>c. Inr (Some c))))"

definition NewRankService :: "rank_host \<Rightarrow> RankConfig \<Rightarrow> string \<Rightarrow> go_error + RankService" where
  "NewRankService ho c configFilePath =
     and_then (NewFetcher (ho_getenv ho) (ho_decrypt ho) (ho_dial ho) (AsFeaturestore (cf_FeatureRedis c)))
       (\<lambda>fetch. and_then (load_rank_exp ho (cf_RankExpConfPath c) configFilePath)
         (\<lambda>rankExp. and_then (new_engine ho fetch (cf_RankEngine c))
           (\<lambda>def. and_then (fold_try (add_bundle ho fetch) (cf_RankModelBundles c)
                       ([def], [''default'' \<mapsto> 0, [] \<mapsto> 0]))
             (\<lambda>r. and_then (fold_try (add_profile ho fetch) (cf_RankProfiles c) r)
               (\<lambda>(store, m). Inr \<lparr>rs_store = store, rs_engines = Some m, rs_rankExp = rankExp\<rparr>)))))"

section \<open>One request (\<open>multiranklogic.go\<close>)\<close>

definition firstExp :: "int32 list \<Rightarrow> int32" where
  "firstExp exps = (case exps of [] \<Rightarrow> 0 | e # _ \<Rightarrow> e)"

text \<open>Experiment ids, profile and limits of a request.\<close>

definition rank_plan ::
  "RankExpConf option \<Rightarrow> MultiRankRequestJSON \<Rightarrow> (int32 \<times> int32 \<times> int32) \<times> string \<times> int32 \<times> int32" where
  "rank_plan conf req =
     (case conf of
        Some rc \<Rightarrow>
          (let (preExpID, ps) = ResolvePreRank (Some rc) (qj_ExpIDs req);
               (rankExpID, rs) = ResolveRank (Some rc) (qj_ExpIDs req);
               (reExpID, _) = ResolveReRank (Some rc) (qj_ExpIDs req);
               profile =
                 (case (ps, rs) of
                    (Some p, Some r) \<Rightarrow>
                      if qj_RankProfile req = [] \<and> st_ModelName p \<noteq> [] \<and> st_ModelName r \<noteq> []
                      then RankModelBundleKey (st_ModelName p) (st_ModelName r) else qj_RankProfile req
                  | _ \<Rightarrow> qj_RankProfile req);
               trunc = (\<lambda>given st. case st of
                    Some s \<Rightarrow> if given \<le> 0 \<and> 0 < st_TruncCount s then wrap32 (st_TruncCount s) else given
                  | None \<Rightarrow> given)
           in ((preExpID, rankExpID, reExpID), profile, trunc (qj_PreRankTrunc req) ps, trunc (qj_RankTrunc req) rs))
      | None \<Rightarrow>
          (let e0 = firstExp (qj_ExpIDs req) in
           ((e0, e0, e0), qj_RankProfile req, qj_PreRankTrunc req, qj_RankTrunc req)))"

definition scores_json :: "ScoredItem \<Rightarrow> ItemScoresJSON" where
  "scores_json s = \<lparr>sj_ItemID = si_ItemID s, sj_PreRankScore = si_PreRank s, sj_RankScore = si_Rank s,
     sj_ReRankScore = si_ReRank s\<rparr>"

text \<open>The groups in order, on one engine (a nil engine panics at the first candidate).\<close>

fun rank_groups ::
  "rank_env \<Rightarrow> int64 \<Rightarrow> int32 \<Rightarrow> int32 \<Rightarrow> ItemGroupJSON list \<Rightarrow> Engine option \<Rightarrow> string list \<Rightarrow>
   go_error + RankedGroupJSON list \<times> Engine option \<times> string list" where
  "rank_groups rt userID preTrunc rankTrunc [] eng sent = Inr ([], eng, sent)"
| "rank_groups rt userID preTrunc rankTrunc (g # gs) eng sent =
     and_then
       (case eng of
          None \<Rightarrow> if gj_ItemIDs g = [] then Inr ([], None, sent) else Inl NilPanic
        | Some e \<Rightarrow>
            (case RankGroupExt rt e userID (gj_ItemIDs g) (gj_RetCount g) preTrunc rankTrunc sent of
               (out, e', sent') \<Rightarrow> Inr (out, Some e', sent')))
       (\<lambda>(out, eng', sent').
          and_then (rank_groups rt userID preTrunc rankTrunc gs eng' sent')
            (\<lambda>(rest, fin). Inr (\<lparr>rj_Name = gj_Name g, rj_ItemScores = map scores_json out\<rparr> # rest, fin)))"

definition Handle ::
  "rank_env \<Rightarrow> RankService \<Rightarrow> MultiRankRequestJSON \<Rightarrow> string list \<Rightarrow>
   go_error + MultiRankResponseJSON \<times> RankService \<times> string list" where
  "Handle rt svc req sent =
     (case rank_plan (rs_rankExp svc) req of
        ((preExpID, rankExpID, reExpID), profile, preTrunc, rankTrunc) \<Rightarrow>
          (let addr = (case EngineFor svc profile of Some a \<Rightarrow> Some a | None \<Rightarrow> EngineFor svc []);
               eng = map_option (\<lambda>a. rs_store svc ! a) addr
           in and_then (rank_groups rt (qj_UserID req) preTrunc rankTrunc (qj_ItemGroups req) eng sent)
                (\<lambda>(groups, eng', sent'). Inr
                   (\<lparr>pj_UUID = qj_UUID req, pj_UserID = qj_UserID req,
                     pj_Exp = \<lparr>ej_PreRankExpID = preExpID, ej_RankExpID = rankExpID, ej_ReRankExpID = reExpID\<rparr>,
                     pj_RankedGroups = groups\<rparr>,
                    (case (addr, eng') of
                       (Some a, Some e) \<Rightarrow> svc\<lparr>rs_store := (rs_store svc)[a := e]\<rparr>
                     | _ \<Rightarrow> svc),
                    sent'))))"

section \<open>The route\<close>

text \<open>
  \<open>json.NewDecoder(body).Decode\<close> reads one value and ignores what follows it (a literal or string has to
  be followed by white space). The reply to an encodable response is its JSON and a newline; an encoding
  error leaves the body empty. The text of a decoding error (\<open>refuse\<close>) and what the server makes of a
  panic (\<open>recovered\<close>) are parameters.
\<close>

definition decode_first :: "'a dec \<Rightarrow> 'a \<Rightarrow> bytes \<Rightarrow> 'a option" where
  "decode_first d z s =
     (case jvalue (2 * length s + 2) s of
        None \<Rightarrow> None
      | Some (j, r) \<Rightarrow>
          (case d z j of
             (v, ok) \<Rightarrow>
               if ok \<and> ((case j of JArr _ \<Rightarrow> True | JObj _ \<Rightarrow> True | _ \<Rightarrow> False) \<or> r = [] \<or> is_json_ws (hd r))
               then Some v else None))"

definition rank_handler ::
  "rank_env \<Rightarrow> (float32 \<Rightarrow> string option) \<Rightarrow> (bytes \<Rightarrow> bytes) \<Rightarrow> (go_error \<Rightarrow> http_outcome) \<Rightarrow> RankService \<Rightarrow> bytes \<Rightarrow> string list \<Rightarrow>
   http_outcome \<times> RankService \<times> string list" where
  "rank_handler rt fmt refuse recovered svc body sent =
     (case decode_first dec_MultiRankRequestJSON zero_rank_request body of
        None \<Rightarrow> (Reply 400 (refuse body), svc, sent)
      | Some req \<Rightarrow>
          (case Handle rt svc req sent of
             Inl e \<Rightarrow> (recovered e, svc, sent)
           | Inr (resp, svc', sent') \<Rightarrow>
               (Reply 200 (case enc_MultiRankResponseJSON fmt resp of None \<Rightarrow> [] | Some j \<Rightarrow> json_print j @ [CHR 0x0A]),
                svc', sent')))"

definition rank_health :: http_outcome where
  "rank_health = Reply 200 ''ok''"

section \<open>What a rank request gives\<close>

text \<open>The invariant of the registry: there is a default engine, and every name leads into the store.\<close>

definition svc_ok :: "RankService \<Rightarrow> bool" where
  "svc_ok s =
     (case rs_engines s of
        None \<Rightarrow> False
      | Some m \<Rightarrow> m ''default'' \<noteq> None \<and> (\<forall>a\<in>ran m. a < length (rs_store s)))"

definition registry_ok :: "registry \<Rightarrow> bool" where
  "registry_ok r = (snd r ''default'' \<noteq> None \<and> (\<forall>a\<in>ran (snd r). a < length (fst r)))"

lemma add_engine_ok: "registry_ok r \<Longrightarrow> registry_ok (add_engine name e r)"
  by (cases r) (auto simp: registry_ok_def add_engine_def ran_def split: if_splits)

lemma add_bundle_ok: "add_bundle ho fetch b r = Inr r' \<Longrightarrow> registry_ok r \<Longrightarrow> registry_ok r'"
  by (cases b) (auto simp: add_bundle_def and_then_Inr simp del: split_paired_Ex dest: add_engine_ok)

lemma add_profile_ok: "add_profile ho fetch b r = Inr r' \<Longrightarrow> registry_ok r \<Longrightarrow> registry_ok r'"
  by (cases b) (auto simp: add_profile_def and_then_Inr split: if_splits dest: add_engine_ok)

lemma NewRankService_ok: "NewRankService ho c path = Inr svc \<Longrightarrow> svc_ok svc"
proof -
  assume a: "NewRankService ho c path = Inr svc"
  then obtain fetch def r1 store m where
    r1: "fold_try (add_bundle ho fetch) (cf_RankModelBundles c) ([def], [''default'' \<mapsto> 0, [] \<mapsto> 0]) = Inr r1"
    and r2: "fold_try (add_profile ho fetch) (cf_RankProfiles c) r1 = Inr (store, m)"
    and svc: "rs_store svc = store" "rs_engines svc = Some m"
    by (auto simp: NewRankService_def and_then_Inr)
  have "registry_ok ([def], [''default'' \<mapsto> 0, [] \<mapsto> 0])"
    by (auto simp: registry_ok_def ran_def split: if_splits)
  then have "registry_ok r1"
    by (rule fold_try_invariant[OF r1]) (rule add_bundle_ok)
  then have "registry_ok (store, m)"
    by (rule fold_try_invariant[OF r2]) (rule add_profile_ok)
  then show ?thesis by (auto simp: svc_ok_def registry_ok_def svc)
qed

lemma EngineFor_ok:
  assumes "svc_ok svc"
  shows "\<exists>a. EngineFor svc profile = Some a \<and> a < length (rs_store svc)"
proof -
  obtain m where m: "rs_engines svc = Some m" "m ''default'' \<noteq> None" "\<forall>a\<in>ran m. a < length (rs_store svc)"
    using assms by (auto simp: svc_ok_def split: option.splits)
  then show ?thesis by (auto simp: EngineFor_def ranI split: option.split)
qed

definition group_answer :: "ItemGroupJSON \<Rightarrow> RankedGroupJSON \<Rightarrow> bool" where
  "group_answer g r =
     (rj_Name r = gj_Name g \<and> mset (map sj_ItemID (rj_ItemScores r)) \<subseteq># mset (gj_ItemIDs g) \<and>
      (rj_ItemScores r = []) = (gj_ItemIDs g = []))"

context rank_runtime
begin

lemma group_nonempty: "(fst (RankGroupExt rt e u ids n pt rk sent) = []) = (ids = [])"
proof -
  have c: "(capped k j = 0) = (j = 0)" for k j by (auto simp: capped_def)
  have "(length (fst (RankGroupExt rt e u ids n pt rk sent)) = 0) = (length ids = 0)"
    by (simp add: RankGroupExt_def case_prod_beta mock_length c coarse_length del: length_0_conv)
  then show ?thesis by simp
qed

lemma rank_groups_answer:
  "\<exists>groups e' sent'. rank_groups rt u pt rk gs (Some e) sent = Inr (groups, Some e', sent') \<and> list_all2 group_answer gs groups"
proof (induction gs arbitrary: e sent)
  case (Cons g gs)
  obtain out e' sent' where o: "RankGroupExt rt e u (gj_ItemIDs g) (gj_RetCount g) pt rk sent = (out, e', sent')"
    by (cases "RankGroupExt rt e u (gj_ItemIDs g) (gj_RetCount g) pt rk sent")
  obtain groups e'' sent'' where r: "rank_groups rt u pt rk gs (Some e') sent' = Inr (groups, Some e'', sent'')"
    "list_all2 group_answer gs groups" using Cons by blast
  have "group_answer g \<lparr>rj_Name = gj_Name g, rj_ItemScores = map scores_json out\<rparr>"
    using group_ids[of e u "gj_ItemIDs g" "gj_RetCount g" pt rk sent]
      group_nonempty[of e u "gj_ItemIDs g" "gj_RetCount g" pt rk sent]
    by (simp add: o group_answer_def scores_json_def comp_def)
  then show ?case using r by (simp add: o)
qed simp

lemma Handle_answer:
  assumes "svc_ok svc"
  shows "\<exists>resp svc' sent'. Handle rt svc req sent = Inr (resp, svc', sent') \<and> pj_UUID resp = qj_UUID req \<and>
    pj_UserID resp = qj_UserID req \<and> list_all2 group_answer (qj_ItemGroups req) (pj_RankedGroups resp) \<and>
    svc_ok svc' \<and> rs_engines svc' = rs_engines svc \<and> rs_rankExp svc' = rs_rankExp svc"
proof -
  obtain p r q profile pt rk where plan: "rank_plan (rs_rankExp svc) req = ((p, r, q), profile, pt, rk)"
    by (cases "rank_plan (rs_rankExp svc) req") auto
  obtain a where a: "EngineFor svc profile = Some a" using EngineFor_ok[OF assms] by blast
  obtain groups e' sent' where
    g: "rank_groups rt (qj_UserID req) pt rk (qj_ItemGroups req) (Some (rs_store svc ! a)) sent = Inr (groups, Some e', sent')"
      "list_all2 group_answer (qj_ItemGroups req) groups"
    using rank_groups_answer by blast
  have "svc_ok (svc\<lparr>rs_store := (rs_store svc)[a := e']\<rparr>)" using assms by (simp add: svc_ok_def split: option.splits)
  then show ?thesis using g by (simp add: Handle_def plan a Let_def)
qed

end

text \<open>C20: a rank service built from a configuration answers every request: the groups come back in order under
  their names, each with some of its own candidates (none twice, and at least one when it had any), the
  request is echoed, and the engine registry is as usable as before.\<close>

theorem Handle_groups:
  assumes "rank_runtime rt" "svc_ok svc"
  shows "case Handle rt svc req sent of
      Inl e \<Rightarrow> False
    | Inr (resp, svc', sent') \<Rightarrow>
        pj_UUID resp = qj_UUID req \<and> pj_UserID resp = qj_UserID req
        \<and> list_all2 (\<lambda>g r. rj_Name r = gj_Name g \<and> mset (map sj_ItemID (rj_ItemScores r)) \<subseteq># mset (gj_ItemIDs g)
             \<and> (rj_ItemScores r = []) = (gj_ItemIDs g = [])) (qj_ItemGroups req) (pj_RankedGroups resp)
        \<and> svc_ok svc' \<and> rs_engines svc' = rs_engines svc"
  using rank_runtime.Handle_answer[OF assms, of req sent] by (auto simp: group_answer_def[abs_def])

definition mock_service :: RankService where
  "mock_service = \<lparr>rs_store = [mock_engine], rs_engines = Some [''default'' \<mapsto> 0, [] \<mapsto> 0], rs_rankExp = None\<rparr>"

lemma mock_service_ok: "svc_ok mock_service"
  by (auto simp: svc_ok_def mock_service_def ran_def)

lemma Handle_groups_witness:
  "case Handle rank_env0 mock_service
      (zero_rank_request\<lparr>qj_ItemGroups := [\<lparr>gj_Name = ''Main'', gj_ItemIDs = [4, 5], gj_RetCount = 0\<rparr>]\<rparr>) [] of
    Inl e \<Rightarrow> False
  | Inr (resp, svc', sent') \<Rightarrow> map rj_Name (pj_RankedGroups resp) = [''Main'']"
  using Handle_groups[OF rank0.rank_runtime_axioms mock_service_ok,
      where req = "zero_rank_request\<lparr>qj_ItemGroups := [\<lparr>gj_Name = ''Main'', gj_ItemIDs = [4, 5], gj_RetCount = 0\<rparr>]\<rparr>"
      and sent = "[]"]
  by (auto simp: list_all2_Cons1 split: sum.splits prod.splits)

end
