(* ===== verification/Rank_Call.thy ===== *)
theory Rank_Call
  imports Multi_Rank
begin

text \<open>
  The rank call across the process border: the recommend service's HTTP client
  (\<open>pkg/recsyskit/transporthttp/rank_client.go\<close>) talking through the failover of
  \<open>pkg/upstream/httpcall.go\<close> to the rank service's handler (\<open>services/rank/internal/handler/routes.go\<close>).
  The contract \<open>ranker\<close> is what the funnels of the recommend service rely on.
\<close>

section \<open>The interface\<close>

text \<open>
  A ranker answers a request with the groups asked for, in order and by name, and with scores of their
  candidates only.
\<close>

definition group_scored :: "ItemGroup \<Rightarrow> RankedItemGroup \<Rightarrow> bool" where
  "group_scored g r =
     (rg_Name r = gr_Name g \<and> mset (map sc_ItemID (rg_Items r)) \<subseteq># mset (gr_ItemIDs g) \<and>
      (rg_Items r = []) = (gr_ItemIDs g = []))"

locale ranker =
  fixes rank :: "MultiRankRequest \<Rightarrow> go_error + MultiRankResponse option"
    and admits :: "MultiRankRequest \<Rightarrow> bool"
  assumes rank_groups: "admits req \<Longrightarrow>
    \<exists>resp. rank req = Inr (Some resp) \<and> list_all2 group_scored (mq_Groups req) (mp_Groups resp)"
begin

lemma rank_never_fails: "admits req \<Longrightarrow> \<not> isl (rank req)"
  using rank_groups by fastforce

lemma scored_ids:
  assumes "admits req" "rank req = Inr (Some resp)" "(g, r) \<in> set (zip (mq_Groups req) (mp_Groups resp))"
  shows "set (map sc_ItemID (rg_Items r)) \<subseteq> set (gr_ItemIDs g)"
proof -
  have "group_scored g r" using rank_groups[OF assms(1)] assms(2,3) by (auto simp: list_all2_iff)
  then have "set_mset (mset (map sc_ItemID (rg_Items r))) \<subseteq> set_mset (mset (gr_ItemIDs g))"
    unfolding group_scored_def by (intro set_mset_mono) simp
  then show ?thesis by (simp only: set_mset_mset)
qed

lemma answers_request: "admits req \<Longrightarrow> rank req = Inr (Some resp) \<Longrightarrow> answers req resp"
  using rank_groups[of req] by (cases "mq_Groups req") (auto simp: answers_def list_all2_Cons1 group_scored_def)

end

section \<open>The service called in process\<close>

definition local_rank :: "rank_env \<Rightarrow> RankService \<Rightarrow> string list \<Rightarrow> RankClient" where
  "local_rank rt svc sent = (\<lambda>req. map_sum id (\<lambda>(resp, _). Some (rank_reply resp)) (Handle rt svc (rank_body req) sent))"

lemma group_answer_reply:
  "list_all2 group_answer (qj_ItemGroups (rank_body req)) (pj_RankedGroups resp) \<Longrightarrow>
   list_all2 group_scored (mq_Groups req) (mp_Groups (rank_reply resp))"
  by (simp add: rank_body_def rank_reply_def Let_def list_all2_map1 list_all2_map2 group_answer_def group_scored_def comp_def)

lemma local_rank_groups:
  assumes "rank_runtime rt" "svc_ok svc"
  shows "\<exists>resp. local_rank rt svc sent req = Inr (Some resp) \<and> list_all2 group_scored (mq_Groups req) (mp_Groups resp)"
proof -
  obtain resp svc' sent' where "Handle rt svc (rank_body req) sent = Inr (resp, svc', sent')"
      "list_all2 group_answer (qj_ItemGroups (rank_body req)) (pj_RankedGroups resp)"
    using rank_runtime.Handle_answer[OF assms] by blast
  then show ?thesis using group_answer_reply by (auto simp: local_rank_def)
qed

interpretation local_service: ranker "local_rank rt svc slog" "\<lambda>_. rank_runtime rt \<and> svc_ok svc" for rt svc slog
  by unfold_locales (simp add: local_rank_groups)

section \<open>The service called over HTTP\<close>

lemma decode_request:
  "request_fits q \<Longrightarrow> decode_first dec_MultiRankRequestJSON zero_rank_request (json_print (enc_MultiRankRequestJSON q)) = Some q"
  using jvalue_print[OF json_wf_request[of q], of "[]"] dec_request[of q]
  by (simp add: decode_first_def json_ok_repair[OF json_ok_request] del: jvalue.simps mult_Suc)

lemma handler_reply:
  assumes "request_fits q" "Handle rt svc q sent = Inr (resp, svc', sent')" "enc_MultiRankResponseJSON fmt resp = Some j"
  shows "fst (rank_handler rt fmt refuse recovered svc (json_print (enc_MultiRankRequestJSON q)) sent) =
    Reply 200 (json_print j @ [CHR 0x0A])"
  using assms by (simp add: rank_handler_def decode_request)

lemma check_handler_reply:
  assumes "response_ok fmt resp" "enc_MultiRankResponseJSON fmt resp = Some j"
    and "list_all2 group_answer (qj_ItemGroups (rank_body req)) (pj_RankedGroups resp)"
  shows "check_reply req (json_print j @ [CHR 0x0A]) = Inr (rank_reply resp)"
proof -
  have d: "dec_MultiRankResponseJSON zero_rank_response j = (resp, True)" "json_ok j"
    using dec_response[OF assms(1,2)] by simp_all
  have u: "unmarshal_ok dec_MultiRankResponseJSON zero_rank_response (json_print j @ [CHR 0x0A]) = Some resp"
    using d by (simp add: unmarshal_ok_def unmarshal_def json_ok_def json_parse_print_newline json_repair_valid)
  have g: "list_all2 group_scored (mq_Groups req) (mp_Groups (rank_reply resp))"
    by (rule group_answer_reply) (rule assms(3))
  have "pj_RankedGroups resp = [] \<longleftrightarrow> qj_ItemGroups (rank_body req) = []"
    using assms(3) by (auto dest: list_all2_lengthD)
  moreover have "mq_Groups req \<noteq> [] \<Longrightarrow> gr_ItemIDs (hd (mq_Groups req)) \<noteq> [] \<Longrightarrow>
      mp_Groups (rank_reply resp) \<noteq> [] \<and> rg_Items (hd (mp_Groups (rank_reply resp))) \<noteq> []"
    using g by (cases "mq_Groups req") (auto simp: list_all2_Cons1 group_scored_def)
  ultimately show ?thesis by (auto simp: check_reply_def u Let_def)
qed

text \<open>
  The network between them: of the endpoints a call would contact, every one that answers at all runs the
  service, and one of them answers.
\<close>

definition served :: "http_outcome \<Rightarrow> http_outcome list \<Rightarrow> bool" where
  "served reply outs = (list_all (\<lambda>r. retryable r \<or> r = reply) outs \<and> list_ex (\<lambda>r. \<not> retryable r) outs)"

lemma call_result_served:
  assumes "served (Reply 200 b) outs"
  shows "call_result outs = Inr b"
  using assms
proof (induction outs)
  case (Cons r outs)
  then show ?case by (cases "retryable r") (auto simp: served_def call_result_def split: option.splits)
qed (simp add: served_def)

lemma remote_call:
  assumes "rank_runtime rt" "svc_ok svc" "doer_ok cfg doer" "hd_Balancer doer = Some b" "request_fits (rank_body req)"
    and "\<forall>resp st. Handle rt svc (rank_body req) slog = Inr (resp, st) \<longrightarrow> response_ok fmt resp"
    and "let raw = json_print (enc_MultiRankRequestJSON (rank_body req)) in
         served (fst (rank_handler rt fmt refuse recovered svc raw slog))
           (outcomes net path (\<lambda>_. raw) (length sent) 0 (picks (Next rng) (length (Resolve cfg)) b))"
  shows "as_RankClient rng net (Some \<lparr>rh_doer = Some doer, rh_Path = path\<rparr>) sent req = local_rank rt svc slog req
    \<and> (case local_rank rt svc slog req of
         Inr (Some resp) \<Rightarrow> list_all2 group_scored (mq_Groups req) (mp_Groups resp)
       | _ \<Rightarrow> False)"
proof -
  obtain resp svc' slog' where h: "Handle rt svc (rank_body req) slog = Inr (resp, svc', slog')"
      "list_all2 group_answer (qj_ItemGroups (rank_body req)) (pj_RankedGroups resp)"
    using rank_runtime.Handle_answer[OF assms(1,2)] by blast
  have ok: "response_ok fmt resp" using assms(6) h(1) by blast
  then obtain j where j: "enc_MultiRankResponseJSON fmt resp = Some j" using enc_response_some by blast
  let ?raw = "json_print (enc_MultiRankRequestJSON (rank_body req))"
  have "call_result (outcomes net path (\<lambda>_. ?raw) (length sent) 0 (picks (Next rng) (length (Resolve cfg)) b)) =
      Inr (json_print j @ [CHR 0x0A])"
    by (rule call_result_served) (use assms(7) in \<open>simp add: Let_def handler_reply[OF assms(5) h(1) j]\<close>)
  with PostBytes_outcomes[OF assms(3,4), of rng net path ?raw sent]
  have p: "fst (PostBytes rng net doer path ?raw sent) = Inr (json_print j @ [CHR 0x0A])" by auto
  have "fst (RankHTTPClient_MultiRank rng net (Some \<lparr>rh_doer = Some doer, rh_Path = path\<rparr>) req sent) = Inr (rank_reply resp)"
    using p check_handler_reply[OF ok j h(2)]
    by (cases "PostBytes rng net doer path ?raw sent") (auto simp: RankHTTPClient_MultiRank_def Let_def)
  then show ?thesis
    using group_answer_reply[OF h(2)] by (simp add: as_RankClient_def local_rank_def h(1))
qed

text \<open>
  One side of the link between the services, as a value: the rank service and its run time, the endpoints and
  the client that calls them, and the network and random stream of the call.
\<close>

record rank_link =
  lk_runtime :: rank_env
  lk_fmt :: "float32 \<Rightarrow> string option"
  lk_refuse :: "bytes \<Rightarrow> bytes"
  lk_recovered :: "go_error \<Rightarrow> http_outcome"
  lk_service :: RankService
  lk_service_sent :: "string list"
  lk_endpoints :: EndpointsConfig
  lk_doer :: HTTPDoer
  lk_path :: string
  lk_rng :: "nat \<Rightarrow> nat"
  lk_net :: "nat \<Rightarrow> string \<Rightarrow> bytes \<Rightarrow> http_outcome"
  lk_sent :: "string list"

definition link_client :: "rank_link \<Rightarrow> RankHTTPClient" where
  "link_client k = \<lparr>rh_doer = Some (lk_doer k), rh_Path = lk_path k\<rparr>"

definition link_carries :: "rank_link \<Rightarrow> bytes \<Rightarrow> bool" where
  "link_carries k raw =
     (case hd_Balancer (lk_doer k) of
        None \<Rightarrow> False
      | Some b \<Rightarrow>
          served (fst (rank_handler (lk_runtime k) (lk_fmt k) (lk_refuse k) (lk_recovered k) (lk_service k) raw (lk_service_sent k)))
            (outcomes (lk_net k) (lk_path k) (\<lambda>_. raw) (length (lk_sent k)) 0
               (picks (Next (lk_rng k)) (length (Resolve (lk_endpoints k))) b)))"

definition link_spells :: "rank_link \<Rightarrow> MultiRankRequest \<Rightarrow> bool" where
  "link_spells k req =
     (case Handle (lk_runtime k) (lk_service k) (rank_body req) (lk_service_sent k) of
        Inl _ \<Rightarrow> True
      | Inr (resp, _) \<Rightarrow> response_ok (lk_fmt k) resp)"

definition link_ok :: "rank_link \<Rightarrow> bool" where
  "link_ok k = (rank_runtime (lk_runtime k) \<and> svc_ok (lk_service k) \<and> doer_ok (lk_endpoints k) (lk_doer k))"

definition link_admits :: "rank_link \<Rightarrow> MultiRankRequest \<Rightarrow> bool" where
  "link_admits k req =
     (link_ok k \<and> request_fits (rank_body req) \<and> link_spells k req \<and>
      link_carries k (json_print (enc_MultiRankRequestJSON (rank_body req))))"

definition link_rank :: "rank_link \<Rightarrow> RankClient" where
  "link_rank k = as_RankClient (lk_rng k) (lk_net k) (Some (link_client k)) (lk_sent k)"

definition link_local :: "rank_link \<Rightarrow> RankClient" where
  "link_local k = local_rank (lk_runtime k) (lk_service k) (lk_service_sent k)"

lemma link_call:
  assumes "link_admits k req"
  shows "link_rank k req = link_local k req"
proof -
  obtain b where b: "hd_Balancer (lk_doer k) = Some b"
    using assms by (auto simp: link_admits_def link_carries_def split: option.splits)
  show ?thesis
    unfolding link_rank_def link_local_def link_client_def
    by (rule remote_call[where cfg = "lk_endpoints k" and b = b and fmt = "lk_fmt k" and refuse = "lk_refuse k"
          and recovered = "lk_recovered k", THEN conjunct1])
      (use assms b in \<open>auto simp: link_admits_def link_ok_def link_spells_def link_carries_def Let_def\<close>)
qed

text \<open>The remote service keeps the same contract as the one in process, on the requests the link admits.\<close>

interpretation remote_service: ranker "link_rank k" "link_admits k" for k
proof
  fix req
  assume a: "link_admits k req"
  then have "rank_runtime (lk_runtime k)" "svc_ok (lk_service k)" by (simp_all add: link_admits_def link_ok_def)
  from local_rank_groups[OF this, of "lk_service_sent k" req]
  show "\<exists>resp. link_rank k req = Inr (Some resp) \<and> list_all2 group_scored (mq_Groups req) (mp_Groups resp)"
    using link_call[OF a] by (simp add: link_local_def)
qed

text \<open>C32: a rank call over HTTP gives what the rank service computes in process. Whatever endpoints are down or
  answer 5xx, as soon as one of those the failover reaches runs the service, the request the recommend
  side sends is the one the service handles, and the answer it handles is the one that comes back, provided
  the request's integers are in range, its texts are UTF-8, and \<open>strconv\<close> spells the scores.\<close>

theorem rank_call_is_local:
  assumes "rank_runtime rt" "svc_ok svc" "doer_ok cfg doer" "hd_Balancer doer = Some b" "request_fits (rank_body req)"
    and "\<forall>resp st. Handle rt svc (rank_body req) slog = Inr (resp, st) \<longrightarrow> response_ok fmt resp"
    and "let raw = json_print (enc_MultiRankRequestJSON (rank_body req)) in
         served (fst (rank_handler rt fmt refuse recovered svc raw slog))
           (outcomes net path (\<lambda>_. raw) (length sent) 0 (picks (Next rng) (length (Resolve cfg)) b))"
  shows "as_RankClient rng net (Some \<lparr>rh_doer = Some doer, rh_Path = path\<rparr>) sent req = local_rank rt svc slog req
    \<and> (case local_rank rt svc slog req of
         Inr (Some resp) \<Rightarrow> list_all2 group_scored (mq_Groups req) (mp_Groups resp)
       | _ \<Rightarrow> False)"
  by (rule remote_call[OF assms])

text \<open>A service in mock mode behind the second of two endpoints.\<close>

definition call_service :: RankService where
  "call_service = mock_service\<lparr>rs_store := [mock_engine\<lparr>eg_cfg := (eg_cfg mock_engine)\<lparr>rk_Mode := ''mock''\<rparr>\<rparr>]\<rparr>"

definition call_request :: MultiRankRequest where
  "call_request = \<lparr>mq_Ctx = zero_ctx\<lparr>rc_UUID := ''u'', rc_UserID := 9\<rparr>,
     mq_Groups = [\<lparr>gr_Name = ''Main'', gr_ItemIDs = [3], gr_RetCount = 0\<rparr>],
     mq_PreRankTrunc = 0, mq_RankTrunc = 0, mq_RankProfile = []\<rparr>"

definition call_response :: MultiRankResponseJSON where
  "call_response = \<lparr>pj_UUID = ''u'', pj_UserID = 9, pj_Exp = \<lparr>ej_PreRankExpID = 0, ej_RankExpID = 0, ej_ReRankExpID = 0\<rparr>,
     pj_RankedGroups = [\<lparr>rj_Name = ''Main'', rj_ItemScores =
       [\<lparr>sj_ItemID = 3, sj_PreRankScore = Fin 1, sj_RankScore = Fin 1, sj_ReRankScore = Fin 1\<rparr>]\<rparr>]\<rparr>"

lemma call_service_ok: "svc_ok call_service"
  by (auto simp: svc_ok_def call_service_def mock_service_def ran_def)

lemma call_request_fits: "request_fits (rank_body call_request)"
  by (simp add: request_fits_def rank_body_def call_request_def zero_ctx_def group_fits_def fits_def Let_def)

lemma call_response_ok: "response_ok one_fmt call_response"
  by (simp add: call_response_def response_ok_def scores_ok_def ExpInfo_fits_def fits_def one_fmt_spells)

lemma Handle_call: "\<exists>st. Handle rank_env0 call_service (rank_body call_request) [] = Inr (call_response, st)"
proof -
  have f: "float32_of_int 1 = Fin 1" using float32_small[of 1] by simp
  have "mockRankGroup rank_env0 [3] 0 = [\<lparr>si_ItemID = 3, si_PreRank = Fin 1, si_Rank = Fin 1, si_ReRank = Fin 1\<rparr>]"
    by (simp add: mockRankGroup_def rank_env0_def go_insertion_sort_def f limit_def Let_def)
  then show ?thesis
    by (simp add: Handle_def rank_plan_def EngineFor_def call_service_def mock_service_def mock_engine_def
        rank_body_def call_request_def call_response_def zero_ctx_def RankGroupExt_def scores_json_def firstExp_def Let_def)
qed

lemma rank_call_is_local_witness:
  "let net = (\<lambda>k url raw. if k = 0 then Reply 503 ''busy''
              else fst (rank_handler rank_env0 one_fmt id (\<lambda>_. Reply 500 []) call_service raw []))
   in as_RankClient (\<lambda>_. 0) net
        (Some \<lparr>rh_doer = Some \<lparr>hd_Balancer = Some (roundRobin [''http://a'', ''http://b''] 0), hd_MaxAttempts = 2\<rparr>,
               rh_Path = ''/v1/rank/multi''\<rparr>) [] call_request
      = Inr (Some (rank_reply call_response))"
proof -
  let ?cfg = "\<lparr>ep_BaseURL = [], ep_Endpoints = [''http://a'', ''http://b''], ep_LoadBalance = ''round_robin''\<rparr>"
  let ?d = "\<lparr>hd_Balancer = Some (roundRobin [''http://a'', ''http://b''] 0), hd_MaxAttempts = 2\<rparr>"
  let ?net = "\<lambda>k url raw. if k = (0::nat) then Reply 503 ''busy''
              else fst (rank_handler rank_env0 one_fmt id (\<lambda>_. Reply 500 []) call_service raw [])"
  let ?raw = "json_print (enc_MultiRankRequestJSON (rank_body call_request))"
  have r: "Resolve ?cfg = [''http://a'', ''http://b'']" by code_simp
  have d: "doer_ok ?cfg ?d" by (simp add: doer_ok_def r)
  obtain st where h: "Handle rank_env0 call_service (rank_body call_request) [] = Inr (call_response, st)"
    using Handle_call by blast
  obtain j where j: "enc_MultiRankResponseJSON one_fmt call_response = Some j"
    using enc_response_some[OF call_response_ok] by blast
  have reply: "fst (rank_handler rank_env0 one_fmt id (\<lambda>_. Reply 500 []) call_service ?raw []) = Reply 200 (json_print j @ [CHR 0x0A])"
    by (cases st) (rule handler_reply[OF call_request_fits _ j], use h in simp)
  have ok: "\<forall>resp st. Handle rank_env0 call_service (rank_body call_request) [] = Inr (resp, st) \<longrightarrow> response_ok one_fmt resp"
    using h call_response_ok by simp
  have served: "let raw = ?raw in
      served (fst (rank_handler rank_env0 one_fmt id (\<lambda>_. Reply 500 []) call_service raw []))
        (outcomes ?net ''/v1/rank/multi'' (\<lambda>_. raw) (length ([] :: string list)) 0
          (picks (Next (\<lambda>_. 0)) (length (Resolve ?cfg)) (roundRobin [''http://a'', ''http://b''] 0)))"
    by (simp add: r Let_def numeral_2_eq_2 reply served_def retryable_def)
  have "as_RankClient (\<lambda>_. 0) ?net (Some \<lparr>rh_doer = Some ?d, rh_Path = ''/v1/rank/multi''\<rparr>) [] call_request =
      local_rank rank_env0 call_service [] call_request"
    using rank_call_is_local[OF rank0.rank_runtime_axioms call_service_ok d _ call_request_fits ok served] by simp
  then show ?thesis by (simp add: local_rank_def h Let_def case_prod_beta)
qed

end
