(* ===== verification/Center_Pipeline.thy ===== *)
theory Center_Pipeline
  imports Rank_Call Recall_Lanes Show_Control Item_Filters Pipeline
begin

text \<open>
  The center pipeline of the recommend service, \<open>services/recommend/internal/pipeline\<close> (\<open>center.go\<close>,
  \<open>result.go\<close>): exclusive and main recall lanes, filters, the rank call on the main list, show control and
  the response. A \<open>(*Result, error)\<close> with both nil is \<open>Inr None\<close>: the caller falls through to the next mode.
\<close>

record Center =
  ce_Features :: "Fetcher option"
  ce_Center :: "CenterBundle option"
  ce_Recall :: "Registry option"
  ce_Rank :: "RankClient option"

record Result =
  re_Resp :: RecommendResponseJSON
  re_Items :: "ItemInfo list"

section \<open>Recall\<close>

text \<open>What both kinds of lanes do with a rule's raw items; the error is that of the portrait lookup.\<close>

definition use_top_k :: "RecallMergeRule \<Rightarrow> ItemInfo list \<Rightarrow> ItemInfo list" where
  "use_top_k rule raw =
     (if 0 < rr_UseTopKIndex rule \<and> rr_UseTopKIndex rule < int (length raw) then upto_n (rr_UseTopKIndex rule) raw else raw)"

definition merge_max :: "RecallMergeRule \<Rightarrow> int" where
  "merge_max rule = (if rr_MergeMaxNum rule \<le> 0 then rr_RecallNum rule else rr_MergeMaxNum rule)"

definition lane_batch :: "Fetcher option \<Rightarrow> RecallMergeRule \<Rightarrow> ItemInfo list \<Rightarrow> go_error + ItemInfo list" where
  "lane_batch feat rule raw =
     and_then (MarkItemPortraits feat (use_top_k rule raw))
       (\<lambda>marked. Inr (ApplySampleFoldAndCap (DropWithoutPortrait marked) (rr_SampleFold rule) (merge_max rule)))"

text \<open>An exclusive lane that fails or is empty is skipped; a later rule of the same type replaces the lane.\<close>

definition exclusive_step ::
  "go_env \<Rightarrow> Fetcher option \<Rightarrow> Registry \<Rightarrow> RequestContext \<Rightarrow> RecallMergeRule \<Rightarrow> ExclusivePool \<Rightarrow> ExclusivePool" where
  "exclusive_step env feat reg rctx rule pool =
     (case Lane env reg rctx rule of
        Inl _ \<Rightarrow> pool
      | Inr raw \<Rightarrow>
          if raw = [] then pool
          else
            (case lane_batch feat rule raw of
               Inl _ \<Rightarrow> pool
             | Inr batch \<Rightarrow> if batch \<noteq> [] then pool(rr_RecallType rule \<mapsto> batch) else pool))"

definition runExclusiveLanes ::
  "go_env \<Rightarrow> Fetcher option \<Rightarrow> Registry \<Rightarrow> RequestContext \<Rightarrow> RecallMergeRule list \<Rightarrow> ExclusivePool" where
  "runExclusiveLanes env feat reg rctx rules = fold (exclusive_step env feat reg rctx) rules Map.empty"

definition recall_lane ::
  "go_env \<Rightarrow> Fetcher option \<Rightarrow> Registry \<Rightarrow> RequestContext \<Rightarrow> RecallMergeRule \<Rightarrow> go_error + ItemInfo list" where
  "recall_lane env feat reg rctx rule = and_then (Lane env reg rctx rule) (lane_batch feat rule)"

fun runRecallLanes ::
  "go_env \<Rightarrow> Fetcher option \<Rightarrow> Registry \<Rightarrow> RequestContext \<Rightarrow> RecallMergeRule list \<Rightarrow> go_error + ItemInfo list list" where
  "runRecallLanes env feat reg rctx [] = Inr []"
| "runRecallLanes env feat reg rctx (rule # rules) =
     and_then (recall_lane env feat reg rctx rule)
       (\<lambda>batch. and_then (runRecallLanes env feat reg rctx rules) (\<lambda>batches. Inr (batch # batches)))"

section \<open>Filtering, ranking, showing\<close>

definition loadExposure :: "go_env \<Rightarrow> Fetcher option \<Rightarrow> RequestContext \<Rightarrow> RequestContext" where
  "loadExposure env feat rctx =
     (case feat of
        None \<Rightarrow> rctx
      | Some f \<Rightarrow>
          (case (if fe_NoOp f then None else fe_Strategy f) of
             None \<Rightarrow> rctx
           | Some st \<Rightarrow>
               (case st_FilterExposureJSON st of
                  Inl _ \<Rightarrow> rctx
                | Inr (raw, miss) \<Rightarrow>
                    if miss then rctx
                    else (let m = ParseExposureJSON env raw miss in
                          if m \<noteq> [] then rctx\<lparr>rc_Exposure := Some (map_of m)\<rparr> else rctx))))"

text \<open>The filters of the user group, if a filter library gives one.\<close>

definition filter_pools ::
  "FilterLibrary option \<Rightarrow> RequestContext \<Rightarrow> ItemInfo list \<Rightarrow> ExclusivePool \<Rightarrow> ItemInfo list \<times> ExclusivePool" where
  "filter_pools lib rctx main exclusive =
     (case (if lib \<noteq> None then ResolveFilter lib (rc_ExpIDs rctx) (rc_UserGroup rctx) else None) of
        None \<Rightarrow> (main, exclusive)
      | Some fg \<Rightarrow>
          (case ResolvedRuleAndFeature (Some fg) (rc_ExpIDs rctx) of
             (rules, feats) \<Rightarrow>
               (let main1 = filter_ApplyRuleFilters rctx rules main;
                    main2 = filter_ApplyFeatureFilters feats main1
                in (CapKeepItemNum (fu_KeepItemNum fg) main2, ApplyToExclusivePool rctx rules feats exclusive))))"

text \<open>The rank call on a non-empty list; calling through a nil interface panics.\<close>

definition rank_main :: "RankClient option \<Rightarrow> RequestContext \<Rightarrow> ItemInfo list \<Rightarrow> int32 \<Rightarrow> go_error + ItemInfo list" where
  "rank_main client rctx main ret =
     (case client of
        None \<Rightarrow> Inl NilPanic
      | Some multiRank \<Rightarrow>
          and_then
            (multiRank \<lparr>mq_Ctx = rctx, mq_Groups = [\<lparr>gr_Name = ''Main'', gr_ItemIDs = map it_ID main, gr_RetCount = ret\<rparr>],
                        mq_PreRankTrunc = 0, mq_RankTrunc = 0, mq_RankProfile = []\<rparr>)
            (\<lambda>resp. Inr
               (case resp of
                  None \<Rightarrow> main
                | Some r \<Rightarrow>
                    (case mp_Groups r of
                       [] \<Rightarrow> main
                     | g # _ \<Rightarrow> if rg_Items g \<noteq> [] then center_reorderByRank main (rg_Items g) else main))))"

definition show_items ::
  "go_env \<Rightarrow> Fetcher option \<Rightarrow> ShowLibrary option \<Rightarrow> RequestContext \<Rightarrow> ItemInfo list \<Rightarrow> ExclusivePool \<Rightarrow> ItemInfo list" where
  "show_items env feat lib rctx out exclusive =
     (case (if lib \<noteq> None then ResolveShow lib (rc_ExpIDs rctx) (rc_UserGroup rctx) else None) of
        None \<Rightarrow> out
      | Some sg \<Rightarrow> ApplyStrategies env feat out exclusive (ResolvedStrategyList (Some sg) (rc_ExpIDs rctx)))"

definition buildResponse :: "RecommendRequestJSON \<Rightarrow> ItemInfo list \<Rightarrow> int32 \<Rightarrow> RecommendResponseJSON" where
  "buildResponse req items capCount =
     (let limit = (if 0 < capCount \<and> capCount < int (length items) then nat capCount else length items);
          served = take limit items
      in \<lparr>rr_UserID = rq_UserID req, rr_ItemIDs = map it_ID served,
          rr_Recall = map (\<lambda>it. \<lparr>ir_ItemID = it_ID it, ir_RecallType = it_RecallType it\<rparr>) served\<rparr>)"

definition rankAndShow ::
  "go_env \<Rightarrow> Center \<Rightarrow> CenterBundle \<Rightarrow> RecommendRequestJSON \<Rightarrow> RequestContext \<Rightarrow> ItemInfo list \<Rightarrow> ExclusivePool \<Rightarrow> int32 \<Rightarrow>
   go_error + Result option" where
  "rankAndShow env p cb req rctx main exclusive ret =
     (let ret' = (if main \<noteq> [] \<and> ret \<le> 0 then wrap32 (int (length main)) else ret) in
      and_then (if main \<noteq> [] then rank_main (ce_Rank p) rctx main ret' else Inr main)
        (\<lambda>out. let shown = show_items env (ce_Features p) (cb_Show cb) rctx out exclusive
               in Inr (Some \<lparr>re_Resp = buildResponse req shown ret', re_Items = shown\<rparr>)))"

section \<open>The pipeline\<close>

definition user_context :: "Fetcher \<Rightarrow> RequestContext \<Rightarrow> RequestContext" where
  "user_context feat rctx =
     (let userFeat = (case fe_UserJSON feat (rc_UserID rctx) of Inl _ \<Rightarrow> [] | Inr b \<Rightarrow> b)
      in rctx\<lparr>rc_UserFeat := userFeat, rc_UserGroup := ResolveUserGroup (rc_UserGroup rctx) userFeat\<rparr>)"

definition center_ret :: "RecommendRequestJSON \<Rightarrow> RecallUserGroup \<Rightarrow> int32" where
  "center_ret req prof =
     (if rq_RetCount req \<le> 0 \<and> 0 < ru_FinalRetCount prof then wrap32 (ru_FinalRetCount prof) else rq_RetCount req)"

definition run_profile ::
  "go_env \<Rightarrow> Center \<Rightarrow> CenterBundle \<Rightarrow> Registry \<Rightarrow> RecommendRequestJSON \<Rightarrow> RequestContext \<Rightarrow> RecallUserGroup \<Rightarrow>
   go_error + Result option" where
  "run_profile env p cb reg req rctx prof =
     (case center_ResolvedRecallLists (Some prof) (rc_ExpIDs rctx) of
        (exclusiveRules, mainRules) \<Rightarrow>
          (let exclusive = runExclusiveLanes env (ce_Features p) reg rctx exclusiveRules in
           and_then (runRecallLanes env (ce_Features p) reg rctx mainRules)
             (\<lambda>mainBatches.
                let mainMerged = MainOnly mainBatches (ru_AllMergeNum prof);
                    rctx' = loadExposure env (ce_Features p) rctx
                in case filter_pools (cb_Filter cb) rctx' mainMerged exclusive of
                     (main, exclusive') \<Rightarrow>
                       if main = [] \<and> dom exclusive' = {}
                       then Inr (Some \<lparr>re_Resp = \<lparr>rr_UserID = rq_UserID req, rr_ItemIDs = [], rr_Recall = []\<rparr>, re_Items = []\<rparr>)
                       else rankAndShow env p cb req rctx' main exclusive' (center_ret req prof))))"

text \<open>The resolved recall profile and what it is resolved with, when the center mode applies.\<close>

definition center_profile ::
  "Center \<Rightarrow> RequestContext \<Rightarrow> go_error + (CenterBundle \<times> Registry \<times> RequestContext \<times> RecallUserGroup) option" where
  "center_profile p rctx =
     (case (ce_Center p, ce_Recall p) of
        (Some cb, Some reg) \<Rightarrow>
          if cb_Recall cb = None then Inr None
          else
            (case ce_Features p of
               None \<Rightarrow> Inl NilPanic
             | Some feat \<Rightarrow>
                 (let rctx' = user_context feat rctx in
                  Inr (map_option (\<lambda>prof. (cb, reg, rctx', prof))
                         (ResolveRecall (cb_Recall cb) (rc_ExpIDs rctx') (rc_UserGroup rctx')))))
      | _ \<Rightarrow> Inr None)"

definition Center_Run :: "go_env \<Rightarrow> Center \<Rightarrow> RecommendRequestJSON \<Rightarrow> RequestContext \<Rightarrow> go_error + Result option" where
  "Center_Run env p req rctx =
     and_then (center_profile p rctx)
       (\<lambda>plan. case plan of
          None \<Rightarrow> Inr None
        | Some (cb, reg, rctx', prof) \<Rightarrow> run_profile env p cb reg req rctx' prof)"

section \<open>What the recall lanes contribute\<close>

definition typed :: "string set \<Rightarrow> ItemInfo list \<Rightarrow> bool" where
  "typed T items = list_all (\<lambda>it. it_RecallType it \<in> T) items"

definition pool_typed :: "string set \<Rightarrow> ExclusivePool \<Rightarrow> bool" where
  "pool_typed T pool = (\<forall>lane\<in>ran pool. typed T lane)"

lemma typed_simps [simp]:
  "typed T []" "typed T (xs @ ys) = (typed T xs \<and> typed T ys)" "typed T (x # xs) = (it_RecallType x \<in> T \<and> typed T xs)"
  by (auto simp: typed_def)

lemma typed_subseq: "subseq xs ys \<Longrightarrow> typed T ys \<Longrightarrow> typed T xs"
  using subseq_set by (auto simp: typed_def list_all_iff)

lemma MarkItemPortraits_shape: "MarkItemPortraits feat items = Inr m \<Longrightarrow> \<exists>has. m = set_portraits has items"
  by (auto simp: MarkItemPortraits_def and_then_Inr split: option.splits if_splits)

text \<open>A property of items that ignores the portrait flag passes from the lanes to their batches.\<close>

lemma lane_batch_all:
  assumes "lane_batch feat rule raw = Inr batch" "list_all P raw" "\<And>it b. P it \<Longrightarrow> P (it\<lparr>it_HasPortrait := b\<rparr>)"
  shows "list_all P batch"
proof -
  obtain m where m: "MarkItemPortraits feat (use_top_k rule raw) = Inr m"
    and b: "batch = ApplySampleFoldAndCap (DropWithoutPortrait m) (rr_SampleFold rule) (merge_max rule)"
    using assms(1) by (auto simp: lane_batch_def and_then_Inr)
  have "list_all P (use_top_k rule raw)"
    using assms(2) upto_n_set[of _ raw] by (auto simp: use_top_k_def list_all_iff)
  then have "list_all P m"
    using MarkItemPortraits_shape[OF m] assms(3) by (auto simp: set_portraits_def list_all_iff)
  then have "list_all P (DropWithoutPortrait m)" by (auto simp: DropWithoutPortrait_def list_all_iff)
  moreover have "set batch \<subseteq> set (DropWithoutPortrait m)"
    unfolding b by (rule subseq_set[OF ApplySampleFoldAndCap_subseq])
  ultimately show ?thesis by (auto simp: list_all_iff)
qed

lemma lane_batch_typed: "lane_batch feat rule raw = Inr batch \<Longrightarrow> typed T raw \<Longrightarrow> typed T batch"
  unfolding typed_def by (rule lane_batch_all[where P = "\<lambda>it. it_RecallType it \<in> T"]) auto

lemma recall_lanes_all:
  assumes "runRecallLanes env feat reg rctx rules = Inr batches"
    and "\<And>rule raw. rule \<in> set rules \<Longrightarrow> Lane env reg rctx rule = Inr raw \<Longrightarrow> list_all P raw"
    and "\<And>it b. P it \<Longrightarrow> P (it\<lparr>it_HasPortrait := b\<rparr>)"
  shows "list_all P (concat batches)"
  using assms(1,2)
proof (induction rules arbitrary: batches)
  case (Cons rule rules)
  then obtain raw b bs where r: "Lane env reg rctx rule = Inr raw" "lane_batch feat rule raw = Inr b"
      "runRecallLanes env feat reg rctx rules = Inr bs" "batches = b # bs"
    by (auto simp: recall_lane_def and_then_Inr)
  have "list_all P b" by (rule lane_batch_all[OF r(2), where P = P]) (use Cons.prems(2) r(1) assms(3) in auto)
  moreover have "list_all P (concat bs)" by (rule Cons.IH[OF r(3)]) (use Cons.prems(2) in auto)
  ultimately show ?case by (simp add: r(4))
qed simp

lemma Lane_typed: "Lane env reg rctx rule = Inr raw \<Longrightarrow> typed {rr_RecallType rule} raw"
  using Lane_ok[of env reg rctx rule raw] by (auto simp: lane_ok_def typed_def list_all_iff)

lemma typed_mono: "typed S xs \<Longrightarrow> S \<subseteq> T \<Longrightarrow> typed T xs"
  by (auto simp: typed_def list_all_iff)

lemma exclusive_step_typed:
  assumes "pool_typed T pool" "rr_RecallType rule \<in> T"
  shows "pool_typed T (exclusive_step env feat reg rctx rule pool)"
proof -
  have "typed T batch" if "Lane env reg rctx rule = Inr raw" "lane_batch feat rule raw = Inr batch" for raw batch
    using lane_batch_typed[OF that(2) typed_mono[OF Lane_typed[OF that(1)], of T]] assms(2) by simp
  then show ?thesis
    using assms(1) unfolding pool_typed_def
    by (auto simp: exclusive_step_def ran_def split: sum.splits if_splits)
qed

lemma exclusive_lanes_typed:
  "pool_typed (rr_RecallType ` set rules) (runExclusiveLanes env feat reg rctx rules)"
  unfolding runExclusiveLanes_def
  by (rule fold_invariant[where Q = "\<lambda>r. r \<in> set rules" and P = "pool_typed (rr_RecallType ` set rules)"])
    (auto simp: exclusive_step_typed, simp add: pool_typed_def)

lemma recall_lanes_typed:
  "runRecallLanes env feat reg rctx rules = Inr batches \<Longrightarrow> typed (rr_RecallType ` set rules) (concat batches)"
  unfolding typed_def
  by (rule recall_lanes_all[where P = "\<lambda>it. it_RecallType it \<in> rr_RecallType ` set rules"])
    (auto dest!: Lane_typed simp: typed_def list_all_iff)

lemma recall_lanes_ids64:
  "go_runtime env \<Longrightarrow> runRecallLanes env feat reg rctx rules = Inr batches \<Longrightarrow> ids64 (concat batches)"
  unfolding ids64_def
  by (rule recall_lanes_all[where P = "\<lambda>it. id64 (it_ID it)"]) (auto dest: go_runtime.Lane_ids64 simp: ids64_def)

lemma recall_lanes_error:
  "runRecallLanes env feat reg rctx rules = Inl e \<Longrightarrow> \<exists>rule\<in>set rules. recall_lane env feat reg rctx rule = Inl e"
  by (induction rules) (auto simp: and_then_Inl)

section \<open>What filters and ranking keep\<close>

definition active_rules :: "CenterBundle \<Rightarrow> RequestContext \<Rightarrow> RuleFilterStrategy list" where
  "active_rules cb rctx =
     (case (if cb_Filter cb \<noteq> None then ResolveFilter (cb_Filter cb) (rc_ExpIDs rctx) (rc_UserGroup rctx) else None) of
        None \<Rightarrow> []
      | Some fg \<Rightarrow> fst (ResolvedRuleAndFeature (Some fg) (rc_ExpIDs rctx)))"

text \<open>An item a lane of the given types may contribute: no active rule finds it over-exposed.\<close>

definition admitted :: "string set \<Rightarrow> RequestContext \<Rightarrow> RuleFilterStrategy list \<Rightarrow> ItemInfo \<Rightarrow> bool" where
  "admitted T rctx rules it = (it_RecallType it \<in> T \<and> list_all (\<lambda>r. rule_keeps rctx r it) rules)"

lemma admitted_same:
  "it_ID x = it_ID y \<Longrightarrow> it_RecallType x = it_RecallType y \<Longrightarrow> admitted T rctx rules x = admitted T rctx rules y"
  by (cases "rc_Exposure rctx") (simp_all add: admitted_def rule_keeps_def)

lemma rules_filter: "filter_ApplyRuleFilters rctx rules xs = filter (\<lambda>it. list_all (\<lambda>r. rule_keeps rctx r it) rules) xs"
  by (simp add: filter_ApplyRuleFilters_def ApplyRuleFilters_def fold_filters[OF apply_rule_filter] list_all_iff)

lemma exclusive_pool_admitted:
  assumes "pool_typed T pool" "lane \<in> ran (ApplyToExclusivePool rctx rules feats pool)" "x \<in> set lane"
  shows "admitted T rctx rules x"
proof -
  obtain rt lane0 where l: "pool rt = Some lane0" "lane = filter_ApplyFeatureFilters feats (filter_ApplyRuleFilters rctx rules lane0)"
    using assms(2) by (auto simp: ran_def ApplyToExclusivePool_def Let_def split: option.splits if_splits)
  then have "x \<in> set (filter_ApplyRuleFilters rctx rules lane0)"
    using assms(3) feature_stage.run_set by blast
  moreover have "typed T lane0" using assms(1) l(1) by (auto simp: pool_typed_def ranI)
  ultimately show ?thesis by (auto simp: rules_filter admitted_def typed_def list_all_iff)
qed

lemma filter_pools_admitted:
  assumes "filter_pools (cb_Filter cb) rctx main0 exclusive0 = (main, exclusive)"
    and "typed T main0" "pool_typed T exclusive0" "distinct (map it_ID main0)"
  shows "\<forall>x\<in>set main \<union> (\<Union>lane\<in>ran exclusive. set lane). admitted T rctx (active_rules cb rctx) x"
    and "distinct (map it_ID main)"
proof -
  let ?fg = "if cb_Filter cb \<noteq> None then ResolveFilter (cb_Filter cb) (rc_ExpIDs rctx) (rc_UserGroup rctx) else None"
  have "(\<forall>x\<in>set main \<union> (\<Union>lane\<in>ran exclusive. set lane). admitted T rctx (active_rules cb rctx) x) \<and> distinct (map it_ID main)"
  proof (cases ?fg)
    case None
    then have "active_rules cb rctx = []" "main = main0" "exclusive = exclusive0"
      using assms(1) by (simp_all add: active_rules_def filter_pools_def)
    moreover have "it_RecallType x \<in> T" if "lane \<in> ran exclusive0" "x \<in> set lane" for x lane
      using assms(3) that by (simp add: pool_typed_def typed_def list_all_iff)
    ultimately show ?thesis using assms(2,4) by (auto simp: admitted_def typed_def list_all_iff)
  next
    case (Some fg)
    obtain rules feats where rf: "ResolvedRuleAndFeature (Some fg) (rc_ExpIDs rctx) = (rules, feats)"
      by (cases "ResolvedRuleAndFeature (Some fg) (rc_ExpIDs rctx)")
    then have ar: "active_rules cb rctx = rules" unfolding active_rules_def Some by simp
    have m: "main = CapKeepItemNum (fu_KeepItemNum fg) (filter_ApplyFeatureFilters feats (filter_ApplyRuleFilters rctx rules main0))"
      and e: "exclusive = ApplyToExclusivePool rctx rules feats exclusive0"
      using assms(1) unfolding filter_pools_def Some by (simp_all add: rf Let_def)
    have "set main \<subseteq> set (filter_ApplyRuleFilters rctx rules main0)"
      unfolding m using keep_cap.run_set feature_stage.run_set by blast
    then have "admitted T rctx rules x" if "x \<in> set main" for x
      using that assms(2) by (auto simp: rules_filter admitted_def typed_def list_all_iff)
    moreover have "distinct (map it_ID main)"
      unfolding m by (intro keep_cap.run_distinct feature_stage.run_distinct) (simp add: rules_filter assms(4) distinct_map_filter)
    ultimately show ?thesis using exclusive_pool_admitted[OF assms(3)] ar e by blast
  qed
  then show "\<forall>x\<in>set main \<union> (\<Union>lane\<in>ran exclusive. set lane). admitted T rctx (active_rules cb rctx) x"
    "distinct (map it_ID main)" by simp_all
qed

text \<open>What the rank call does to the main list, for any client that keeps the contract \<open>ranker\<close>.\<close>

context ranker
begin

lemma rank_main_keeps:
  assumes "\<And>req. admits req" "distinct (map it_ID main)"
  shows "\<exists>out. rank_main (Some rank) rctx main ret = Inr out \<and> distinct (map it_ID out) \<and>
    (\<forall>x\<in>set out. \<exists>y\<in>set main. it_ID y = it_ID x \<and> it_RecallType y = it_RecallType x)"
proof -
  let ?req = "\<lparr>mq_Ctx = rctx, mq_Groups = [\<lparr>gr_Name = ''Main'', gr_ItemIDs = map it_ID main, gr_RetCount = ret\<rparr>],
                        mq_PreRankTrunc = 0, mq_RankTrunc = 0, mq_RankProfile = []\<rparr>"
  obtain resp where r: "rank ?req = Inr (Some resp)" "list_all2 group_scored (mq_Groups ?req) (mp_Groups resp)"
    using rank_groups[OF assms(1), of ?req] by blast
  then obtain g where g: "mp_Groups resp = [g]" "mset (map sc_ItemID (rg_Items g)) \<subseteq># mset (map it_ID main)"
    by (auto simp: list_all2_Cons1 group_scored_def)
  have "distinct (map sc_ItemID (rg_Items g))"
    using g(2) assms(2) mset_subset_distinct by blast
  then have "distinct (map it_ID (center_reorderByRank main (rg_Items g)))"
    by (rule center_reorder_mset(1)[OF assms(2)])
  moreover have "\<exists>y\<in>set main. it_ID y = it_ID x \<and> it_RecallType y = it_RecallType x"
    if "x \<in> set (center_reorderByRank main (rg_Items g))" for x
    using center_reorder_provenance[OF that] by metis
  ultimately show ?thesis using assms(2) by (auto simp: rank_main_def r(1) g(1))
qed

end

section \<open>What the center pipeline serves\<close>

definition profile_types :: "RecallUserGroup \<Rightarrow> RequestContext \<Rightarrow> string set" where
  "profile_types prof rctx =
     (case center_ResolvedRecallLists (Some prof) (rc_ExpIDs rctx) of
        (exclusive, main) \<Rightarrow> rr_RecallType ` set (exclusive @ main))"

text \<open>Whether the show strategies a request gets contain a homogeneous exchange.\<close>

definition exchanges :: "CenterBundle \<Rightarrow> RequestContext \<Rightarrow> bool" where
  "exchanges cb rctx =
     (case ResolveShow (cb_Show cb) (rc_ExpIDs rctx) (rc_UserGroup rctx) of
        None \<Rightarrow> False
      | Some sg \<Rightarrow> cb_Show cb \<noteq> None \<and> replaces (ResolvedStrategyList (Some sg) (rc_ExpIDs rctx)))"

definition served_ok :: "CenterBundle \<Rightarrow> RequestContext \<Rightarrow> string set \<Rightarrow> ItemInfo \<Rightarrow> bool" where
  "served_ok cb rctx T it =
     ((exchanges cb rctx \<and> it_RecallType it = ''HomogeneityContent'') \<or> admitted T rctx (active_rules cb rctx) it)"

definition response_of :: "RecommendRequestJSON \<Rightarrow> int32 \<Rightarrow> Result \<Rightarrow> bool" where
  "response_of req ret r =
     (rr_UserID (re_Resp r) = rq_UserID req \<and>
      rr_ItemIDs (re_Resp r) = map it_ID (cap_list ret (re_Items r)) \<and>
      rr_Recall (re_Resp r) = map (\<lambda>it. \<lparr>ir_ItemID = it_ID it, ir_RecallType = it_RecallType it\<rparr>) (cap_list ret (re_Items r)))"

lemma buildResponse_caps: "response_of req ret \<lparr>re_Resp = buildResponse req items ret, re_Items = items\<rparr>"
  by (auto simp: response_of_def buildResponse_def cap_list_def Let_def)

lemma show_items_ok:
  assumes "go_runtime env" "distinct (map it_ID out)"
    and "\<forall>x\<in>set out \<union> (\<Union>lane\<in>ran exclusive. set lane). admitted T rctx (active_rules cb rctx) x"
  shows "distinct (map it_ID (show_items env feat (cb_Show cb) rctx out exclusive))"
    and "list_all (served_ok cb rctx T) (show_items env feat (cb_Show cb) rctx out exclusive)"
proof -
  show "distinct (map it_ID (show_items env feat (cb_Show cb) rctx out exclusive))"
    using assms(2) strategies_distinct by (auto simp: show_items_def ApplyStrategies_def split: option.split)
  have served: "served_ok cb rctx T x" if "from_pool repl out exclusive x" "repl \<Longrightarrow> exchanges cb rctx" for x repl
    using that assms(3) admitted_same[of _ x T rctx "active_rules cb rctx"] unfolding from_pool_def served_ok_def by blast
  have "served_ok cb rctx T x" if "x \<in> set out" for x
    using assms(3) that by (auto simp: served_ok_def)
  moreover have "served_ok cb rctx T x"
    if "ResolveShow (cb_Show cb) (rc_ExpIDs rctx) (rc_UserGroup rctx) = Some sg" "cb_Show cb \<noteq> None"
      "x \<in> set (ApplyStrategies env feat out exclusive (ResolvedStrategyList (Some sg) (rc_ExpIDs rctx)))" for sg x
    by (rule served[OF go_runtime.strategies_from[OF assms(1) that(3)[unfolded ApplyStrategies_def]]])
      (use that(1,2) in \<open>simp add: exchanges_def\<close>)
  ultimately show "list_all (served_ok cb rctx T) (show_items env feat (cb_Show cb) rctx out exclusive)"
    by (auto simp: show_items_def list_all_iff split: option.splits if_splits)
qed

context ranker
begin

lemma rankAndShow_ok:
  assumes "go_runtime env" "\<And>req. admits req" "ce_Rank p = Some rank" "distinct (map it_ID main)"
    and "\<forall>x\<in>set main \<union> (\<Union>lane\<in>ran exclusive. set lane). admitted T rctx (active_rules cb rctx) x"
  shows "\<exists>r ret'. rankAndShow env p cb req rctx main exclusive ret = Inr (Some r) \<and>
    distinct (map it_ID (re_Items r)) \<and> list_all (served_ok cb rctx T) (re_Items r) \<and>
    response_of req ret' r \<and> (0 < ret \<longrightarrow> ret' = ret)"
proof -
  let ?ret = "if main \<noteq> [] \<and> ret \<le> 0 then wrap32 (int (length main)) else ret"
  obtain out where out: "(if main \<noteq> [] then rank_main (ce_Rank p) rctx main ?ret else Inr main) = Inr out"
      "distinct (map it_ID out)" "\<forall>x\<in>set out. \<exists>y\<in>set main. it_ID y = it_ID x \<and> it_RecallType y = it_RecallType x"
    using rank_main_keeps[OF assms(2,4), of rctx ?ret] assms(3) by (cases "main = []") auto
  have "\<forall>x\<in>set out \<union> (\<Union>lane\<in>ran exclusive. set lane). admitted T rctx (active_rules cb rctx) x"
    using assms(5) out(3) admitted_same[of _ _ T rctx "active_rules cb rctx"] by blast
  note ok = show_items_ok[OF assms(1) out(2) this, of "ce_Features p"]
  show ?thesis
    using ok buildResponse_caps by (auto simp: rankAndShow_def Let_def out(1))
qed

lemma run_profile_ok:
  assumes "go_runtime env" "\<And>req. admits req" "ce_Rank p = Some rank"
  shows "case run_profile env p cb reg req rctx prof of
      Inl e \<Rightarrow> \<exists>rule\<in>set (snd (center_ResolvedRecallLists (Some prof) (rc_ExpIDs rctx))).
        recall_lane env (ce_Features p) reg rctx rule = Inl e
    | Inr None \<Rightarrow> False
    | Inr (Some r) \<Rightarrow>
        distinct (map it_ID (re_Items r))
        \<and> list_all (served_ok cb (loadExposure env (ce_Features p) rctx) (profile_types prof rctx)) (re_Items r)
        \<and> (\<exists>ret'. response_of req ret' r \<and> (0 < center_ret req prof \<longrightarrow> ret' = center_ret req prof))"
proof -
  obtain erules mrules where rules: "center_ResolvedRecallLists (Some prof) (rc_ExpIDs rctx) = (erules, mrules)"
    by (cases "center_ResolvedRecallLists (Some prof) (rc_ExpIDs rctx)")
  let ?f = "ce_Features p" and ?T = "profile_types prof rctx" and ?ctx = "loadExposure env (ce_Features p) rctx"
  let ?pool = "runExclusiveLanes env ?f reg rctx erules"
  have T: "?T = rr_RecallType ` set (erules @ mrules)" by (simp add: profile_types_def rules)
  show ?thesis
  proof (cases "runRecallLanes env ?f reg rctx mrules")
    case (Inl e)
    then show ?thesis using recall_lanes_error[OF Inl] by (simp add: run_profile_def rules Let_def)
  next
    case (Inr batches)
    let ?main0 = "MainOnly batches (ru_AllMergeNum prof)"
    obtain main pool where f: "filter_pools (cb_Filter cb) ?ctx ?main0 ?pool = (main, pool)"
      by (cases "filter_pools (cb_Filter cb) ?ctx ?main0 ?pool")
    have m0: "?main0 = merge_spec batches (ru_AllMergeNum prof)"
      by (simp add: MainOnly_def MergeRecallLanes_merge_spec)
    have "typed ?T (concat batches)"
      using typed_mono[OF recall_lanes_typed[OF Inr], of ?T] by (auto simp: T)
    then have t: "typed ?T ?main0" unfolding m0 by (rule typed_subseq[OF merge_spec_subseq])
    have e: "pool_typed ?T ?pool"
      using exclusive_lanes_typed[of erules env ?f reg rctx] typed_mono[of "rr_RecallType ` set erules" _ ?T]
      by (auto simp: pool_typed_def T)
    have d: "distinct (map it_ID ?main0)" unfolding m0 by (rule merge_spec_distinct)
    note adm = filter_pools_admitted[OF f t e d]
    obtain r ret' where r: "rankAndShow env p cb req ?ctx main pool (center_ret req prof) = Inr (Some r)"
        "distinct (map it_ID (re_Items r))" "list_all (served_ok cb ?ctx ?T) (re_Items r)" "response_of req ret' r"
        "0 < center_ret req prof \<longrightarrow> ret' = center_ret req prof"
      using rankAndShow_ok[OF assms adm(2,1)] by blast
    show ?thesis
      using r by (auto simp: run_profile_def rules Inr f Let_def response_of_def cap_list_def)
  qed
qed

end

text \<open>C33: the center pipeline over the rank service. When a recall profile applies, a request fails only
  because a main lane failed (exclusive lanes never make it fail). Otherwise the items served have distinct
  ids, and each comes from a lane of the profile and is exposed no more often than the active rules allow. The one
  exception is an item of type \<open>HomogeneityContent\<close> when the request's show strategies contain a homogeneous exchange:
  such replacements come from the strategy's own table and pass no rule. The response is these items with their recall types, cut to the return
  count the request or the profile asks for. Without a profile the pipeline leaves the request to the next mode, and
  when choosing one panics (the feature fetcher is nil), so does the run.\<close>

theorem Center_Run_serves:
  assumes "go_runtime env" "rank_runtime rt" "svc_ok svc" "ce_Rank p = Some (local_rank rt svc slog)"
  shows "case center_profile p rctx of
      Inl e \<Rightarrow> Center_Run env p req rctx = Inl e
    | Inr None \<Rightarrow> Center_Run env p req rctx = Inr None
    | Inr (Some (cb, reg, ctx, prof)) \<Rightarrow>
        (case Center_Run env p req rctx of
           Inl e \<Rightarrow> \<exists>rule\<in>set (snd (center_ResolvedRecallLists (Some prof) (rc_ExpIDs ctx))).
             recall_lane env (ce_Features p) reg ctx rule = Inl e
         | Inr None \<Rightarrow> False
         | Inr (Some r) \<Rightarrow>
             distinct (map it_ID (re_Items r))
             \<and> list_all (served_ok cb (loadExposure env (ce_Features p) ctx) (profile_types prof ctx)) (re_Items r)
             \<and> (\<exists>ret'. response_of req ret' r \<and> (0 < center_ret req prof \<longrightarrow> ret' = center_ret req prof)))"
proof (cases "center_profile p rctx")
  case (Inr plan)
  then show ?thesis
  proof (cases plan)
    case (Some t)
    obtain cb reg ctx prof where t: "t = (cb, reg, ctx, prof)" by (cases t)
    show ?thesis
      using local_service.run_profile_ok[where rt = rt and svc = svc and slog = slog and env = env and p = p and cb = cb and reg = reg and req = req
          and rctx = ctx and prof = prof] assms
      by (simp add: Center_Run_def Inr Some t)
  qed (simp add: Center_Run_def)
qed (simp add: Center_Run_def)

definition demo_rule :: RecallMergeRule where
  "demo_rule = \<lparr>rr_RecallType = ''HotMap'', rr_RecallNum = 2, rr_MergeMaxNum = 0, rr_SampleFold = 1, rr_UseTopKIndex = 0\<rparr>"

definition demo_profile :: RecallUserGroup where
  "demo_profile = \<lparr>ru_UserGroup = ''def_group'', ru_AllMergeNum = 10, ru_ExclusiveRecallList = [],
     ru_RecallAndMergeList = [demo_rule], ru_FinalRetCount = 1, ru_RecallAb = []\<rparr>"

definition demo_bundle :: CenterBundle where
  "demo_bundle = \<lparr>cb_Recall = Some \<lparr>rl_MapRecommend = [\<lparr>mv_ExpID = 0, mv_UserGroupList = [demo_profile]\<rparr>]\<rparr>,
     cb_Filter = None, cb_Show = None\<rparr>"

definition demo_center :: Center where
  "demo_center = \<lparr>ce_Features = Some NoOp, ce_Center = Some demo_bundle, ce_Recall = Some (NewRegistry None),
     ce_Rank = Some (local_rank rank_env0 mock_service [])\<rparr>"

definition demo_request :: RecommendRequestJSON where
  "demo_request = \<lparr>rq_UUID = ''u'', rq_UserID = 9, rq_Section = 0, rq_ExpIDs = [], rq_RetCount = 1, rq_DisablePersonal = 0,
     rq_DeviceID = [], rq_TerminalModel = [], rq_OS = [], rq_UserGroup = []\<rparr>"

lemma demo_plan: "center_profile demo_center zero_ctx =
   Inr (Some (demo_bundle, NewRegistry None, zero_ctx\<lparr>rc_UserGroup := ''def_group''\<rparr>, demo_profile))"
proof -
  have g: "ResolveUserGroup [] [] = ''def_group''"
    by (simp add: ResolveUserGroup_def TrimSpace_def trim_right_def UserGroupDefault_def UserGroupNewUser_def Let_def)
  have "user_context NoOp zero_ctx = zero_ctx\<lparr>rc_UserGroup := ''def_group''\<rparr>"
    by (simp add: user_context_def NoOp_def zero_ctx_def g Let_def)
  then show ?thesis
    by (simp add: center_profile_def demo_center_def demo_bundle_def ResolveRecall_def resolveMapRecommend_def
        pick_variant_def pick_group_def demo_profile_def zero_ctx_def)
qed

lemma demo_lane: "\<not> isl (recall_lane go_env0 (Some NoOp) (NewRegistry None) (zero_ctx\<lparr>rc_UserGroup := ''def_group''\<rparr>) demo_rule)"
  by (simp add: recall_lane_def lane_batch_def Lane_def demo_rule_def NewRegistry_def or_else_def laneStub_def
      MarkItemPortraits_def NoOp_def Let_def split: option.split)

lemma Center_Run_serves_witness:
  "case Center_Run go_env0 demo_center demo_request zero_ctx of
     Inr (Some r) \<Rightarrow> distinct (map it_ID (re_Items r)) \<and> length (rr_ItemIDs (re_Resp r)) \<le> 1
   | _ \<Rightarrow> False"
proof -
  have lists: "center_ResolvedRecallLists (Some demo_profile) [] = ([], [demo_rule])"
    by (simp add: center_ResolvedRecallLists_def demo_profile_def)
  have lane: "\<not> (\<exists>rule\<in>set (snd (center_ResolvedRecallLists (Some demo_profile) [])).
     recall_lane go_env0 (Some NoOp) (NewRegistry None) (zero_ctx\<lparr>rc_UserGroup := ''def_group''\<rparr>) rule = Inl e)" for e
    using demo_lane unfolding lists by auto
  have rank: "ce_Rank demo_center = Some (local_rank rank_env0 mock_service [])" by (simp add: demo_center_def)
  have simps: "ce_Features demo_center = Some NoOp" "center_ret demo_request demo_profile = 1" "rc_ExpIDs zero_ctx = []"
    by (simp_all add: demo_center_def center_ret_def demo_request_def zero_ctx_def)
  show ?thesis
    using Center_Run_serves[OF env0.go_runtime_axioms rank0.rank_runtime_axioms mock_service_ok rank, where rctx = zero_ctx and req = demo_request] lane
    by (auto simp: demo_plan simps response_of_def cap_list_def split: sum.splits option.splits)
qed

end
