(* ===== verification/Kafka_Pool.thy ===== *)
theory Kafka_Pool
  imports Recsys_Items
begin

text \<open>
  \<open>pkg/kafkapush\<close>: the pool that pushes log lines to Kafka (\<open>config.go\<close>, \<open>pool.go\<close>). Request goroutines
  call \<open>Push\<close>, one worker goroutine runs \<open>loop\<close>, \<open>Close\<close> shuts the channel and waits for the worker. The
  model is a step relation over the shared state; what \<open>WriteMessages\<close> makes of a message is not looked at
  by the code, so delivery is handing it over.
\<close>

section \<open>Configuration\<close>

record KafkaConfig =
  kc_Enabled :: bool
  kc_Brokers :: "string list"
  kc_Topic :: string
  kc_QueueSize :: int
  kc_DataType :: string
  kc_APIType :: int

definition queueSize :: "KafkaConfig \<Rightarrow> int" where
  "queueSize c = (if kc_QueueSize c \<le> 0 then 2048 else kc_QueueSize c)"

definition EnabledOn :: "KafkaConfig \<Rightarrow> bool" where
  "EnabledOn c = (kc_Enabled c \<and> kc_Brokers c \<noteq> [] \<and> kc_Topic c \<noteq> [])"

section \<open>The pool\<close>

record channel =
  ch_buf :: "string list"
  ch_cap :: nat
  ch_closed :: bool

text \<open>The worker: not started, at the receive, holding a message, returned from \<open>loop\<close>.\<close>

datatype worker = NoWorker | Receiving | Holding string | Returned

text \<open>\<open>once.Do\<close>: before the first \<open>Close\<close>, inside it (waiting for the worker), after it.\<close>

datatype closing = Open | Waiting | Closed

record Pool =
  po_cfg :: KafkaConfig
  po_ch :: "channel option"
  po_writer :: bool
  po_worker :: worker
  po_close :: closing
  po_delivered :: "string list"

definition Enabled :: "Pool option \<Rightarrow> bool" where
  "Enabled p = (case p of None \<Rightarrow> False | Some q \<Rightarrow> EnabledOn (po_cfg q))"

definition APIType :: "Pool \<Rightarrow> int" where
  "APIType p = (if kc_APIType (po_cfg p) \<noteq> 0 then kc_APIType (po_cfg p) else 0)"

definition DataType :: "Pool \<Rightarrow> string" where
  "DataType p = (if kc_DataType (po_cfg p) \<noteq> [] then kc_DataType (po_cfg p) else [])"

definition New :: "KafkaConfig \<Rightarrow> Pool" where
  "New cfg =
     (let p = \<lparr>po_cfg = cfg, po_ch = None, po_writer = False, po_worker = NoWorker, po_close = Open, po_delivered = []\<rparr> in
      if \<not> EnabledOn cfg then p
      else p\<lparr>po_ch := Some \<lparr>ch_buf = [], ch_cap = nat (queueSize cfg), ch_closed = False\<rparr>, po_writer := True,
             po_worker := Receiving\<rparr>)"

text \<open>A non-blocking send; sending on a closed channel panics even in a \<open>select\<close> with a default.\<close>

definition Push :: "string \<Rightarrow> Pool \<Rightarrow> go_error + Pool" where
  "Push msg p =
     (case (if \<not> Enabled (Some p) \<or> msg = [] then None else po_ch p) of
        None \<Rightarrow> Inr p
      | Some ch \<Rightarrow>
          if ch_closed ch then Inl ClosedChannelPanic
          else if length (ch_buf ch) < ch_cap ch then Inr (p\<lparr>po_ch := Some (ch\<lparr>ch_buf := ch_buf ch @ [msg]\<rparr>)\<rparr>)
          else Inr p)"

text \<open>One turn of \<open>loop\<close>: receive (or return on a closed, empty channel), then hand the message over.\<close>

definition loop_step :: "Pool \<Rightarrow> Pool option" where
  "loop_step p =
     (case po_worker p of
        Receiving \<Rightarrow>
          (case po_ch p of
             None \<Rightarrow> None
           | Some ch \<Rightarrow>
               (case ch_buf ch of
                  m # ms \<Rightarrow> Some (p\<lparr>po_ch := Some (ch\<lparr>ch_buf := ms\<rparr>),
                                   po_worker := (if po_writer p then Holding m else Receiving)\<rparr>)
                | [] \<Rightarrow> if ch_closed ch then Some (p\<lparr>po_worker := Returned\<rparr>) else None))
      | Holding m \<Rightarrow> Some (p\<lparr>po_delivered := po_delivered p @ [m], po_worker := Receiving\<rparr>)
      | _ \<Rightarrow> None)"

text \<open>\<open>Close\<close> in two halves: closing the channel, and returning once \<open>wg.Wait\<close> lets it.\<close>

definition close_begin :: "Pool \<Rightarrow> Pool option" where
  "close_begin p =
     (if po_close p = Open
      then Some (p\<lparr>po_ch := map_option (\<lambda>ch. ch\<lparr>ch_closed := True\<rparr>) (po_ch p), po_close := Waiting\<rparr>)
      else None)"

definition close_end :: "Pool \<Rightarrow> Pool option" where
  "close_end p =
     (if po_close p = Waiting \<and> (po_worker p = NoWorker \<or> po_worker p = Returned)
      then Some (p\<lparr>po_close := Closed\<rparr>) else None)"

section \<open>Interleavings\<close>

datatype event = Pushed string | Worked | CloseBegins | CloseEnds

inductive pool_step :: "Pool \<Rightarrow> event \<Rightarrow> Pool \<Rightarrow> bool" where
  push: "Push msg p = Inr p' \<Longrightarrow> pool_step p (Pushed msg) p'"
| work: "loop_step p = Some p' \<Longrightarrow> pool_step p Worked p'"
| close1: "close_begin p = Some p' \<Longrightarrow> pool_step p CloseBegins p'"
| close2: "close_end p = Some p' \<Longrightarrow> pool_step p CloseEnds p'"

inductive_cases pool_stepE: "pool_step p e p'"

inductive_simps pool_step_simps:
  "pool_step p (Pushed msg) p'" "pool_step p Worked p'" "pool_step p CloseBegins p'" "pool_step p CloseEnds p'"

inductive pool_run :: "Pool \<Rightarrow> event list \<Rightarrow> Pool \<Rightarrow> bool" where
  start: "pool_run p [] p"
| more: "pool_run p es q \<Longrightarrow> pool_step q e r \<Longrightarrow> pool_run p (es @ [e]) r"

text \<open>The messages \<open>Push\<close> took in: the pool was enabled, the message not empty, and the queue not full.\<close>

definition queued :: "Pool \<Rightarrow> string list" where
  "queued p = (case po_ch p of None \<Rightarrow> [] | Some ch \<Rightarrow> ch_buf ch)"

definition accepts :: "Pool \<Rightarrow> event \<Rightarrow> string list" where
  "accepts p e =
     (case e of
        Pushed msg \<Rightarrow> (case Push msg p of Inr p' \<Rightarrow> if queued p' \<noteq> queued p then [msg] else [] | Inl _ \<Rightarrow> [])
      | _ \<Rightarrow> [])"

inductive accepted :: "Pool \<Rightarrow> event list \<Rightarrow> Pool \<Rightarrow> string list \<Rightarrow> bool" where
  no_event: "accepted p [] p []"
| next_event: "accepted p es q ms \<Longrightarrow> pool_step q e r \<Longrightarrow> accepted p (es @ [e]) r (ms @ accepts q e)"

definition in_hand :: "Pool \<Rightarrow> string list" where
  "in_hand p = (case po_worker p of Holding m \<Rightarrow> [m] | _ \<Rightarrow> [])"

section \<open>Invariant\<close>

definition pool_ok :: "KafkaConfig \<Rightarrow> Pool \<Rightarrow> bool" where
  "pool_ok cfg p =
     (po_cfg p = cfg \<and> po_writer p = EnabledOn cfg \<and>
      (case po_ch p of
         None \<Rightarrow> \<not> EnabledOn cfg \<and> po_worker p = NoWorker
       | Some ch \<Rightarrow>
           EnabledOn cfg \<and> po_worker p \<noteq> NoWorker \<and> ch_cap ch = nat (queueSize cfg) \<and> length (ch_buf ch) \<le> ch_cap ch \<and>
           ch_closed ch = (po_close p \<noteq> Open) \<and> [] \<notin> set (ch_buf ch) \<and>
           (po_worker p = Returned \<longrightarrow> ch_closed ch \<and> ch_buf ch = [])) \<and>
      (po_close p = Closed \<longrightarrow> po_worker p = NoWorker \<or> po_worker p = Returned))"

lemma New_ok: "pool_ok cfg (New cfg)"
  by (simp add: New_def pool_ok_def Let_def)

lemma step_ok: "pool_ok cfg p \<Longrightarrow> pool_step p e p' \<Longrightarrow> pool_ok cfg p'"
  by (erule pool_stepE)
    (auto simp: pool_ok_def Push_def loop_step_def close_begin_def close_end_def Enabled_def
      split: option.splits if_splits worker.splits list.splits)

lemma step_log:
  "pool_ok cfg p \<Longrightarrow> pool_step p e p' \<Longrightarrow>
   po_delivered p' @ in_hand p' @ queued p' = (po_delivered p @ in_hand p @ queued p) @ accepts p e"
  by (erule pool_stepE)
    (auto simp: pool_ok_def Push_def loop_step_def close_begin_def close_end_def Enabled_def queued_def in_hand_def accepts_def
      split: option.splits if_splits worker.splits list.splits)

lemma run_accepted: "pool_run p es q \<Longrightarrow> \<exists>ms. accepted p es q ms"
  by (induction rule: pool_run.induct) (auto intro: accepted.intros)

lemma accepted_ok: "accepted p es q ms \<Longrightarrow> pool_ok cfg p \<Longrightarrow> pool_ok cfg q"
  by (induction rule: accepted.induct) (auto intro: step_ok)

lemma accepted_log:
  "accepted p es q ms \<Longrightarrow> pool_ok cfg p \<Longrightarrow>
   po_delivered q @ in_hand q @ queued q = (po_delivered p @ in_hand p @ queued p) @ ms"
  by (induction rule: accepted.induct) (auto simp: step_log[OF accepted_ok])

lemma New_log: "po_delivered (New cfg) @ in_hand (New cfg) @ queued (New cfg) = []"
  by (simp add: New_def in_hand_def queued_def Let_def)

section \<open>Shutting down\<close>

text \<open>The work left for the worker.\<close>

definition work_left :: "Pool \<Rightarrow> nat" where
  "work_left p =
     2 * length (queued p) + (case po_worker p of Receiving \<Rightarrow> 1 | Holding _ \<Rightarrow> 2 | _ \<Rightarrow> 0)"

text \<open>The worker alone, as long as it can go on.\<close>

fun work :: "nat \<Rightarrow> Pool \<Rightarrow> Pool" where
  "work 0 p = p"
| "work (Suc n) p = (case loop_step p of None \<Rightarrow> p | Some q \<Rightarrow> work n q)"

definition closing_pool :: "Pool \<Rightarrow> bool" where
  "closing_pool p = (po_close p \<noteq> Open)"

lemma loop_step_closing:
  assumes "pool_ok cfg p" "closing_pool p"
  shows "case loop_step p of
      None \<Rightarrow> po_worker p = NoWorker \<or> po_worker p = Returned
    | Some q \<Rightarrow> work_left q < work_left p \<and> po_close q = po_close p \<and>
        po_delivered q @ in_hand q @ queued q = po_delivered p @ in_hand p @ queued p \<and> pool_ok cfg q"
proof -
  have q: "pool_ok cfg q \<and> po_delivered q @ in_hand q @ queued q = po_delivered p @ in_hand p @ queued p"
    if "loop_step p = Some q" for q
    using step_ok[OF assms(1) work[OF that]] step_log[OF assms(1) work[OF that]] by (simp add: accepts_def)
  have m: "work_left q < work_left p \<and> po_close q = po_close p" if "loop_step p = Some q" for q
    using that assms(1)
    by (auto simp: loop_step_def work_left_def queued_def pool_ok_def split: worker.splits option.splits list.splits if_splits)
  have "po_worker p = NoWorker \<or> po_worker p = Returned" if "loop_step p = None"
    using that assms
    by (auto simp: loop_step_def pool_ok_def closing_pool_def split: worker.splits option.splits list.splits if_splits)
  then show ?thesis using q m by (auto split: option.split)
qed

lemma work_drains:
  assumes "pool_ok cfg p" "closing_pool p" "work_left p \<le> n"
  shows "(po_worker (work n p) = NoWorker \<or> po_worker (work n p) = Returned) \<and>
    po_delivered (work n p) = po_delivered p @ in_hand p @ queued p \<and> po_close (work n p) = po_close p"
  using assms
proof (induction n arbitrary: p)
  case 0
  then have "queued p = []" "in_hand p = []" "po_worker p = NoWorker \<or> po_worker p = Returned"
    by (auto simp: work_left_def in_hand_def split: worker.splits)
  then show ?case by simp
next
  case (Suc n)
  show ?case
  proof (cases "loop_step p")
    case None
    then have w: "po_worker p = NoWorker \<or> po_worker p = Returned"
      using loop_step_closing[OF Suc.prems(1,2)] by simp
    then have "in_hand p = []" "queued p = []"
      using Suc.prems(1) by (auto simp: in_hand_def queued_def pool_ok_def split: option.splits)
    then show ?thesis using None w by simp
  next
    case (Some q)
    then show ?thesis
      using loop_step_closing[OF Suc.prems(1,2)] Suc.IH[of q] Suc.prems(2,3) by (simp add: closing_pool_def)
  qed
qed

lemma work_run: "pool_run q es p \<Longrightarrow> \<exists>j\<le>k. pool_run q (es @ replicate j Worked) (work k p)"
proof (induction k arbitrary: p es)
  case (Suc k)
  show ?case
  proof (cases "loop_step p")
    case None
    then show ?thesis using Suc.prems by (intro exI[of _ 0]) simp
  next
    case (Some r)
    have "pool_run q (es @ [Worked]) r" by (rule pool_run.more[OF Suc.prems work[OF Some]])
    from Suc.IH[OF this] obtain j where "j \<le> k" "pool_run q (es @ [Worked] @ replicate j Worked) (work k r)" by auto
    then show ?thesis using Some by (intro exI[of _ "Suc j"]) simp
  qed
qed simp

lemma accepts_nonempty: "[] \<notin> set (accepts q e)"
  by (auto simp: accepts_def Push_def split: event.splits option.splits if_splits)

lemma accepted_nonempty: "accepted p es q ms \<Longrightarrow> [] \<notin> set ms"
  by (induction rule: accepted.induct) (auto simp: accepts_nonempty)

lemma accepts_disabled: "pool_ok cfg q \<Longrightarrow> \<not> EnabledOn cfg \<Longrightarrow> accepts q e = []"
  by (auto simp: accepts_def Push_def Enabled_def pool_ok_def split: event.splits option.splits)

lemma accepted_disabled: "accepted p es q ms \<Longrightarrow> pool_ok cfg p \<Longrightarrow> \<not> EnabledOn cfg \<Longrightarrow> ms = []"
  by (induction rule: accepted.induct) (auto simp: accepts_disabled[OF accepted_ok])

section \<open>Properties\<close>

text \<open>C35: in every interleaving of pushes, the worker and closing, the pool loses, repeats and reorders
  nothing it accepted: delivered, held and queued messages together are the accepted ones in order; the
  queue never exceeds its size, and a disabled pool accepts nothing.\<close>

theorem pool_fifo:
  assumes "accepted (New cfg) es p ms"
  shows "po_delivered p @ in_hand p @ queued p = ms
    \<and> int (length (queued p)) \<le> queueSize cfg
    \<and> (if EnabledOn cfg then [] \<notin> set ms else ms = [])"
proof -
  have ok: "pool_ok cfg p" using accepted_ok[OF assms New_ok] .
  have "0 < queueSize cfg" by (simp add: queueSize_def)
  then show ?thesis
    using accepted_log[OF assms New_ok] New_log[of cfg] ok accepted_nonempty[OF assms] accepted_disabled[OF assms New_ok]
    by (auto simp: pool_ok_def queued_def split: option.splits)
qed

text \<open>C36: once \<open>Close\<close> has begun, the worker needs a bounded number of turns to hand over everything that was
  accepted and return, after which \<open>Close\<close> returns; no message is lost, further pushes cannot add one, and
  pushing to an enabled pool panics from then on.\<close>

theorem Close_drains:
  assumes "accepted (New cfg) es p ms" "po_close p = Waiting"
  shows "let q = work (work_left p) p in
    po_delivered q = ms \<and> (\<exists>j\<le>work_left p. pool_run p (replicate j Worked) q)
    \<and> (case close_end q of None \<Rightarrow> False | Some r \<Rightarrow> po_close r = Closed \<and> po_delivered r = ms)
    \<and> work_left p \<le> 2 * nat (queueSize cfg) + 2
    \<and> (case Push (c # msg) p of Inr p' \<Rightarrow> p' = p \<and> \<not> EnabledOn cfg | Inl e \<Rightarrow> e = ClosedChannelPanic \<and> EnabledOn cfg)"
proof -
  have ok: "pool_ok cfg p" using accepted_ok[OF assms(1) New_ok] .
  have ms: "po_delivered p @ in_hand p @ queued p = ms" using accepted_log[OF assms(1) New_ok] New_log[of cfg] by simp
  have "closing_pool p" using assms(2) by (simp add: closing_pool_def)
  note d = work_drains[OF ok this le_refl, unfolded ms assms(2)]
  have "\<exists>j\<le>work_left p. pool_run p (replicate j Worked) (work (work_left p) p)"
    using work_run[OF start[of p], of "work_left p"] by simp
  moreover have "work_left p \<le> 2 * nat (queueSize cfg) + 2"
    using ok by (auto simp: work_left_def pool_ok_def queued_def split: option.splits worker.splits)
  moreover have "case Push (c # msg) p of Inr p' \<Rightarrow> p' = p \<and> \<not> EnabledOn cfg | Inl e \<Rightarrow> e = ClosedChannelPanic \<and> EnabledOn cfg"
    using ok assms(2) by (auto simp: Push_def pool_ok_def Enabled_def split: option.splits)
  ultimately show ?thesis using d by (auto simp: Let_def close_end_def)
qed

definition small_config :: KafkaConfig where
  "small_config = \<lparr>kc_Enabled = True, kc_Brokers = [''b:9092''], kc_Topic = ''log'', kc_QueueSize = 1, kc_DataType = [],
     kc_APIType = 0\<rparr>"

definition small_pool :: "string list \<Rightarrow> bool \<Rightarrow> Pool" where
  "small_pool buf shut = \<lparr>po_cfg = small_config, po_ch = Some \<lparr>ch_buf = buf, ch_cap = 1, ch_closed = shut\<rparr>,
     po_writer = True, po_worker = Receiving, po_close = (if shut then Waiting else Open), po_delivered = []\<rparr>"

text \<open>Two pushes into a queue of one: the second is dropped.\<close>

lemma small_run: "accepted (New small_config) [Pushed ''a'', Pushed ''b''] (small_pool [''a''] False) [''a'']"
proof -
  have new: "New small_config = small_pool [] False"
    by (simp add: New_def small_pool_def small_config_def EnabledOn_def queueSize_def Let_def)
  have p1: "Push ''a'' (small_pool [] False) = Inr (small_pool [''a''] False)"
    and p2: "Push ''b'' (small_pool [''a''] False) = Inr (small_pool [''a''] False)"
    by (simp_all add: Push_def small_pool_def small_config_def Enabled_def EnabledOn_def)
  have a: "accepts (small_pool [] False) (Pushed ''a'') = [''a'']" "accepts (small_pool [''a''] False) (Pushed ''b'') = []"
    unfolding accepts_def event.case p1 p2 by (simp_all add: small_pool_def queued_def)
  show ?thesis
    using next_event[OF next_event[OF no_event push[OF p1]] push[OF p2]] unfolding a new by simp
qed

lemma pool_fifo_witness: "po_delivered (small_pool [''a''] False) @ in_hand (small_pool [''a''] False) @ queued (small_pool [''a''] False) = [''a'']"
  using pool_fifo[OF small_run] by blast

lemma Close_drains_witness: "po_delivered (work (work_left (small_pool [''a''] True)) (small_pool [''a''] True)) = [''a'']"
proof -
  have c: "close_begin (small_pool [''a''] False) = Some (small_pool [''a''] True)"
    by (simp add: close_begin_def small_pool_def)
  have "accepted (New small_config) [Pushed ''a'', Pushed ''b'', CloseBegins] (small_pool [''a''] True) [''a'']"
    using next_event[OF small_run close1[OF c]] by (simp add: accepts_def)
  from Close_drains[OF this, of undefined "[]"] show ?thesis by (simp add: small_pool_def Let_def)
qed

end
