(* ===== verification/Algo_Log.thy ===== *)
theory Algo_Log
  imports Json_Print Wire_DTO
begin

text \<open>
  \<open>pkg/algolog\<close>: the algorithm log line of a request (\<open>build.go\<close>) and its pipe-separated wire format
  (\<open>record.go\<close>). The host name, the clock and \<open>strconv.FormatFloat(v, 'f', 7, 64)\<close> (\<open>score\<close>) are
  parameters.
\<close>

section \<open>The wire format\<close>

record Record =
  al_ServerName :: string
  al_Timestamp :: int64
  al_APIType :: int
  al_DataType :: string
  al_Channel :: string
  al_AppVersion :: string
  al_OSType :: string
  al_Resolution :: string
  al_TerminalModel :: string
  al_DeviceID :: string
  al_Section :: string
  al_RentSection :: string
  al_Country :: string
  al_LangList :: string
  al_IPv4 :: string
  al_IPv6 :: string
  al_DisAlgo :: int
  al_Standby1 :: string
  al_Standby2 :: string
  al_RequestID :: string
  al_UIN :: int64
  al_Standby3 :: string
  al_ExpList :: string
  al_Standby4 :: string
  al_MaterialList :: string
  al_Standby5 :: string
  al_Standby6 :: string
  al_Standby7 :: string

definition zero_record :: Record where
  "zero_record =
     \<lparr>al_ServerName = [], al_Timestamp = 0, al_APIType = 0, al_DataType = [], al_Channel = [], al_AppVersion = [],
      al_OSType = [], al_Resolution = [], al_TerminalModel = [], al_DeviceID = [], al_Section = [],
      al_RentSection = [], al_Country = [], al_LangList = [], al_IPv4 = [], al_IPv6 = [], al_DisAlgo = 0,
      al_Standby1 = [], al_Standby2 = [], al_RequestID = [], al_UIN = 0, al_Standby3 = [], al_ExpList = [],
      al_Standby4 = [], al_MaterialList = [], al_Standby5 = [], al_Standby6 = [], al_Standby7 = []\<rparr>"

definition parts :: "Record \<Rightarrow> string list" where
  "parts r =
     [al_ServerName r, Itoa (al_Timestamp r), Itoa (al_APIType r), al_DataType r, al_Channel r, al_AppVersion r,
      al_OSType r, al_Resolution r, al_TerminalModel r, al_DeviceID r, al_Section r, al_RentSection r,
      al_Country r, al_LangList r, al_IPv4 r, al_IPv6 r, Itoa (al_DisAlgo r), al_Standby1 r, al_Standby2 r,
      al_RequestID r, Itoa (al_UIN r), al_Standby3 r, al_ExpList r, al_Standby4 r, al_MaterialList r,
      al_Standby5 r, al_Standby6 r, al_Standby7 r]"

definition Serialize :: "Record \<Rightarrow> string" where
  "Serialize r = join_with ''|'' (parts r)"

record MaterialEntry =
  me_ItemID :: int64
  me_RecallType :: string
  me_RankScore :: float64
  me_ShowScore :: float64
  me_TaskID :: int
  me_PreScore :: float64
  me_ReScore :: float64

definition format_entry :: "(float64 \<Rightarrow> string) \<Rightarrow> MaterialEntry \<Rightarrow> string" where
  "format_entry score e =
     join_with '':''
       [Itoa (me_ItemID e), me_RecallType e, score (me_RankScore e), score (me_ShowScore e), Itoa (me_TaskID e),
        score (me_PreScore e), score (me_ReScore e)]"

definition FormatMaterialList :: "(float64 \<Rightarrow> string) \<Rightarrow> MaterialEntry list \<Rightarrow> int \<Rightarrow> string" where
  "FormatMaterialList score entries max_n =
     (let n = (if max_n \<le> 0 then 18 else max_n);
          kept = (if n < int (length entries) then upto_n n entries else entries)
      in ''['' @ join_with '','' (map (format_entry score) kept) @ '']'')"

section \<open>Building a record\<close>

definition DefaultAPIType :: int where
  "DefaultAPIType = 10001"

definition DefaultDataType :: string where
  "DefaultDataType = ''cn_ol_item''"

record Input =
  in_UUID :: string
  in_UserID :: int64
  in_Section :: int32
  in_ExpIDs :: "int32 list"
  in_DisablePersonal :: int32
  in_DeviceID :: string
  in_TerminalModel :: string
  in_OSType :: string
  in_Items :: "ItemInfo list"
  in_APIType :: int
  in_DataType :: string

definition formatExpList :: "int32 list \<Rightarrow> string" where
  "formatExpList exps = (if exps = [] then ''[]'' else json_print (enc_nil_slice enc_int exps))"

text \<open>\<open>taskID, _ = strconv.Atoi(s)\<close> keeps the value Go returns along with an error.\<close>

definition task_id :: "ItemInfo \<Rightarrow> int" where
  "task_id it =
     (case it_Extra it of
        None \<Rightarrow> 0
      | Some m \<Rightarrow> (let s = map_get [] m ''task_id'' in if s \<noteq> [] then fst (parse_int s) else 0))"

definition material_entry :: "ItemInfo \<Rightarrow> MaterialEntry" where
  "material_entry it =
     \<lparr>me_ItemID = it_ID it, me_RecallType = it_RecallType it, me_RankScore = it_Score it, me_ShowScore = it_Score it,
      me_TaskID = task_id it, me_PreScore = 0, me_ReScore = 0\<rparr>"

definition BuildRecord :: "string \<Rightarrow> int64 \<Rightarrow> (float64 \<Rightarrow> string) \<Rightarrow> Input \<Rightarrow> Record" where
  "BuildRecord host now score inp =
     zero_record
       \<lparr>al_ServerName := host, al_Timestamp := now,
        al_APIType := (if in_APIType inp = 0 then DefaultAPIType else in_APIType inp),
        al_DataType := (if in_DataType inp = [] then DefaultDataType else in_DataType inp),
        al_OSType := in_OSType inp, al_TerminalModel := in_TerminalModel inp, al_DeviceID := in_DeviceID inp,
        al_Section := Itoa (in_Section inp), al_DisAlgo := in_DisablePersonal inp, al_RequestID := in_UUID inp,
        al_UIN := in_UserID inp, al_ExpList := formatExpList (in_ExpIDs inp),
        al_MaterialList := FormatMaterialList score (map material_entry (in_Items inp)) 18\<rparr>"

text \<open>The debug view; \<open>encoding/json\<close> sorts the keys of a map and fails on a score it cannot spell (\<open>fmt\<close>).\<close>

definition JSONSnapshot :: "(float64 \<Rightarrow> string option) \<Rightarrow> Input \<Rightarrow> Record \<Rightarrow> bytes" where
  "JSONSnapshot fmt inp rec =
     (case try_map (\<lambda>it. map_option (\<lambda>l. JObj [(''item_id'', enc_int (it_ID it)), (''recall_type'', JStr (it_RecallType it)),
                (''score'', JNum l)]) (fmt (it_Score it))) (in_Items inp) of
        None \<Rightarrow> []
      | Some items \<Rightarrow> json_print (JObj
          [(''api_type'', enc_int (al_APIType rec)), (''data_type'', JStr (al_DataType rec)),
           (''dis_algo'', enc_int (in_DisablePersonal inp)), (''exp_ids'', enc_nil_slice enc_int (in_ExpIDs inp)),
           (''items'', JArr items), (''request_id'', JStr (in_UUID inp)), (''section'', enc_int (in_Section inp)),
           (''uin'', enc_int (in_UserID inp)), (''wire_format'', JStr (Serialize rec))]))"

section \<open>Reading a line back\<close>

lemma split_length: "length (split_on c s) = Suc (count_list s c)"
  by (induction s) (auto split: list.split dest: arg_cong[of _ _ length])

lemma count_join: "ps \<noteq> [] \<Longrightarrow> count_list (join_with [c] ps) c = length ps - 1 + sum_list (map (\<lambda>p. count_list p c) ps)"
  by (induction ps rule: induct_list012) auto

lemma no_pipe_Itoa [simp]: "CHR ''|'' \<notin> set (Itoa i)"
  using Itoa_chars[of "CHR ''|''" i] by (auto simp: is_digit_def)

lemma set_join: "set (join_with sep ps) \<subseteq> set sep \<union> (\<Union>p\<in>set ps. set p)"
  by (induction ps rule: induct_list012) auto

lemma join_no_char: "c \<notin> set sep \<Longrightarrow> \<forall>p\<in>set ps. c \<notin> set p \<Longrightarrow> c \<notin> set (join_with sep ps)"
  using set_join[of sep ps] by blast

lemma no_pipe_exps: "CHR ''|'' \<notin> set (formatExpList exps)"
proof -
  have "CHR ''|'' \<notin> set (json_print (enc_int i))" for i by (simp add: enc_int_def)
  then have "CHR ''|'' \<notin> set (join_with '','' (map json_print (map enc_int exps)))" by (intro join_no_char) auto
  then show ?thesis by (simp add: formatExpList_def enc_nil_slice_def)
qed

lemma no_pipe_material:
  assumes "\<forall>v. CHR ''|'' \<notin> set (score v)" "\<forall>e\<in>set entries. CHR ''|'' \<notin> set (me_RecallType e)"
  shows "CHR ''|'' \<notin> set (FormatMaterialList score entries n)"
proof -
  have e: "CHR ''|'' \<notin> set (format_entry score e)" if "e \<in> set entries" for e
    unfolding format_entry_def by (rule join_no_char) (use assms that in auto)
  have "CHR ''|'' \<notin> set (join_with '','' (map (format_entry score) kept))" if "set kept \<subseteq> set entries" for kept
    by (rule join_no_char) (use e that in auto)
  then show ?thesis using upto_n_set[of _ entries] by (simp add: FormatMaterialList_def Let_def)
qed

text \<open>C34: a log line has 28 fields plus one for every pipe inside a text field, so it reads back exactly when
  the texts are pipe-free; then splitting at the pipes gives the fields in order, and the line
  determines the record.\<close>

theorem Serialize_fields:
  "length (split_on CHR ''|'' (Serialize r)) = 28 + sum_list (map (\<lambda>p. count_list p CHR ''|'') (parts r))
   \<and> (if list_all (\<lambda>p. CHR ''|'' \<notin> set p) (parts r)
      then split_on CHR ''|'' (Serialize r) = parts r \<and> inj_on Serialize {q. list_all (\<lambda>p. CHR ''|'' \<notin> set p) (parts q)}
      else length (split_on CHR ''|'' (Serialize r)) \<noteq> 28)"
proof -
  have len: "length (split_on CHR ''|'' (Serialize q)) = 28 + sum_list (map (\<lambda>p. count_list p CHR ''|'') (parts q))" for q
    using count_join[of "parts q" "CHR ''|''"] by (simp add: split_length Serialize_def) (simp add: parts_def)
  have split: "split_on CHR ''|'' (Serialize q) = parts q" if "list_all (\<lambda>p. CHR ''|'' \<notin> set p) (parts q)" for q
    unfolding Serialize_def by (rule split_on_join) (use that in \<open>simp_all add: list_all_iff\<close>, simp add: parts_def)
  have "q = q'" if "parts q = parts q'" for q q'
    using that by (cases q; cases q') (simp add: parts_def, blast dest: Itoa_inj)
  then have inj: "inj_on Serialize {q. list_all (\<lambda>p. CHR ''|'' \<notin> set p) (parts q)}"
    using split by (intro inj_onI) (metis mem_Collect_eq)
  have "length (split_on CHR ''|'' (Serialize r)) \<noteq> 28" if bad: "\<not> list_all (\<lambda>p. CHR ''|'' \<notin> set p) (parts r)"
  proof -
    obtain p where "p \<in> set (parts r)" "CHR ''|'' \<in> set p" using bad unfolding list_all_iff by blast
    then have "count_list p CHR ''|'' \<noteq> 0" "count_list p CHR ''|'' \<le> sum_list (map (\<lambda>p. count_list p CHR ''|'') (parts r))"
      by (auto simp: count_list_0_iff intro: member_le_sum_list)
    then show ?thesis using len[of r] by linarith
  qed
  then show ?thesis using len split inj by simp
qed

text \<open>What a request logs is pipe-free when its texts are.\<close>

lemma BuildRecord_pipe_free:
  assumes "\<forall>v. CHR ''|'' \<notin> set (score v)" "CHR ''|'' \<notin> set host"
    and "list_all (\<lambda>p. CHR ''|'' \<notin> set p) [in_UUID inp, in_DataType inp, in_OSType inp, in_TerminalModel inp, in_DeviceID inp]"
    and "list_all (\<lambda>it. CHR ''|'' \<notin> set (it_RecallType it)) (in_Items inp)"
  shows "list_all (\<lambda>p. CHR ''|'' \<notin> set p) (parts (BuildRecord host now score inp))"
proof -
  have "CHR ''|'' \<notin> set (FormatMaterialList score (map material_entry (in_Items inp)) 18)"
    by (rule no_pipe_material[OF assms(1)]) (use assms(4) in \<open>auto simp: material_entry_def list_all_iff\<close>)
  then show ?thesis using assms(2,3)
    by (simp add: parts_def BuildRecord_def zero_record_def no_pipe_exps DefaultDataType_def)
qed

end
