(* ===== verification/Config_Load.thy ===== *)
theory Config_Load
  imports Go_Json Funnel_Config
begin

text \<open>
  Loading the pipeline configurations: \<open>LoadFunnelLibrary\<close> of \<open>pkg/recsyskit/funnel_config.go\<close> and
  \<open>internal/centerconfig/load.go\<close>, with one decoder per structure, after the JSON tags of the structures
  in \<open>funnel_config.go\<close> and \<open>centerconfig/resolve.go\<close>. Reading a file is a parameter.
\<close>

section \<open>Shared parts\<close>

definition zero_rule :: RecallMergeRule where
  "zero_rule = \<lparr>rr_RecallType = [], rr_RecallNum = 0, rr_MergeMaxNum = 0, rr_SampleFold = 0, rr_UseTopKIndex = 0\<rparr>"

definition dec_RecallMergeRule :: "RecallMergeRule dec" where
  "dec_RecallMergeRule = dec_struct
     [(''RecallType'', field dec_string rr_RecallType rr_RecallType_update),
      (''RecallNum'', field (dec_int 64) rr_RecallNum rr_RecallNum_update),
      (''MergeMaxNum'', field (dec_int 64) rr_MergeMaxNum rr_MergeMaxNum_update),
      (''SampleFold'', field (dec_int 64) rr_SampleFold rr_SampleFold_update),
      (''UseTopKIndex'', field (dec_int 64) rr_UseTopKIndex rr_UseTopKIndex_update)]"

definition dec_rules :: "RecallMergeRule list dec" where
  "dec_rules = dec_slice zero_rule dec_RecallMergeRule"

definition dec_FilterPolicy :: "FilterPolicy dec" where
  "dec_FilterPolicy = dec_struct
     [(''Type'', field dec_string fp_Type fp_Type_update),
      (''BackoffAfter'', field (dec_int 64) fp_BackoffAfter fp_BackoffAfter_update)]"

definition dec_policies :: "FilterPolicy list dec" where
  "dec_policies = dec_slice \<lparr>fp_Type = [], fp_BackoffAfter = 0\<rparr> dec_FilterPolicy"

definition dec_ShowControlCfg :: "ShowControlCfg dec" where
  "dec_ShowControlCfg = dec_struct [(''MaxItems'', field (dec_int 64) sw_MaxItems sw_MaxItems_update)]"

definition dec_FilterAbVariant :: "FilterAbVariant dec" where
  "dec_FilterAbVariant = dec_struct
     [(''exp_id'', field (dec_int 32) fa_ExpID fa_ExpID_update),
      (''FilterPolicies'', field dec_policies fa_FilterPolicies fa_FilterPolicies_update)]"

definition dec_RecallAbVariant :: "RecallAbVariant dec" where
  "dec_RecallAbVariant = dec_struct
     [(''exp_id'', field (dec_int 32) ra_ExpID ra_ExpID_update),
      (''ExclusiveRecallList'', field dec_rules ra_ExclusiveRecallList ra_ExclusiveRecallList_update),
      (''RecallAndMergeList'', field dec_rules ra_RecallAndMergeList ra_RecallAndMergeList_update)]"

definition dec_recall_ab :: "RecallAbVariant list dec" where
  "dec_recall_ab = dec_slice \<lparr>ra_ExpID = 0, ra_ExclusiveRecallList = [], ra_RecallAndMergeList = []\<rparr> dec_RecallAbVariant"

definition dec_ShowAbVariant :: "ShowAbVariant dec" where
  "dec_ShowAbVariant = dec_struct
     [(''exp_id'', field (dec_int 32) sa_ExpID sa_ExpID_update),
      (''ShowControl'', field dec_ShowControlCfg sa_ShowControl sa_ShowControl_update)]"

section \<open>The funnel library\<close>

definition dec_FunnelUserGroup :: "FunnelUserGroup dec" where
  "dec_FunnelUserGroup = dec_struct
     [(''UserGroup'', field dec_string fg_UserGroup fg_UserGroup_update),
      (''AllMergeNum'', field (dec_int 64) fg_AllMergeNum fg_AllMergeNum_update),
      (''FilterPolicies'', field dec_policies fg_FilterPolicies fg_FilterPolicies_update),
      (''ExclusiveRecallList'', field dec_rules fg_ExclusiveRecallList fg_ExclusiveRecallList_update),
      (''RecallAndMergeList'', field dec_rules fg_RecallAndMergeList fg_RecallAndMergeList_update),
      (''FinalRetCount'', field (dec_int 64) fg_FinalRetCount fg_FinalRetCount_update),
      (''ShowControl'', field dec_ShowControlCfg fg_ShowControl fg_ShowControl_update),
      (''FilterAb'', field (dec_slice \<lparr>fa_ExpID = 0, fa_FilterPolicies = []\<rparr> dec_FilterAbVariant) fg_FilterAb fg_FilterAb_update),
      (''RecallAb'', field dec_recall_ab fg_RecallAb fg_RecallAb_update),
      (''ShowAb'', field (dec_slice \<lparr>sa_ExpID = 0, sa_ShowControl = \<lparr>sw_MaxItems = 0\<rparr>\<rparr> dec_ShowAbVariant)
         fg_ShowAb fg_ShowAb_update)]"

definition zero_funnel_group :: FunnelUserGroup where
  "zero_funnel_group =
     \<lparr>fg_UserGroup = [], fg_AllMergeNum = 0, fg_FilterPolicies = [], fg_ExclusiveRecallList = [], fg_RecallAndMergeList = [],
      fg_FinalRetCount = 0, fg_ShowControl = \<lparr>sw_MaxItems = 0\<rparr>, fg_FilterAb = [], fg_RecallAb = [], fg_ShowAb = []\<rparr>"

definition dec_FunnelVariant :: "FunnelVariant dec" where
  "dec_FunnelVariant = dec_struct
     [(''exp_id'', field (dec_int 32) fv_ExpID fv_ExpID_update),
      (''UserGroupList'', field (dec_slice zero_funnel_group dec_FunnelUserGroup) fv_UserGroupList fv_UserGroupList_update)]"

definition dec_FunnelLibrary :: "FunnelLibrary dec" where
  "dec_FunnelLibrary = dec_struct
     [(''MapRecommend'', field (dec_slice \<lparr>fv_ExpID = 0, fv_UserGroupList = []\<rparr> dec_FunnelVariant)
         fl_MapRecommend fl_MapRecommend_update)]"

text \<open>\<open>os.ReadFile\<close> followed by \<open>json.Unmarshal\<close> into a fresh value, as all four loaders do.\<close>

definition load_json :: "(string \<Rightarrow> go_error + bytes) \<Rightarrow> 'a dec \<Rightarrow> 'a \<Rightarrow> string \<Rightarrow> go_error + 'a" where
  "load_json read_file d z path =
     and_then (read_file path)
       (\<lambda>b. case unmarshal_ok d z b of None \<Rightarrow> Inl (DecodeError path) | Some lib \<Rightarrow> Inr lib)"

definition LoadFunnelLibrary :: "(string \<Rightarrow> go_error + bytes) \<Rightarrow> string \<Rightarrow> go_error + FunnelLibrary" where
  "LoadFunnelLibrary read_file path = load_json read_file dec_FunnelLibrary \<lparr>fl_MapRecommend = []\<rparr> path"

section \<open>The center libraries\<close>

definition dec_mapRecommendVariant :: "'g \<Rightarrow> 'g dec \<Rightarrow> 'g mapRecommendVariant dec" where
  "dec_mapRecommendVariant z d = dec_struct
     [(''exp_id'', field (dec_int 32) mv_ExpID mv_ExpID_update),
      (''UserGroupList'', field (dec_slice z d) mv_UserGroupList mv_UserGroupList_update)]"

definition dec_variants :: "'g \<Rightarrow> 'g dec \<Rightarrow> 'g mapRecommendVariant list dec" where
  "dec_variants z d = dec_slice \<lparr>mv_ExpID = 0, mv_UserGroupList = []\<rparr> (dec_mapRecommendVariant z d)"

definition zero_recall_group :: RecallUserGroup where
  "zero_recall_group =
     \<lparr>ru_UserGroup = [], ru_AllMergeNum = 0, ru_ExclusiveRecallList = [], ru_RecallAndMergeList = [],
      ru_FinalRetCount = 0, ru_RecallAb = []\<rparr>"

definition dec_RecallUserGroup :: "RecallUserGroup dec" where
  "dec_RecallUserGroup = dec_struct
     [(''UserGroup'', field dec_string ru_UserGroup ru_UserGroup_update),
      (''AllMergeNum'', field (dec_int 64) ru_AllMergeNum ru_AllMergeNum_update),
      (''ExclusiveRecallList'', field dec_rules ru_ExclusiveRecallList ru_ExclusiveRecallList_update),
      (''RecallAndMergeList'', field dec_rules ru_RecallAndMergeList ru_RecallAndMergeList_update),
      (''FinalRetCount'', field (dec_int 64) ru_FinalRetCount ru_FinalRetCount_update),
      (''RecallAb'', field dec_recall_ab ru_RecallAb ru_RecallAb_update)]"

definition dec_RecallLibrary :: "RecallLibrary dec" where
  "dec_RecallLibrary = dec_struct
     [(''MapRecommend'', field (dec_variants zero_recall_group dec_RecallUserGroup) rl_MapRecommend rl_MapRecommend_update)]"

definition LoadRecallLibrary :: "(string \<Rightarrow> go_error + bytes) \<Rightarrow> string \<Rightarrow> go_error + RecallLibrary" where
  "LoadRecallLibrary read_file path = load_json read_file dec_RecallLibrary \<lparr>rl_MapRecommend = []\<rparr> path"

definition dec_RuleFilterStrategy :: "RuleFilterStrategy dec" where
  "dec_RuleFilterStrategy = dec_struct
     [(''FilterType'', field dec_string rf_FilterType rf_FilterType_update),
      (''ValidityTime'', field (dec_int 64) rf_ValidityTime rf_ValidityTime_update),
      (''ExposureLimit'', field (dec_int 64) rf_ExposureLimit rf_ExposureLimit_update),
      (''ForcedRatio'', field (dec_int 64) rf_ForcedRatio rf_ForcedRatio_update)]"

definition dec_FeatureFilterStrategy :: "FeatureFilterStrategy dec" where
  "dec_FeatureFilterStrategy = dec_struct
     [(''FilterType'', field dec_string ff_FilterType ff_FilterType_update),
      (''WhiteListLabel'', field dec_string ff_WhiteListLabel ff_WhiteListLabel_update)]"

definition dec_rule_strategies :: "RuleFilterStrategy list dec" where
  "dec_rule_strategies =
     dec_slice \<lparr>rf_FilterType = [], rf_ValidityTime = 0, rf_ExposureLimit = 0, rf_ForcedRatio = 0\<rparr> dec_RuleFilterStrategy"

definition dec_feature_strategies :: "FeatureFilterStrategy list dec" where
  "dec_feature_strategies = dec_slice \<lparr>ff_FilterType = [], ff_WhiteListLabel = []\<rparr> dec_FeatureFilterStrategy"

definition dec_filterAbVariant :: "filterAbVariant dec" where
  "dec_filterAbVariant = dec_struct
     [(''exp_id'', field (dec_int 32) fb_ExpID fb_ExpID_update),
      (''RuleFilterStrategyList'', field dec_rule_strategies fb_RuleFilterStrategyList fb_RuleFilterStrategyList_update),
      (''FeatureFilterStrategyList'',
         field dec_feature_strategies fb_FeatureFilterStrategyList fb_FeatureFilterStrategyList_update)]"

definition dec_filterUserGroup :: "filterUserGroup dec" where
  "dec_filterUserGroup = dec_struct
     [(''UserGroup'', field dec_string fu_UserGroup fu_UserGroup_update),
      (''KeepItemNum'', field (dec_int 64) fu_KeepItemNum fu_KeepItemNum_update),
      (''RuleFilterStrategyList'', field dec_rule_strategies fu_RuleFilterStrategyList fu_RuleFilterStrategyList_update),
      (''FeatureFilterStrategyList'',
         field dec_feature_strategies fu_FeatureFilterStrategyList fu_FeatureFilterStrategyList_update),
      (''FilterAb'', field (dec_slice \<lparr>fb_ExpID = 0, fb_RuleFilterStrategyList = [], fb_FeatureFilterStrategyList = []\<rparr>
         dec_filterAbVariant) fu_FilterAb fu_FilterAb_update)]"

definition dec_FilterLibrary :: "FilterLibrary dec" where
  "dec_FilterLibrary = dec_struct
     [(''MapRecommend'',
       field (dec_variants \<lparr>fu_UserGroup = [], fu_KeepItemNum = 0, fu_RuleFilterStrategyList = [],
                 fu_FeatureFilterStrategyList = [], fu_FilterAb = []\<rparr> dec_filterUserGroup)
         ftl_MapRecommend ftl_MapRecommend_update)]"

definition LoadFilterLibrary :: "(string \<Rightarrow> go_error + bytes) \<Rightarrow> string \<Rightarrow> go_error + FilterLibrary" where
  "LoadFilterLibrary read_file path = load_json read_file dec_FilterLibrary \<lparr>ftl_MapRecommend = []\<rparr> path"

definition dec_ForcedInsertRule :: "ForcedInsertRule dec" where
  "dec_ForcedInsertRule = dec_struct
     [(''RecallType'', field dec_string fi_RecallType fi_RecallType_update),
      (''ForcedInsertCount'', field (dec_int 64) fi_ForcedInsertCount fi_ForcedInsertCount_update),
      (''ExtractMethod'', field dec_string fi_ExtractMethod fi_ExtractMethod_update)]"

definition zero_strategy :: ShowStrategy where
  "zero_strategy =
     \<lparr>ss_ShowControlType = [], ss_Method = [], ss_TopNShowControl = 0, ss_RecallTypeList = [], ss_ScoreControlFactor = 0,
      ss_PageNum = 0, ss_PageSize = 0, ss_PageInsertCount = 0, ss_MMRConstant = 0, ss_MMRDimension = 0,
      ss_ForcedInsert = [], ss_Comment = []\<rparr>"

definition dec_ShowStrategy :: "ShowStrategy dec" where
  "dec_ShowStrategy = dec_struct
     [(''ShowControlType'', field dec_string ss_ShowControlType ss_ShowControlType_update),
      (''Method'', field dec_string ss_Method ss_Method_update),
      (''TopNShowControl'', field (dec_int 64) ss_TopNShowControl ss_TopNShowControl_update),
      (''RecallTypeList'', field dec_string ss_RecallTypeList ss_RecallTypeList_update),
      (''ScoreControlFactor'', field dec_float ss_ScoreControlFactor ss_ScoreControlFactor_update),
      (''PageNum'', field (dec_int 64) ss_PageNum ss_PageNum_update),
      (''PageSize'', field (dec_int 64) ss_PageSize ss_PageSize_update),
      (''PageInsertCount'', field (dec_int 64) ss_PageInsertCount ss_PageInsertCount_update),
      (''MMRConstant'', field dec_float ss_MMRConstant ss_MMRConstant_update),
      (''MMRDimension'', field (dec_int 64) ss_MMRDimension ss_MMRDimension_update),
      (''ForcedInsert'', field (dec_slice \<lparr>fi_RecallType = [], fi_ForcedInsertCount = 0, fi_ExtractMethod = []\<rparr>
         dec_ForcedInsertRule) ss_ForcedInsert ss_ForcedInsert_update),
      (''Comment'', field dec_string ss_Comment ss_Comment_update)]"

definition dec_strategies :: "ShowStrategy list dec" where
  "dec_strategies = dec_slice zero_strategy dec_ShowStrategy"

definition dec_showAbVariant :: "showAbVariant dec" where
  "dec_showAbVariant = dec_struct
     [(''exp_id'', field (dec_int 32) sv_ExpID sv_ExpID_update),
      (''StrategyList'', field dec_strategies sv_StrategyList sv_StrategyList_update)]"

definition dec_showUserGroup :: "showUserGroup dec" where
  "dec_showUserGroup = dec_struct
     [(''UserGroup'', field dec_string su_UserGroup su_UserGroup_update),
      (''StrategyList'', field dec_strategies su_StrategyList su_StrategyList_update),
      (''ShowAb'', field (dec_slice \<lparr>sv_ExpID = 0, sv_StrategyList = []\<rparr> dec_showAbVariant) su_ShowAb su_ShowAb_update)]"

definition dec_ShowLibrary :: "ShowLibrary dec" where
  "dec_ShowLibrary = dec_struct
     [(''MapRecommend'', field (dec_variants \<lparr>su_UserGroup = [], su_StrategyList = [], su_ShowAb = []\<rparr> dec_showUserGroup)
         sl_MapRecommend sl_MapRecommend_update)]"

definition LoadShowLibrary :: "(string \<Rightarrow> go_error + bytes) \<Rightarrow> string \<Rightarrow> go_error + ShowLibrary" where
  "LoadShowLibrary read_file path = load_json read_file dec_ShowLibrary \<lparr>sl_MapRecommend = []\<rparr> path"

section \<open>Loaded show strategies compute with numbers\<close>

definition strategy_ok :: "ShowStrategy \<Rightarrow> bool" where
  "strategy_ok st = (finite64 (ss_ScoreControlFactor st) \<and> finite64 (ss_MMRConstant st))"

definition show_group_ok :: "showUserGroup \<Rightarrow> bool" where
  "show_group_ok g =
     (list_all strategy_ok (su_StrategyList g) \<and> list_all (\<lambda>v. list_all strategy_ok (sv_StrategyList v)) (su_ShowAb g))"

definition show_variant_ok :: "showUserGroup mapRecommendVariant \<Rightarrow> bool" where
  "show_variant_ok v = list_all show_group_ok (mv_UserGroupList v)"

lemma dec_strategies_ok: "dec_inv (list_all strategy_ok) dec_strategies"
  unfolding dec_strategies_def
proof (rule dec_inv_slice)
  show "dec_inv strategy_ok dec_ShowStrategy"
    unfolding dec_ShowStrategy_def
    by (intro dec_inv_struct) (auto simp: strategy_ok_def intro!: dec_inv_field dec_invD[OF dec_float_finite])
  show "strategy_ok zero_strategy"
    by (simp add: strategy_ok_def zero_strategy_def finite64_def zero_float64_def valid64_def on_grid_nums)
qed

lemma dec_show_group_ok: "dec_inv show_group_ok dec_showUserGroup"
proof -
  have ab: "dec_inv (\<lambda>v. list_all strategy_ok (sv_StrategyList v)) dec_showAbVariant"
    unfolding dec_showAbVariant_def
    by (intro dec_inv_struct) (auto intro!: dec_inv_field dec_invD[OF dec_strategies_ok])
  note nested = dec_invD[OF dec_inv_slice[OF ab]]
  show ?thesis
    unfolding dec_showUserGroup_def
    by (intro dec_inv_struct) (auto simp: show_group_ok_def intro!: dec_inv_field dec_invD[OF dec_strategies_ok] nested)
qed

lemma dec_ShowLibrary_ok: "dec_inv (\<lambda>lib. list_all show_variant_ok (sl_MapRecommend lib)) dec_ShowLibrary"
proof -
  let ?z = "\<lparr>su_UserGroup = [], su_StrategyList = [], su_ShowAb = []\<rparr>"
  have z: "show_group_ok ?z" by (simp add: show_group_ok_def)
  have "dec_inv show_variant_ok (dec_mapRecommendVariant ?z dec_showUserGroup)"
    unfolding dec_mapRecommendVariant_def
    by (intro dec_inv_struct)
      (auto simp: show_variant_ok_def intro!: dec_inv_field dec_invD[OF dec_inv_slice[OF dec_show_group_ok z]])
  then have v: "dec_inv (list_all show_variant_ok) (dec_variants ?z dec_showUserGroup)"
    unfolding dec_variants_def by (rule dec_inv_slice) (simp add: show_variant_ok_def)
  show ?thesis
    unfolding dec_ShowLibrary_def by (intro dec_inv_struct) (auto intro!: dec_inv_field dec_invD[OF v])
qed

text \<open>Whatever document a show-control file holds, loading either fails or gives strategies whose factors are
  finite numbers, for every experiment and user group: no strategy the pipeline applies can inject a NaN
  or an infinity into the scores.\<close>

lemma LoadShowLibrary_finite:
  "case LoadShowLibrary read_file path of
     Inl e \<Rightarrow> True
   | Inr lib \<Rightarrow>
       list_all (\<lambda>st. finite64 (ss_ScoreControlFactor st) \<and> finite64 (ss_MMRConstant st))
         (ResolvedStrategyList (ResolveShow (Some lib) expIDs userGroup) abIDs)"
proof (cases "LoadShowLibrary read_file path")
  case (Inr lib)
  then obtain b where "unmarshal_ok dec_ShowLibrary \<lparr>sl_MapRecommend = []\<rparr> b = Some lib"
    by (auto simp: LoadShowLibrary_def load_json_def and_then_Inr split: option.splits)
  from unmarshal_ok_inv[OF dec_ShowLibrary_ok _ this] have lib: "list_all show_variant_ok (sl_MapRecommend lib)" by simp
  have "show_group_ok g" if g: "ResolveShow (Some lib) expIDs userGroup = Some g" for g
  proof -
    obtain v where v: "pick_variant mv_ExpID expIDs (sl_MapRecommend lib) = Some v" "pick_group su_UserGroup userGroup (mv_UserGroupList v) = Some g"
      using g by (auto simp: ResolveShow_def resolveMapRecommend_def split: option.splits)
    have "show_variant_ok v" using lib variant.pick_member[OF v(1)] by (simp add: list_all_iff)
    then show ?thesis using pick_group_mem[OF v(2)] by (simp add: show_variant_ok_def list_all_iff)
  qed
  then have "list_all strategy_ok (ResolvedStrategyList (ResolveShow (Some lib) expIDs userGroup) abIDs)"
    using PickABVariantIndex_bound[of _ abIDs]
    by (auto simp: ResolvedStrategyList_def show_group_ok_def Let_def list_all_length split: option.split)
  then show ?thesis using Inr by (simp add: strategy_ok_def[abs_def])
qed simp

end
