(* ===== verification/Config_Print.thy ===== *)
theory Config_Print
  imports Config_Load Wire_DTO
begin

text \<open>
  Configuration files as they are written: a printer for the recall, filter and funnel libraries, with the keys the
  files of the repository have, and the proof that loading a printed library gives it back. So no field
  of a file is lost, read from another key or given to another field. (Show libraries contain floats, whose spelling is
  not modelled here.)
\<close>

section \<open>Printers\<close>

definition print_rule :: "RecallMergeRule \<Rightarrow> json" where
  "print_rule r = JObj
     [(''RecallType'', JStr (rr_RecallType r)), (''RecallNum'', enc_int (rr_RecallNum r)),
      (''MergeMaxNum'', enc_int (rr_MergeMaxNum r)), (''SampleFold'', enc_int (rr_SampleFold r)),
      (''UseTopKIndex'', enc_int (rr_UseTopKIndex r))]"

definition print_policy :: "FilterPolicy \<Rightarrow> json" where
  "print_policy p = JObj [(''Type'', JStr (fp_Type p)), (''BackoffAfter'', enc_int (fp_BackoffAfter p))]"

definition print_show_cfg :: "ShowControlCfg \<Rightarrow> json" where
  "print_show_cfg c = JObj [(''MaxItems'', enc_int (sw_MaxItems c))]"

definition print_filter_ab :: "FilterAbVariant \<Rightarrow> json" where
  "print_filter_ab v = JObj [(''exp_id'', enc_int (fa_ExpID v)), (''FilterPolicies'', enc_slice print_policy (fa_FilterPolicies v))]"

definition print_recall_ab :: "RecallAbVariant \<Rightarrow> json" where
  "print_recall_ab v = JObj
     [(''exp_id'', enc_int (ra_ExpID v)), (''ExclusiveRecallList'', enc_slice print_rule (ra_ExclusiveRecallList v)),
      (''RecallAndMergeList'', enc_slice print_rule (ra_RecallAndMergeList v))]"

definition print_show_ab :: "ShowAbVariant \<Rightarrow> json" where
  "print_show_ab v = JObj [(''exp_id'', enc_int (sa_ExpID v)), (''ShowControl'', print_show_cfg (sa_ShowControl v))]"

definition print_funnel_group :: "FunnelUserGroup \<Rightarrow> json" where
  "print_funnel_group g = JObj
     [(''UserGroup'', JStr (fg_UserGroup g)), (''AllMergeNum'', enc_int (fg_AllMergeNum g)),
      (''FilterPolicies'', enc_slice print_policy (fg_FilterPolicies g)),
      (''ExclusiveRecallList'', enc_slice print_rule (fg_ExclusiveRecallList g)),
      (''RecallAndMergeList'', enc_slice print_rule (fg_RecallAndMergeList g)),
      (''FinalRetCount'', enc_int (fg_FinalRetCount g)), (''ShowControl'', print_show_cfg (fg_ShowControl g)),
      (''FilterAb'', enc_slice print_filter_ab (fg_FilterAb g)), (''RecallAb'', enc_slice print_recall_ab (fg_RecallAb g)),
      (''ShowAb'', enc_slice print_show_ab (fg_ShowAb g))]"

definition print_funnel :: "FunnelLibrary \<Rightarrow> json" where
  "print_funnel lib = JObj [(''MapRecommend'', enc_slice
     (\<lambda>v. JObj [(''exp_id'', enc_int (fv_ExpID v)), (''UserGroupList'', enc_slice print_funnel_group (fv_UserGroupList v))])
     (fl_MapRecommend lib))]"

definition print_variants :: "('g \<Rightarrow> json) \<Rightarrow> 'g mapRecommendVariant list \<Rightarrow> json" where
  "print_variants print_group = enc_slice
     (\<lambda>v. JObj [(''exp_id'', enc_int (mv_ExpID v)), (''UserGroupList'', enc_slice print_group (mv_UserGroupList v))])"

definition print_recall_group :: "RecallUserGroup \<Rightarrow> json" where
  "print_recall_group g = JObj
     [(''UserGroup'', JStr (ru_UserGroup g)), (''AllMergeNum'', enc_int (ru_AllMergeNum g)),
      (''ExclusiveRecallList'', enc_slice print_rule (ru_ExclusiveRecallList g)),
      (''RecallAndMergeList'', enc_slice print_rule (ru_RecallAndMergeList g)),
      (''FinalRetCount'', enc_int (ru_FinalRetCount g)), (''RecallAb'', enc_slice print_recall_ab (ru_RecallAb g))]"

definition print_recall :: "RecallLibrary \<Rightarrow> json" where
  "print_recall lib = JObj [(''MapRecommend'', print_variants print_recall_group (rl_MapRecommend lib))]"

definition print_rule_strategy :: "RuleFilterStrategy \<Rightarrow> json" where
  "print_rule_strategy s = JObj
     [(''FilterType'', JStr (rf_FilterType s)), (''ValidityTime'', enc_int (rf_ValidityTime s)),
      (''ExposureLimit'', enc_int (rf_ExposureLimit s)), (''ForcedRatio'', enc_int (rf_ForcedRatio s))]"

definition print_feature_strategy :: "FeatureFilterStrategy \<Rightarrow> json" where
  "print_feature_strategy s = JObj
     [(''FilterType'', JStr (ff_FilterType s)), (''WhiteListLabel'', JStr (ff_WhiteListLabel s))]"

definition print_center_filter_ab :: "filterAbVariant \<Rightarrow> json" where
  "print_center_filter_ab v = JObj
     [(''exp_id'', enc_int (fb_ExpID v)),
      (''RuleFilterStrategyList'', enc_slice print_rule_strategy (fb_RuleFilterStrategyList v)),
      (''FeatureFilterStrategyList'', enc_slice print_feature_strategy (fb_FeatureFilterStrategyList v))]"

definition print_filter_group :: "filterUserGroup \<Rightarrow> json" where
  "print_filter_group g = JObj
     [(''UserGroup'', JStr (fu_UserGroup g)), (''KeepItemNum'', enc_int (fu_KeepItemNum g)),
      (''RuleFilterStrategyList'', enc_slice print_rule_strategy (fu_RuleFilterStrategyList g)),
      (''FeatureFilterStrategyList'', enc_slice print_feature_strategy (fu_FeatureFilterStrategyList g)),
      (''FilterAb'', enc_slice print_center_filter_ab (fu_FilterAb g))]"

definition print_filter :: "FilterLibrary \<Rightarrow> json" where
  "print_filter lib = JObj [(''MapRecommend'', print_variants print_filter_group (ftl_MapRecommend lib))]"

section \<open>What can be written\<close>

text \<open>Integers in the range of their Go types and texts that are UTF-8, everywhere in a library.\<close>

definition rule_fits :: "RecallMergeRule \<Rightarrow> bool" where
  "rule_fits r =
     (valid_utf8 (rr_RecallType r) \<and>
      list_all (fits 64) [rr_RecallNum r, rr_MergeMaxNum r, rr_SampleFold r, rr_UseTopKIndex r])"

definition policy_fits :: "FilterPolicy \<Rightarrow> bool" where
  "policy_fits p = (valid_utf8 (fp_Type p) \<and> fits 64 (fp_BackoffAfter p))"

definition recall_ab_fits :: "RecallAbVariant \<Rightarrow> bool" where
  "recall_ab_fits v =
     (fits 32 (ra_ExpID v) \<and> list_all rule_fits (ra_ExclusiveRecallList v) \<and> list_all rule_fits (ra_RecallAndMergeList v))"

definition filter_ab_fits :: "FilterAbVariant \<Rightarrow> bool" where
  "filter_ab_fits v = (fits 32 (fa_ExpID v) \<and> list_all policy_fits (fa_FilterPolicies v))"

definition show_ab_fits :: "ShowAbVariant \<Rightarrow> bool" where
  "show_ab_fits v = (fits 32 (sa_ExpID v) \<and> fits 64 (sw_MaxItems (sa_ShowControl v)))"

definition funnel_group_fits :: "FunnelUserGroup \<Rightarrow> bool" where
  "funnel_group_fits g =
     (valid_utf8 (fg_UserGroup g) \<and> fits 64 (fg_AllMergeNum g) \<and> fits 64 (fg_FinalRetCount g) \<and> fits 64 (sw_MaxItems (fg_ShowControl g)) \<and>
      list_all policy_fits (fg_FilterPolicies g) \<and> list_all rule_fits (fg_ExclusiveRecallList g) \<and>
      list_all rule_fits (fg_RecallAndMergeList g) \<and>
      list_all filter_ab_fits (fg_FilterAb g) \<and>
      list_all recall_ab_fits (fg_RecallAb g) \<and>
      list_all show_ab_fits (fg_ShowAb g))"

definition funnel_variant_fits :: "FunnelVariant \<Rightarrow> bool" where
  "funnel_variant_fits v = (fits 32 (fv_ExpID v) \<and> list_all funnel_group_fits (fv_UserGroupList v))"

definition funnel_fits :: "FunnelLibrary \<Rightarrow> bool" where
  "funnel_fits lib = list_all funnel_variant_fits (fl_MapRecommend lib)"

definition variant_fits :: "('g \<Rightarrow> bool) \<Rightarrow> 'g mapRecommendVariant \<Rightarrow> bool" where
  "variant_fits P v = (fits 32 (mv_ExpID v) \<and> list_all P (mv_UserGroupList v))"

definition variants_fit :: "('g \<Rightarrow> bool) \<Rightarrow> 'g mapRecommendVariant list \<Rightarrow> bool" where
  "variants_fit P vs = list_all (variant_fits P) vs"

definition recall_group_fits :: "RecallUserGroup \<Rightarrow> bool" where
  "recall_group_fits g =
     (valid_utf8 (ru_UserGroup g) \<and> fits 64 (ru_AllMergeNum g) \<and> fits 64 (ru_FinalRetCount g) \<and>
      list_all rule_fits (ru_ExclusiveRecallList g) \<and> list_all rule_fits (ru_RecallAndMergeList g) \<and>
      list_all recall_ab_fits (ru_RecallAb g))"

definition rule_strategy_fits :: "RuleFilterStrategy \<Rightarrow> bool" where
  "rule_strategy_fits s =
     (valid_utf8 (rf_FilterType s) \<and> list_all (fits 64) [rf_ValidityTime s, rf_ExposureLimit s, rf_ForcedRatio s])"

definition feature_strategy_fits :: "FeatureFilterStrategy \<Rightarrow> bool" where
  "feature_strategy_fits s = (valid_utf8 (ff_FilterType s) \<and> valid_utf8 (ff_WhiteListLabel s))"

definition center_filter_ab_fits :: "filterAbVariant \<Rightarrow> bool" where
  "center_filter_ab_fits v =
     (fits 32 (fb_ExpID v) \<and> list_all rule_strategy_fits (fb_RuleFilterStrategyList v) \<and>
      list_all feature_strategy_fits (fb_FeatureFilterStrategyList v))"

definition filter_group_fits :: "filterUserGroup \<Rightarrow> bool" where
  "filter_group_fits g =
     (valid_utf8 (fu_UserGroup g) \<and> fits 64 (fu_KeepItemNum g) \<and>
      list_all rule_strategy_fits (fu_RuleFilterStrategyList g) \<and> list_all feature_strategy_fits (fu_FeatureFilterStrategyList g) \<and>
      list_all center_filter_ab_fits (fu_FilterAb g))"

section \<open>Reading back\<close>

text \<open>A decoder reads back what a printer writes, into a fresh value.\<close>

definition reads_back :: "'a dec \<Rightarrow> 'a \<Rightarrow> ('a \<Rightarrow> json) \<Rightarrow> 'a \<Rightarrow> bool" where
  "reads_back d z prnt x = (d z (prnt x) = (x, True) \<and> json_ok (prnt x))"

lemma reads_back_slice:
  "list_all (reads_back d z prnt) xs \<Longrightarrow> reads_back (dec_slice z d) [] (enc_slice prnt) xs"
  using dec_slice_enc(1)[of d z prnt xs] by (auto simp: reads_back_def list_all_iff enc_slice_def)

lemma reads_back_all: "list_all P xs \<Longrightarrow> (\<And>x. P x \<Longrightarrow> reads_back d z prnt x) \<Longrightarrow> reads_back (dec_slice z d) [] (enc_slice prnt) xs"
  by (rule reads_back_slice) (auto simp: list_all_iff)

lemma load_json_reads:
  "reads_back d z prnt x \<Longrightarrow> read_file path = Inr (json_print (prnt x)) \<Longrightarrow> load_json read_file d z path = Inr x"
  by (simp add: load_json_def reads_back_def unmarshal_ok_def unmarshal_print)

named_theorems printed

lemma rule_back [printed]: "rule_fits r \<Longrightarrow> reads_back dec_RecallMergeRule zero_rule print_rule r"
  by (cases r) (simp add: reads_back_def dec_RecallMergeRule_def print_rule_def zero_rule_def rule_fits_def struct_simps)

lemma policy_back [printed]: "policy_fits p \<Longrightarrow> reads_back dec_FilterPolicy \<lparr>fp_Type = [], fp_BackoffAfter = 0\<rparr> print_policy p"
  by (cases p) (simp add: reads_back_def dec_FilterPolicy_def print_policy_def policy_fits_def struct_simps)

lemma rules_back: "list_all rule_fits xs \<Longrightarrow> reads_back dec_rules [] (enc_slice print_rule) xs"
  unfolding dec_rules_def by (erule reads_back_all) (rule printed)

lemma policies_back: "list_all policy_fits xs \<Longrightarrow> reads_back dec_policies [] (enc_slice print_policy) xs"
  unfolding dec_policies_def by (erule reads_back_all) (rule printed)

lemma recall_ab_back:
  assumes "recall_ab_fits v"
  shows "reads_back dec_RecallAbVariant \<lparr>ra_ExpID = 0, ra_ExclusiveRecallList = [], ra_RecallAndMergeList = []\<rparr> print_recall_ab v"
  using assms rules_back[of "ra_ExclusiveRecallList v"] rules_back[of "ra_RecallAndMergeList v"]
  by (cases v) (simp add: reads_back_def dec_RecallAbVariant_def print_recall_ab_def recall_ab_fits_def struct_simps)

lemma recall_abs_back: "list_all recall_ab_fits xs \<Longrightarrow> reads_back dec_recall_ab [] (enc_slice print_recall_ab) xs"
  unfolding dec_recall_ab_def by (erule reads_back_all) (rule recall_ab_back)

lemma show_cfg_back: "fits 64 (sw_MaxItems c) \<Longrightarrow> reads_back dec_ShowControlCfg \<lparr>sw_MaxItems = 0\<rparr> print_show_cfg c"
  by (cases c) (simp add: reads_back_def dec_ShowControlCfg_def print_show_cfg_def struct_simps)

lemma filter_ab_back:
  assumes "filter_ab_fits v"
  shows "reads_back dec_FilterAbVariant \<lparr>fa_ExpID = 0, fa_FilterPolicies = []\<rparr> print_filter_ab v"
  using assms policies_back[of "fa_FilterPolicies v"]
  by (cases v) (simp add: reads_back_def dec_FilterAbVariant_def print_filter_ab_def filter_ab_fits_def struct_simps)

lemma show_ab_back:
  assumes "show_ab_fits v"
  shows "reads_back dec_ShowAbVariant \<lparr>sa_ExpID = 0, sa_ShowControl = \<lparr>sw_MaxItems = 0\<rparr>\<rparr> print_show_ab v"
  using assms show_cfg_back[of "sa_ShowControl v"]
  by (cases v) (simp add: reads_back_def dec_ShowAbVariant_def print_show_ab_def show_ab_fits_def struct_simps)

lemma funnel_group_back:
  assumes "funnel_group_fits g"
  shows "reads_back dec_FunnelUserGroup zero_funnel_group print_funnel_group g"
proof -
  note lists = policies_back[of "fg_FilterPolicies g"] rules_back[of "fg_ExclusiveRecallList g"]
    rules_back[of "fg_RecallAndMergeList g"] recall_abs_back[of "fg_RecallAb g"] show_cfg_back[of "fg_ShowControl g"]
    reads_back_all[of filter_ab_fits "fg_FilterAb g", OF _ filter_ab_back] reads_back_all[of show_ab_fits "fg_ShowAb g", OF _ show_ab_back]
  show ?thesis
    using assms lists
    by (cases g) (simp add: reads_back_def dec_FunnelUserGroup_def print_funnel_group_def zero_funnel_group_def
        funnel_group_fits_def struct_simps)
qed

lemma funnel_back:
  assumes "funnel_fits lib"
  shows "reads_back dec_FunnelLibrary \<lparr>fl_MapRecommend = []\<rparr> print_funnel lib"
proof -
  let ?print = "\<lambda>v. JObj [(''exp_id'', enc_int (fv_ExpID v)), (''UserGroupList'', enc_slice print_funnel_group (fv_UserGroupList v))]"
  have "reads_back dec_FunnelVariant \<lparr>fv_ExpID = 0, fv_UserGroupList = []\<rparr> ?print v"
    if "funnel_variant_fits v" for v
    using that reads_back_all[of funnel_group_fits "fv_UserGroupList v", OF _ funnel_group_back]
    by (cases v) (simp add: reads_back_def dec_FunnelVariant_def funnel_variant_fits_def struct_simps)
  from reads_back_all[of funnel_variant_fits "fl_MapRecommend lib", OF _ this] show ?thesis
    using assms by (cases lib) (simp add: reads_back_def dec_FunnelLibrary_def print_funnel_def funnel_fits_def struct_simps)
qed

lemma variants_back:
  assumes "variants_fit P vs" "\<And>g. P g \<Longrightarrow> reads_back d z prnt g"
  shows "reads_back (dec_variants z d) [] (print_variants prnt) vs"
proof -
  let ?print = "\<lambda>v. JObj [(''exp_id'', enc_int (mv_ExpID v)), (''UserGroupList'', enc_slice prnt (mv_UserGroupList v))]"
  have "reads_back (dec_mapRecommendVariant z d) \<lparr>mv_ExpID = 0, mv_UserGroupList = []\<rparr> ?print v"
    if "variant_fits P v" for v
    using that reads_back_all[of P "mv_UserGroupList v", OF _ assms(2)]
    by (cases v) (simp add: reads_back_def dec_mapRecommendVariant_def variant_fits_def struct_simps)
  from reads_back_all[of "variant_fits P" vs, OF _ this] show ?thesis
    using assms(1) by (simp add: dec_variants_def print_variants_def variants_fit_def)
qed

lemma recall_group_back:
  assumes "recall_group_fits g"
  shows "reads_back dec_RecallUserGroup zero_recall_group print_recall_group g"
  using assms rules_back[of "ru_ExclusiveRecallList g"] rules_back[of "ru_RecallAndMergeList g"] recall_abs_back[of "ru_RecallAb g"]
  by (cases g) (simp add: reads_back_def dec_RecallUserGroup_def print_recall_group_def zero_recall_group_def
      recall_group_fits_def struct_simps)

lemma rule_strategy_back:
  "rule_strategy_fits s \<Longrightarrow>
   reads_back dec_RuleFilterStrategy \<lparr>rf_FilterType = [], rf_ValidityTime = 0, rf_ExposureLimit = 0, rf_ForcedRatio = 0\<rparr>
     print_rule_strategy s"
  by (cases s) (simp add: reads_back_def dec_RuleFilterStrategy_def print_rule_strategy_def rule_strategy_fits_def struct_simps)

lemma feature_strategy_back:
  "feature_strategy_fits s \<Longrightarrow>
   reads_back dec_FeatureFilterStrategy \<lparr>ff_FilterType = [], ff_WhiteListLabel = []\<rparr> print_feature_strategy s"
  by (cases s) (simp add: reads_back_def dec_FeatureFilterStrategy_def print_feature_strategy_def feature_strategy_fits_def struct_simps)

lemma strategies_back:
  "list_all rule_strategy_fits rs \<Longrightarrow> reads_back dec_rule_strategies [] (enc_slice print_rule_strategy) rs"
  "list_all feature_strategy_fits fs \<Longrightarrow> reads_back dec_feature_strategies [] (enc_slice print_feature_strategy) fs"
  unfolding dec_rule_strategies_def dec_feature_strategies_def
  by (rule reads_back_all, assumption, rule rule_strategy_back, assumption)
    (rule reads_back_all, assumption, rule feature_strategy_back, assumption)

lemma filter_group_back:
  assumes "filter_group_fits g"
  shows "reads_back dec_filterUserGroup \<lparr>fu_UserGroup = [], fu_KeepItemNum = 0, fu_RuleFilterStrategyList = [],
      fu_FeatureFilterStrategyList = [], fu_FilterAb = []\<rparr> print_filter_group g"
proof -
  have "reads_back dec_filterAbVariant \<lparr>fb_ExpID = 0, fb_RuleFilterStrategyList = [], fb_FeatureFilterStrategyList = []\<rparr>
      print_center_filter_ab v"
    if "center_filter_ab_fits v" for v
    using that strategies_back(1)[of "fb_RuleFilterStrategyList v"] strategies_back(2)[of "fb_FeatureFilterStrategyList v"]
    by (cases v) (simp add: reads_back_def dec_filterAbVariant_def print_center_filter_ab_def center_filter_ab_fits_def struct_simps)
  from reads_back_all[of center_filter_ab_fits "fu_FilterAb g", OF _ this] show ?thesis
    using assms strategies_back(1)[of "fu_RuleFilterStrategyList g"] strategies_back(2)[of "fu_FeatureFilterStrategyList g"]
    by (cases g) (simp add: reads_back_def dec_filterUserGroup_def print_filter_group_def filter_group_fits_def struct_simps)
qed

section \<open>Loading what was written\<close>

text \<open>C37: loading gives exactly the library that a file spells: the recall, filter and funnel library of a file
  written with the keys of the repository's configuration files comes back with every experiment, group, lane rule, filter
  strategy and count in its place, provided the numbers are in the range of their types and the texts are
  UTF-8; a file that cannot be read, or is no JSON document, is an error.\<close>

theorem libraries_load:
  assumes "variants_fit recall_group_fits (rl_MapRecommend recall)" "variants_fit filter_group_fits (ftl_MapRecommend filters)"
    and "funnel_fits funnel"
  shows "LoadRecallLibrary (\<lambda>p. Inr (json_print (print_recall recall))) path = Inr recall
    \<and> LoadFilterLibrary (\<lambda>p. Inr (json_print (print_filter filters))) path = Inr filters
    \<and> LoadFunnelLibrary (\<lambda>p. Inr (json_print (print_funnel funnel))) path = Inr funnel
    \<and> LoadRecallLibrary (\<lambda>p. Inl e) path = Inl e \<and> LoadFilterLibrary (\<lambda>p. Inl e) path = Inl e
    \<and> LoadFunnelLibrary (\<lambda>p. Inl e) path = Inl e
    \<and> (if json_parse b = None
       then isl (LoadRecallLibrary (\<lambda>p. Inr b) path) \<and> isl (LoadFilterLibrary (\<lambda>p. Inr b) path) \<and> isl (LoadFunnelLibrary (\<lambda>p. Inr b) path)
       else True)"
proof -
  have "reads_back dec_RecallLibrary \<lparr>rl_MapRecommend = []\<rparr> print_recall recall"
    using variants_back[OF assms(1) recall_group_back]
    by (cases recall) (simp add: reads_back_def dec_RecallLibrary_def print_recall_def struct_simps)
  moreover have "reads_back dec_FilterLibrary \<lparr>ftl_MapRecommend = []\<rparr> print_filter filters"
    using variants_back[OF assms(2) filter_group_back]
    by (cases filters) (simp add: reads_back_def dec_FilterLibrary_def print_filter_def struct_simps)
  moreover note funnel_back[OF assms(3)]
  ultimately show ?thesis
    by (auto simp: LoadRecallLibrary_def LoadFilterLibrary_def LoadFunnelLibrary_def intro: load_json_reads)
      (simp_all add: load_json_def unmarshal_ok_def unmarshal_def)
qed

definition hot_rule :: RecallMergeRule where
  "hot_rule = \<lparr>rr_RecallType = ''HotMap'', rr_RecallNum = 100, rr_MergeMaxNum = 50, rr_SampleFold = 2, rr_UseTopKIndex = 1\<rparr>"

definition printed_recall :: RecallLibrary where
  "printed_recall = \<lparr>rl_MapRecommend = [\<lparr>mv_ExpID = 7, mv_UserGroupList =
     [\<lparr>ru_UserGroup = ''def_group'', ru_AllMergeNum = 10, ru_ExclusiveRecallList = [], ru_RecallAndMergeList = [hot_rule],
       ru_FinalRetCount = 5, ru_RecallAb = [\<lparr>ra_ExpID = 8, ra_ExclusiveRecallList = [hot_rule], ra_RecallAndMergeList = []\<rparr>]\<rparr>]\<rparr>]\<rparr>"

lemma libraries_load_witness:
  "LoadRecallLibrary (\<lambda>p. Inr (json_print (print_recall printed_recall))) ''recall.json'' = Inr printed_recall
   \<and> isl (LoadFunnelLibrary (\<lambda>p. Inr []) ''funnel.json'')"
  using libraries_load[of printed_recall "\<lparr>ftl_MapRecommend = []\<rparr>" "\<lparr>fl_MapRecommend = []\<rparr>" "''recall.json''" _ "[]"]
    libraries_load[of printed_recall "\<lparr>ftl_MapRecommend = []\<rparr>" "\<lparr>fl_MapRecommend = []\<rparr>" "''funnel.json''" _ "[]"]
  by (simp add: variants_fit_def variant_fits_def recall_group_fits_def printed_recall_def hot_rule_def rule_fits_def recall_ab_fits_def
      funnel_fits_def fits_def json_parse_def skip_ws_def)

end
