(* ===== verification/Recommend.thy ===== *)
theory Recommend
  imports Center_Pipeline Algo_Log Kafka_Pool
begin

text \<open>
  \<open>services/recommend/internal/logic\<close>: one recommendation request (\<open>recommendlogic.go\<close>) in its three modes
  (center pipeline, funnel, stub recall), and the log line it pushes (\<open>algopush.go\<close>). The rank client is
  called at most once per request, so it is a function here; the Kafka pool is state.
\<close>

section \<open>The handler and its constructors\<close>

record Recommend =
  rm_Pipeline :: Pipeline
  rm_Features :: "Fetcher option"
  rm_Funnel :: "FunnelLibrary option"
  rm_Center :: "CenterBundle option"
  rm_Recall :: "Registry option"
  rm_AlgoKafka :: "Pool option"
  rm_centerPL :: "Center option"

definition rank_only :: "RankClient option \<Rightarrow> Pipeline" where
  "rank_only rank = \<lparr>pl_Recall = [], pl_Filter = [], pl_Rank = rank, pl_ShowControl = None\<rparr>"

definition NewRecommend :: "RankClient option \<Rightarrow> Fetcher option \<Rightarrow> Recommend" where
  "NewRecommend rank feat =
     \<lparr>rm_Pipeline = rank_only rank, rm_Features = feat, rm_Funnel = None, rm_Center = None, rm_Recall = None,
      rm_AlgoKafka = None, rm_centerPL = None\<rparr>"

definition NewRecommendFunnel ::
  "RankClient option \<Rightarrow> Fetcher option \<Rightarrow> FunnelLibrary option \<Rightarrow> Registry option \<Rightarrow> Recommend" where
  "NewRecommendFunnel rank feat funnel reg =
     \<lparr>rm_Pipeline = rank_only rank, rm_Features = feat, rm_Funnel = funnel, rm_Center = None, rm_Recall = reg,
      rm_AlgoKafka = None, rm_centerPL = None\<rparr>"

definition NewRecommendCenter ::
  "RankClient option \<Rightarrow> Fetcher option \<Rightarrow> CenterBundle option \<Rightarrow> Registry option \<Rightarrow> Recommend" where
  "NewRecommendCenter rank feat center reg =
     \<lparr>rm_Pipeline = rank_only rank, rm_Features = feat, rm_Funnel = None, rm_Center = center, rm_Recall = reg,
      rm_AlgoKafka = None,
      rm_centerPL = Some \<lparr>ce_Features = feat, ce_Center = center, ce_Recall = reg, ce_Rank = rank\<rparr>\<rparr>"

section \<open>Logging\<close>

record log_host =
  lh_host :: string
  lh_now :: int64
  lh_score :: "float64 \<Rightarrow> string"

definition log_input :: "Pool \<Rightarrow> RecommendRequestJSON \<Rightarrow> RequestContext \<Rightarrow> ItemInfo list \<Rightarrow> Input" where
  "log_input pool req rctx items =
     \<lparr>in_UUID = rq_UUID req, in_UserID = rq_UserID req, in_Section = rq_Section req, in_ExpIDs = rc_ExpIDs rctx,
      in_DisablePersonal = rq_DisablePersonal req, in_DeviceID = rq_DeviceID req, in_TerminalModel = rq_TerminalModel req,
      in_OSType = rq_OS req, in_Items = items, in_APIType = APIType pool, in_DataType = DataType pool\<rparr>"

definition pushAlgoLog ::
  "log_host \<Rightarrow> Recommend \<Rightarrow> RecommendRequestJSON \<Rightarrow> RequestContext \<Rightarrow> ItemInfo list \<Rightarrow> go_error + Recommend" where
  "pushAlgoLog lh l req rctx items =
     (case rm_AlgoKafka l of
        None \<Rightarrow> Inr l
      | Some pool \<Rightarrow>
          if \<not> Enabled (Some pool) then Inr l
          else
            (let rec = BuildRecord (lh_host lh) (lh_now lh) (lh_score lh) (log_input pool req rctx items) in
             and_then (Push (Serialize rec) pool) (\<lambda>pool'. Inr (l\<lparr>rm_AlgoKafka := Some pool'\<rparr>))))"

section \<open>Funnel mode\<close>

definition buildRecommendResponse :: "RecommendRequestJSON \<Rightarrow> ItemInfo list \<Rightarrow> int32 \<Rightarrow> RecommendResponseJSON" where
  "buildRecommendResponse req items capCount =
     (let limit = (if 0 < capCount \<and> capCount < int (length items) then nat capCount else length items);
          served = take limit items
      in \<lparr>rr_UserID = rq_UserID req, rr_ItemIDs = map it_ID served,
          rr_Recall = map (\<lambda>it. \<lparr>ir_ItemID = it_ID it, ir_RecallType = it_RecallType it\<rparr>) served\<rparr>)"

definition recsyskitIDs :: "ItemInfo list \<Rightarrow> ItemID list" where
  "recsyskitIDs items = map it_ID items"

text \<open>The third copy of the reordering: index, items in score order, then the unseen ones.\<close>

definition reorderByRankGeneric :: "ItemInfo list \<Rightarrow> ItemScores list \<Rightarrow> ItemInfo list" where
  "reorderByRankGeneric items scores =
     (let index = fold (\<lambda>it m. m(it_ID it \<mapsto> it)) items Map.empty;
          out = concat (map (\<lambda>sc. case index (sc_ItemID sc) of None \<Rightarrow> [] | Some it \<Rightarrow> [it\<lparr>it_Score := sc_RankScore sc\<rparr>]) scores);
          seen = it_ID ` set out
      in out @ filter (\<lambda>it. it_ID it \<notin> seen) items)"

definition stub_items :: "ItemInfo list" where
  "stub_items = [mk_item 10001 ''stub_hot'', mk_item 10002 ''stub_hot'', mk_item 10003 ''stub_hot'']"

definition stubRankResponse ::
  "Recommend \<Rightarrow> RecommendRequestJSON \<Rightarrow> RequestContext \<Rightarrow> go_error + RecommendResponseJSON \<times> ItemInfo list" where
  "stubRankResponse l req rctx =
     and_then (Pipeline_Run (rm_Pipeline l) rctx stub_items)
       (\<lambda>items. Inr (buildRecommendResponse req items (rq_RetCount req), items))"

definition effectiveRetCount :: "RecommendRequestJSON \<Rightarrow> int \<Rightarrow> int32" where
  "effectiveRetCount req finalRet =
     (let ret = rq_RetCount req in if ret \<le> 0 \<and> 0 < finalRet then wrap32 finalRet else ret)"

text \<open>On an error the items come back as they were, with the error.\<close>

definition markAndDropNoPortrait :: "Fetcher option \<Rightarrow> ItemInfo list \<Rightarrow> ItemInfo list \<times> go_error option" where
  "markAndDropNoPortrait feat items =
     (case MarkItemPortraits feat items of
        Inl e \<Rightarrow> (items, Some e)
      | Inr marked \<Rightarrow> (DropWithoutPortrait marked, None))"

fun runRules ::
  "go_env \<Rightarrow> Fetcher option \<Rightarrow> Registry \<Rightarrow> RequestContext \<Rightarrow> RecallMergeRule list \<Rightarrow> go_error + ItemInfo list list" where
  "runRules env feat reg rctx [] = Inr []"
| "runRules env feat reg rctx (rule # rules) =
     and_then (Lane env reg rctx rule)
       (\<lambda>raw. case markAndDropNoPortrait feat
                    (if 0 < rr_UseTopKIndex rule \<and> rr_UseTopKIndex rule < int (length raw)
                     then upto_n (rr_UseTopKIndex rule) raw else raw) of
          (_, Some e) \<Rightarrow> Inl e
        | (kept, None) \<Rightarrow>
            (let mergeMax = (if rr_MergeMaxNum rule \<le> 0 then rr_RecallNum rule else rr_MergeMaxNum rule);
                 batch = ApplySampleFoldAndCap kept (rr_SampleFold rule) mergeMax
             in and_then (runRules env feat reg rctx rules) (\<lambda>batches. Inr (batch # batches))))"

definition funnel_loadExposure :: "go_env \<Rightarrow> Recommend \<Rightarrow> RequestContext \<Rightarrow> RequestContext" where
  "funnel_loadExposure env l rctx =
     (case rm_Features l of
        None \<Rightarrow> rctx
      | Some f \<Rightarrow>
          if fe_NoOp f then rctx
          else
            (case fe_Strategy f of
               None \<Rightarrow> rctx
             | Some st \<Rightarrow>
                 (case st_FilterExposureJSON st of
                    Inl _ \<Rightarrow> rctx
                  | Inr (raw, miss) \<Rightarrow>
                      if miss then rctx
                      else (let m = ParseExposureJSON env raw miss in
                            if m \<noteq> [] then rctx\<lparr>rc_Exposure := Some (map_of m)\<rparr> else rctx))))"

definition funnel_order :: "ItemInfo list \<Rightarrow> MultiRankResponse option \<Rightarrow> ItemInfo list" where
  "funnel_order merged resp =
     (case resp of
        None \<Rightarrow> merged
      | Some r \<Rightarrow>
          (case mp_Groups r of
             [] \<Rightarrow> merged
           | g # _ \<Rightarrow> if rg_Items g \<noteq> [] then reorderByRankGeneric merged (rg_Items g) else merged))"

definition rankAndShowFunnel ::
  "Recommend \<Rightarrow> RecommendRequestJSON \<Rightarrow> RequestContext \<Rightarrow> ItemInfo list \<Rightarrow> ShowControlCfg \<Rightarrow> int32 \<Rightarrow>
   go_error + RecommendResponseJSON \<times> ItemInfo list" where
  "rankAndShowFunnel l req rctx merged show ret =
     (let ret' = (if ret \<le> 0 then wrap32 (int (length merged)) else ret);
          mreq = \<lparr>mq_Ctx = rctx, mq_Groups = [\<lparr>gr_Name = ''Main'', gr_ItemIDs = recsyskitIDs merged, gr_RetCount = ret'\<rparr>],
                  mq_PreRankTrunc = 0, mq_RankTrunc = 0, mq_RankProfile = []\<rparr>
      in case pl_Rank (rm_Pipeline l) of
           None \<Rightarrow> Inl NilPanic
         | Some multiRank \<Rightarrow>
             and_then (multiRank mreq)
               (\<lambda>resp.
                  let shown = ApplyShowControl show (funnel_order merged resp)
                  in Inr (buildRecommendResponse req shown ret', shown)))"

definition handleFunnel ::
  "go_env \<Rightarrow> Recommend \<Rightarrow> Registry \<Rightarrow> RecommendRequestJSON \<Rightarrow> RequestContext \<Rightarrow>
   go_error + RecommendResponseJSON \<times> ItemInfo list" where
  "handleFunnel env l reg req rctx =
     (case ResolveFunnel (rm_Funnel l) (rc_ExpIDs rctx) (rc_UserGroup rctx) of
        None \<Rightarrow> stubRankResponse l req rctx
      | Some prof \<Rightarrow>
          (case funnel_ResolvedRecallLists (Some prof) (rc_ExpIDs rctx) of
             (exclusive, main) \<Rightarrow>
               and_then (runRules env (rm_Features l) reg rctx exclusive)
                 (\<lambda>exclusiveBatches. and_then (runRules env (rm_Features l) reg rctx main)
                    (\<lambda>mainBatches.
                       let merged0 = MergeRecallLanes exclusiveBatches mainBatches (fg_AllMergeNum prof);
                           merged1 = fst (markAndDropNoPortrait (rm_Features l) merged0);
                           rctx' = funnel_loadExposure env l rctx;
                           merged = ApplyFilterPolicies rctx'
                             (funnel_ResolvedFilterPolicies (Some prof) (rc_ExpIDs rctx')) merged1
                       in if merged = [] then Inr (\<lparr>rr_UserID = rq_UserID req, rr_ItemIDs = [], rr_Recall = []\<rparr>, [])
                          else rankAndShowFunnel l req rctx' merged
                                 (funnel_ResolvedShowControl (Some prof) (rc_ExpIDs rctx'))
                                 (effectiveRetCount req (fg_FinalRetCount prof))))))"

section \<open>A request\<close>

definition request_context :: "RecommendRequestJSON \<Rightarrow> RequestContext" where
  "request_context req =
     \<lparr>rc_UUID = rq_UUID req, rc_UserID = rq_UserID req, rc_Section = rq_Section req, rc_ExpIDs = rq_ExpIDs req,
      rc_DisablePersonal = rq_DisablePersonal req, rc_DeviceID = rq_DeviceID req, rc_TerminalModel = rq_TerminalModel req,
      rc_OSType = rq_OS req, rc_UserGroup = rq_UserGroup req, rc_Exposure = None, rc_UserFeat = []\<rparr>"

definition answer_request ::
  "go_env \<Rightarrow> Recommend \<Rightarrow> RecommendRequestJSON \<Rightarrow> RequestContext \<Rightarrow> go_error + RecommendResponseJSON \<times> ItemInfo list" where
  "answer_request env l req rctx =
     and_then (case rm_centerPL l of None \<Rightarrow> Inr None | Some p \<Rightarrow> Center_Run env p req rctx)
       (\<lambda>result. case result of
          Some r \<Rightarrow> Inr (re_Resp r, re_Items r)
        | None \<Rightarrow>
            (case (if rm_Funnel l \<noteq> None then rm_Recall l else None) of
               Some reg \<Rightarrow> handleFunnel env l reg req rctx
             | None \<Rightarrow> stubRankResponse l req rctx))"

definition Recommend_Handle ::
  "go_env \<Rightarrow> log_host \<Rightarrow> Recommend \<Rightarrow> RecommendRequestJSON \<Rightarrow> go_error + RecommendResponseJSON \<times> Recommend" where
  "Recommend_Handle env lh l req =
     (let rctx = request_context req in
      and_then (answer_request env l req rctx)
        (\<lambda>(resp, items). and_then (pushAlgoLog lh l req rctx items) (\<lambda>l'. Inr (resp, l'))))"

section \<open>The copies agree with the center's\<close>

lemma reorderGeneric_center: "reorderByRankGeneric items scores = center_reorderByRank items scores"
proof -
  have "concat (map (\<lambda>sc. case index (sc_ItemID sc) of None \<Rightarrow> [] | Some it \<Rightarrow> [it\<lparr>it_Score := sc_RankScore sc\<rparr>]) scores)
      = place_scores index scores" for index
    by (induction scores) (auto split: option.split)
  then show ?thesis
    by (simp add: reorderByRankGeneric_def center_reorderByRank_def append_unseen_def index_by_id_def Let_def)
qed

lemma runRules_center: "runRules env feat reg rctx rules = runRecallLanes env feat reg rctx rules"
proof (induction rules)
  case (Cons rule rules)
  have "markAndDropNoPortrait feat (use_top_k rule raw) =
      (case MarkItemPortraits feat (use_top_k rule raw) of Inl e \<Rightarrow> (use_top_k rule raw, Some e) | Inr m \<Rightarrow> (DropWithoutPortrait m, None))" for raw
    by (simp add: markAndDropNoPortrait_def)
  then show ?case
    using Cons by (cases "Lane env reg rctx rule")
      (auto simp: recall_lane_def lane_batch_def use_top_k_def[symmetric] merge_max_def Let_def split: sum.split)
qed simp

lemma loadExposure_center: "funnel_loadExposure env l rctx = loadExposure env (rm_Features l) rctx"
  by (simp add: funnel_loadExposure_def loadExposure_def split: option.split)

lemma rankFunnel_center:
  "rankAndShowFunnel l req rctx merged show ret =
   and_then (rank_main (pl_Rank (rm_Pipeline l)) rctx merged (if ret \<le> 0 then wrap32 (int (length merged)) else ret))
     (\<lambda>items. let shown = ApplyShowControl show items in
        Inr (buildRecommendResponse req shown (if ret \<le> 0 then wrap32 (int (length merged)) else ret), shown))"
  unfolding rankAndShowFunnel_def rank_main_def recsyskitIDs_def funnel_order_def reorderGeneric_center Let_def
  by (simp add: and_then_def split: option.split sum.split)

lemma buildResponse_copy: "buildRecommendResponse = buildResponse"
  by (simp add: buildRecommendResponse_def[abs_def] buildResponse_def[abs_def])

section \<open>What the funnel serves\<close>

definition backed_off :: "RequestContext \<Rightarrow> FilterPolicy list \<Rightarrow> ItemInfo \<Rightarrow> bool" where
  "backed_off rctx policies it =
     (\<exists>p\<in>set policies. \<exists>m. fp_Type p = ''exposure_backoff'' \<and> 0 < fp_BackoffAfter p \<and> rc_Exposure rctx = Some m \<and>
        fp_BackoffAfter p \<le> map_get 0 m (it_ID it))"

lemma backed_off_same: "it_ID x = it_ID y \<Longrightarrow> backed_off rctx policies x = backed_off rctx policies y"
  by (simp add: backed_off_def)

lemma policies_filter: "ApplyFilterPolicies rctx policies xs = filter (\<lambda>it. \<not> backed_off rctx policies it) xs"
  unfolding ApplyFilterPolicies_fold fold_filters[OF apply_policy_filter] backed_off_def by (intro filter_cong refl) blast

lemma portraits_keep: "\<exists>has. fst (markAndDropNoPortrait feat xs) = xs \<or>
    fst (markAndDropNoPortrait feat xs) = filter it_HasPortrait (set_portraits has xs)"
proof (cases "MarkItemPortraits feat xs")
  case (Inr m)
  have "DropWithoutPortrait m = filter it_HasPortrait m" by (simp add: DropWithoutPortrait_def)
  then show ?thesis using Inr MarkItemPortraits_shape[OF Inr] by (auto simp: markAndDropNoPortrait_def)
qed (simp add: markAndDropNoPortrait_def)

lemma portraits_ids: "subseq (map it_ID (fst (markAndDropNoPortrait feat xs))) (map it_ID xs)"
proof -
  obtain has where "fst (markAndDropNoPortrait feat xs) = xs \<or>
      fst (markAndDropNoPortrait feat xs) = filter it_HasPortrait (set_portraits has xs)" using portraits_keep by blast
  moreover have "map it_ID (set_portraits has xs) = map it_ID xs" by (simp add: set_portraits_def)
  ultimately show ?thesis using subseq_map[OF subseq_filter_left, of it_ID it_HasPortrait "set_portraits has xs"] by auto
qed

lemma portraits_typed: "typed T xs \<Longrightarrow> typed T (fst (markAndDropNoPortrait feat xs))"
  using portraits_keep[of feat xs] by (auto simp: typed_def list_all_iff set_portraits_def)

definition funnel_item_ok :: "RequestContext \<Rightarrow> FilterPolicy list \<Rightarrow> string set \<Rightarrow> ItemInfo \<Rightarrow> bool" where
  "funnel_item_ok rctx policies T it = (it_RecallType it \<in> T \<and> \<not> backed_off rctx policies it)"

lemma shown_cap: "length (ApplyShowControl cfg xs) \<le> (if 0 < sw_MaxItems cfg then nat (sw_MaxItems cfg) else length xs)"
  by (auto simp: ApplyShowControl_def)

context ranker
begin

lemma funnel_rank_ok:
  assumes "\<And>req. admits req" "pl_Rank (rm_Pipeline l) = Some rank" "distinct (map it_ID merged)"
    and "\<forall>x\<in>set merged. funnel_item_ok rctx policies T x"
  shows "\<exists>resp items ret'. rankAndShowFunnel l req rctx merged show ret = Inr (resp, items) \<and>
    distinct (map it_ID items) \<and> list_all (funnel_item_ok rctx policies T) items \<and>
    (0 < sw_MaxItems show \<longrightarrow> int (length items) \<le> sw_MaxItems show) \<and>
    response_of req ret' \<lparr>re_Resp = resp, re_Items = items\<rparr> \<and> (0 < ret \<longrightarrow> ret' = ret)"
proof -
  let ?ret = "if ret \<le> 0 then wrap32 (int (length merged)) else ret"
  obtain out where out: "rank_main (Some rank) rctx merged ?ret = Inr out" "distinct (map it_ID out)"
      "\<forall>x\<in>set out. \<exists>y\<in>set merged. it_ID y = it_ID x \<and> it_RecallType y = it_RecallType x"
    using rank_main_keeps[OF assms(1,3)] by blast
  have "funnel_item_ok rctx policies T x" if x: "x \<in> set out" for x
  proof -
    obtain y where y: "y \<in> set merged" "it_ID y = it_ID x" "it_RecallType y = it_RecallType x" using out(3) x by blast
    show ?thesis using bspec[OF assms(4) y(1)] backed_off_same[OF y(2), of rctx policies] by (simp add: funnel_item_ok_def y(3))
  qed
  then have "list_all (funnel_item_ok rctx policies T) (ApplyShowControl show out)"
    using show_cap.run_set[of "show" out] by (auto simp: list_all_iff)
  moreover have "distinct (map it_ID (ApplyShowControl show out))" by (rule show_cap.run_distinct[OF out(2)])
  moreover have "int (length (ApplyShowControl show out)) \<le> sw_MaxItems show" if "0 < sw_MaxItems show"
    using shown_cap[of "show" out] that by simp
  ultimately show ?thesis
    using buildResponse_caps[of req ?ret "ApplyShowControl show out"] assms(2)
    by (auto simp: rankFunnel_center out(1) Let_def buildResponse_copy)
qed

end

lemma handleFunnel_ok:
  assumes "rank_runtime rt" "svc_ok svc" "pl_Rank (rm_Pipeline l) = Some (local_rank rt svc slog)"
    and "ResolveFunnel (rm_Funnel l) (rc_ExpIDs rctx) (rc_UserGroup rctx) = Some prof"
  shows "let (exclusive, main) = funnel_ResolvedRecallLists (Some prof) (rc_ExpIDs rctx);
             ctx = loadExposure env (rm_Features l) rctx;
             policies = funnel_ResolvedFilterPolicies (Some prof) (rc_ExpIDs ctx);
             max_items = sw_MaxItems (funnel_ResolvedShowControl (Some prof) (rc_ExpIDs ctx)) in
    case handleFunnel env l reg req rctx of
      Inl e \<Rightarrow> \<exists>rule\<in>set (exclusive @ main). recall_lane env (rm_Features l) reg rctx rule = Inl e
    | Inr (resp, items) \<Rightarrow>
        distinct (map it_ID items)
        \<and> list_all (\<lambda>it. it_RecallType it \<in> rr_RecallType ` set (exclusive @ main) \<and> \<not> backed_off ctx policies it) items
        \<and> (0 < max_items \<longrightarrow> int (length items) \<le> max_items)
        \<and> (let ret = effectiveRetCount req (fg_FinalRetCount prof) in
           \<exists>ret'. response_of req ret' \<lparr>re_Resp = resp, re_Items = items\<rparr> \<and> (0 < ret \<longrightarrow> ret' = ret))"
proof -
  obtain erules mrules where rules: "funnel_ResolvedRecallLists (Some prof) (rc_ExpIDs rctx) = (erules, mrules)"
    by (cases "funnel_ResolvedRecallLists (Some prof) (rc_ExpIDs rctx)")
  let ?f = "rm_Features l" and ?ctx = "loadExposure env (rm_Features l) rctx" and ?T = "rr_RecallType ` set (erules @ mrules)"
  let ?policies = "funnel_ResolvedFilterPolicies (Some prof) (rc_ExpIDs ?ctx)"
  let ?show = "funnel_ResolvedShowControl (Some prof) (rc_ExpIDs ?ctx)"
  show ?thesis
  proof (cases "runRecallLanes env ?f reg rctx erules")
    case (Inl e)
    then show ?thesis using recall_lanes_error[OF Inl] by (auto simp: handleFunnel_def assms(4) rules runRules_center)
  next
    case e: (Inr eb)
    show ?thesis
    proof (cases "runRecallLanes env ?f reg rctx mrules")
      case (Inl e)
      then show ?thesis using e recall_lanes_error[OF Inl] by (auto simp: handleFunnel_def assms(4) rules runRules_center)
    next
      case m: (Inr mb)
      let ?pool = "MergeRecallLanes eb mb (fg_AllMergeNum prof)"
      let ?marked = "fst (markAndDropNoPortrait ?f ?pool)"
      let ?kept = "ApplyFilterPolicies ?ctx ?policies ?marked"
      have m0: "?pool = merge_spec (eb @ mb) (fg_AllMergeNum prof)" by (simp add: MergeRecallLanes_merge_spec)
      have "typed ?T (concat (eb @ mb))"
        using recall_lanes_typed[OF e] recall_lanes_typed[OF m] typed_mono[of _ _ ?T] by auto
      then have "typed ?T ?marked" unfolding m0 by (intro portraits_typed typed_subseq[OF merge_spec_subseq])
      then have ok: "\<forall>x\<in>set ?kept. funnel_item_ok ?ctx ?policies ?T x"
        by (auto simp: policies_filter funnel_item_ok_def typed_def list_all_iff)
      have "distinct (map it_ID ?marked)"
        unfolding m0 by (rule subseq_distinct[OF portraits_ids merge_spec_distinct])
      then have d: "distinct (map it_ID ?kept)" by (rule policy_stage.run_distinct)
      have h: "handleFunnel env l reg req rctx =
          (if ?kept = [] then Inr (\<lparr>rr_UserID = rq_UserID req, rr_ItemIDs = [], rr_Recall = []\<rparr>, [])
           else rankAndShowFunnel l req ?ctx ?kept ?show (effectiveRetCount req (fg_FinalRetCount prof)))"
        by (simp add: handleFunnel_def assms(4) rules runRules_center e m loadExposure_center Let_def)
      obtain resp items ret' where r: "rankAndShowFunnel l req ?ctx ?kept ?show (effectiveRetCount req (fg_FinalRetCount prof)) = Inr (resp, items)"
          "distinct (map it_ID items)" "list_all (funnel_item_ok ?ctx ?policies ?T) items"
          "0 < sw_MaxItems ?show \<longrightarrow> int (length items) \<le> sw_MaxItems ?show"
          "response_of req ret' \<lparr>re_Resp = resp, re_Items = items\<rparr>"
          "0 < effectiveRetCount req (fg_FinalRetCount prof) \<longrightarrow> ret' = effectiveRetCount req (fg_FinalRetCount prof)"
        using local_service.funnel_rank_ok[where rt = rt and svc = svc and slog = slog, OF _ assms(3) d ok] assms(1,2) by blast
      show ?thesis
      proof (cases "?kept = []")
        case True
        then show ?thesis unfolding h by (auto simp: rules response_of_def cap_list_def Let_def)
      next
        case False
        then show ?thesis using r unfolding h by (auto simp: rules funnel_item_ok_def[abs_def] Let_def)
      qed
    qed
  qed
qed

text \<open>C38: funnel mode over the rank service. With a profile, a request fails only because a recall lane failed;
  otherwise the items have distinct ids, come from lanes of the profile, are below every back-off threshold
  and at most as many as show control allows, and the response is these items with their recall types, cut to
  the return count of the request or the profile.\<close>

theorem handleFunnel_serves:
  assumes "rank_runtime rt" "svc_ok svc" "pl_Rank (rm_Pipeline l) = Some (local_rank rt svc slog)"
    and "ResolveFunnel (rm_Funnel l) (rc_ExpIDs rctx) (rc_UserGroup rctx) = Some prof"
  shows "let (exclusive, main) = funnel_ResolvedRecallLists (Some prof) (rc_ExpIDs rctx);
             ctx = loadExposure env (rm_Features l) rctx;
             policies = funnel_ResolvedFilterPolicies (Some prof) (rc_ExpIDs ctx);
             max_items = sw_MaxItems (funnel_ResolvedShowControl (Some prof) (rc_ExpIDs ctx)) in
    case handleFunnel env l reg req rctx of
      Inl e \<Rightarrow> \<exists>rule\<in>set (exclusive @ main). recall_lane env (rm_Features l) reg rctx rule = Inl e
    | Inr (resp, items) \<Rightarrow>
        distinct (map it_ID items)
        \<and> list_all (\<lambda>it. it_RecallType it \<in> rr_RecallType ` set (exclusive @ main) \<and> \<not> backed_off ctx policies it) items
        \<and> (0 < max_items \<longrightarrow> int (length items) \<le> max_items)
        \<and> (let ret = effectiveRetCount req (fg_FinalRetCount prof) in
           \<exists>ret'. response_of req ret' \<lparr>re_Resp = resp, re_Items = items\<rparr> \<and> (0 < ret \<longrightarrow> ret' = ret))"
  by (rule handleFunnel_ok[OF assms])

section \<open>A funnel on the demo fetcher (\<open>test_fetcher.go\<close>)\<close>

text \<open>It embeds the no-op fetcher and overrides two methods; as another type it is not equal to \<open>NoOp\<close>.\<close>

definition demoTestFetcher :: Fetcher where
  "demoTestFetcher =
     NoOp\<lparr>fe_ItemsJSON := Some (\<lambda>ids. Inr (\<lambda>i. if i \<in> set ids \<and> i \<noteq> 910009 then Some ''{}'' else None)),
          fe_Strategy := Some \<lparr>st_FilterExposureJSON = Inr (CHR 0x7B # CHR 0x22 # ''910005'' @ CHR 0x22 # '':15}'', False),
             st_FilterFeatureLessJSON = Inr ([], True), st_FilterLabelJSON = Inr ([], True)\<rparr>,
          fe_NoOp := False\<rparr>"

definition demo_funnel_group :: FunnelUserGroup where
  "demo_funnel_group =
     \<lparr>fg_UserGroup = ''def_group'', fg_AllMergeNum = 10,
      fg_FilterPolicies = [\<lparr>fp_Type = ''exposure_backoff'', fp_BackoffAfter = 10\<rparr>],
      fg_ExclusiveRecallList = [], fg_RecallAndMergeList = [demo_rule], fg_FinalRetCount = 0, fg_ShowControl = \<lparr>sw_MaxItems = 1\<rparr>,
      fg_FilterAb = [], fg_RecallAb = [], fg_ShowAb = []\<rparr>"

definition demo_funnel :: Recommend where
  "demo_funnel = NewRecommendFunnel (Some (local_rank rank_env0 mock_service [])) (Some demoTestFetcher)
     (Some \<lparr>fl_MapRecommend = [\<lparr>fv_ExpID = 0, fv_UserGroupList = [demo_funnel_group]\<rparr>]\<rparr>) (Some (NewRegistry None))"

lemma demo_funnel_lane: "\<not> isl (recall_lane go_env0 (Some demoTestFetcher) (NewRegistry None) zero_ctx demo_rule)"
  by (simp add: recall_lane_def lane_batch_def Lane_def demo_rule_def NewRegistry_def or_else_def laneStub_def
      MarkItemPortraits_def demoTestFetcher_def load_items_def Let_def split: option.split)

lemma handleFunnel_serves_witness:
  "case handleFunnel go_env0 demo_funnel (NewRegistry None) demo_request zero_ctx of
     Inl e \<Rightarrow> False
   | Inr (resp, items) \<Rightarrow> distinct (map it_ID items) \<and> length items \<le> 1"
proof -
  have rank: "pl_Rank (rm_Pipeline demo_funnel) = Some (local_rank rank_env0 mock_service [])"
    by (simp add: demo_funnel_def NewRecommendFunnel_def rank_only_def)
  have prof: "ResolveFunnel (rm_Funnel demo_funnel) (rc_ExpIDs zero_ctx) (rc_UserGroup zero_ctx) = Some demo_funnel_group"
    by (simp add: demo_funnel_def NewRecommendFunnel_def ResolveFunnel_def funnel_variant_def
        zero_ctx_def)
  have lists: "funnel_ResolvedRecallLists (Some demo_funnel_group) es = ([], [demo_rule])"
    "funnel_ResolvedShowControl (Some demo_funnel_group) es = \<lparr>sw_MaxItems = 1\<rparr>" for es
    by (simp_all add: funnel_ResolvedRecallLists_def funnel_ResolvedShowControl_def demo_funnel_group_def)
  have feat: "rm_Features demo_funnel = Some demoTestFetcher" by (simp add: demo_funnel_def NewRecommendFunnel_def)
  show ?thesis
    using handleFunnel_serves[OF rank0.rank_runtime_axioms mock_service_ok rank prof, of go_env0 "NewRegistry None" demo_request]
      demo_funnel_lane
    by (auto simp: lists feat Let_def split: sum.splits)
qed

text \<open>Without a rank client the center and the funnel panic as soon as there is something to rank, while the
  generic pipeline (and so the stub mode) shows its items unranked.\<close>

lemma nil_rank_panics:
  "pl_Rank (rm_Pipeline l) = None \<Longrightarrow> rankAndShowFunnel l req rctx merged cfg ret = Inl NilPanic"
  "ce_Rank p = None \<Longrightarrow> main \<noteq> [] \<Longrightarrow> rankAndShow env p cb req rctx main pool ret = Inl NilPanic"
  "stubRankResponse (NewRecommend None feat) req rctx = Inr (buildRecommendResponse req stub_items (rq_RetCount req), stub_items)"
  by (simp_all add: rankAndShowFunnel_def rankAndShow_def rank_main_def stubRankResponse_def NewRecommend_def rank_only_def
      Pipeline_Run_def rank_step_def Let_def)

end
