(* ===== verification/Recommend_Service.thy ===== *)
theory Recommend_Service
  imports Recommend Config_Load
begin

text \<open>
  The recommend service around the request logic: its configuration with the environment overrides
  (\<open>internal/config/config.go\<close>, \<open>env.go\<close>), the service context (\<open>internal/svc/servicecontext.go\<close>) and the
  HTTP routes (\<open>internal/handler/routes.go\<close>). Timeouts and the server itself are outside the model.
\<close>

section \<open>Configuration\<close>

record RankServiceConfig =
  rs_BaseURL :: string
  rs_Endpoints :: "string list"
  rs_LoadBalance :: string
  rs_TimeoutMs :: int

record Config =
  co_RankService :: RankServiceConfig
  co_FunnelConfigPath :: string
  co_CenterRecallPath :: string
  co_CenterFilterPath :: string
  co_CenterShowControlPath :: string
  co_FeatureRedis :: RedisConfig
  co_KafkaPush :: KafkaConfig

definition RankEndpoints :: "Config \<Rightarrow> EndpointsConfig" where
  "RankEndpoints c =
     \<lparr>ep_BaseURL = rs_BaseURL (co_RankService c), ep_Endpoints = rs_Endpoints (co_RankService c),
      ep_LoadBalance = rs_LoadBalance (co_RankService c)\<rparr>"

definition splitComma :: "string \<Rightarrow> string list" where
  "splitComma s = filter (\<lambda>p. p \<noteq> []) (map TrimSpace (split_on CHR '','' s))"

text \<open>\<open>if v := strings.TrimSpace(os.Getenv(name)); v != "" { ... }\<close>\<close>

definition env_override :: "(string \<Rightarrow> string) \<Rightarrow> string \<Rightarrow> (string \<Rightarrow> 'c \<Rightarrow> 'c) \<Rightarrow> 'c \<Rightarrow> 'c" where
  "env_override getenv name upd c = (let v = TrimSpace (getenv name) in if v \<noteq> [] then upd v c else c)"

definition override_port :: "string \<Rightarrow> RedisConfig \<Rightarrow> RedisConfig" where
  "override_port v r = (case ParseInt v of Some port \<Rightarrow> if 0 < port then r\<lparr>rc_Port := port\<rparr> else r | None \<Rightarrow> r)"

definition override_redis :: "(string \<Rightarrow> string) \<Rightarrow> RedisConfig \<Rightarrow> RedisConfig" where
  "override_redis getenv r0 =
     (let r1 = env_override getenv ''RECSYS_REDIS_HOST'' (\<lambda>v r. r\<lparr>rc_Host := v\<rparr>) r0;
          r2 = env_override getenv ''RECSYS_REDIS_PORT'' override_port r1;
          r3 = env_override getenv ''RECSYS_REDIS_PASSWORD_HEX'' (\<lambda>v r. r\<lparr>rc_PasswordHex := v\<rparr>) r2
      in if getenv ''RECSYS_REDIS_DISABLED'' = ''1'' then r3\<lparr>rc_Disabled := True\<rparr> else r3)"

definition override_kafka :: "(string \<Rightarrow> string) \<Rightarrow> KafkaConfig \<Rightarrow> KafkaConfig" where
  "override_kafka getenv k0 =
     (let k1 = (if getenv ''RECSYS_KAFKA_PUSH'' = ''1'' then k0\<lparr>kc_Enabled := True\<rparr> else k0);
          k2 = env_override getenv ''RECSYS_KAFKA_BROKERS'' (\<lambda>v k. k\<lparr>kc_Brokers := splitComma v\<rparr>) k1
      in env_override getenv ''RECSYS_KAFKA_TOPIC'' (\<lambda>v k. k\<lparr>kc_Topic := v\<rparr>) k2)"

definition ApplyEnvOverrides :: "(string \<Rightarrow> string) \<Rightarrow> Config \<Rightarrow> Config" where
  "ApplyEnvOverrides getenv c =
     c\<lparr>co_FeatureRedis := override_redis getenv (co_FeatureRedis c),
       co_KafkaPush := override_kafka getenv (co_KafkaPush c),
       co_RankService := env_override getenv ''RECSYS_RANK_ENDPOINTS'' (\<lambda>v r. r\<lparr>rs_Endpoints := splitComma v\<rparr>)
         (co_RankService c)\<rparr>"

section \<open>The service context\<close>

record ServiceContext =
  sc_Config :: Config
  sc_Rank :: "RankHTTPClient option"
  sc_Features :: Fetcher
  sc_Funnel :: "FunnelLibrary option"
  sc_Center :: "CenterBundle option"
  sc_Recall :: "Registry option"
  sc_AlgoKafka :: Pool

definition load_rank_client :: "Config \<Rightarrow> go_error + RankHTTPClient option" where
  "load_rank_client c =
     (if Resolve (RankEndpoints c) \<noteq> []
      then and_then (NewRankHTTPClient (RankEndpoints c)) (\<lambda>rc. Inr (Some rc)) else Inr None)"

text \<open>A path of the configuration, relative to the directory of the configuration file.\<close>

definition config_path :: "rank_host \<Rightarrow> string \<Rightarrow> string \<Rightarrow> string" where
  "config_path ho cfgPath p = (if \<not> ho_is_abs ho p then ho_beside ho cfgPath p else p)"

definition load_optional :: "('a \<Rightarrow> go_error + 'b) \<Rightarrow> bool \<Rightarrow> 'a \<Rightarrow> go_error + 'b option" where
  "load_optional load present p = (if present then and_then (load p) (\<lambda>v. Inr (Some v)) else Inr None)"

definition load_center :: "rank_host \<Rightarrow> Config \<Rightarrow> string \<Rightarrow> go_error + CenterBundle option" where
  "load_center ho c cfgPath =
     (let at_path = config_path ho cfgPath in
      if co_CenterRecallPath c = [] then Inr None
      else
        and_then (LoadRecallLibrary (ho_read_file ho) (at_path (co_CenterRecallPath c)))
          (\<lambda>rl. and_then (load_optional (LoadFilterLibrary (ho_read_file ho)) (co_CenterFilterPath c \<noteq> [])
                    (at_path (co_CenterFilterPath c)))
            (\<lambda>fl. and_then (load_optional (LoadShowLibrary (ho_read_file ho)) (co_CenterShowControlPath c \<noteq> [])
                      (at_path (co_CenterShowControlPath c)))
              (\<lambda>sl. Inr (Some \<lparr>cb_Recall = Some rl, cb_Filter = fl, cb_Show = sl\<rparr>)))))"

definition load_funnel :: "rank_host \<Rightarrow> Config \<Rightarrow> string \<Rightarrow> CenterBundle option \<Rightarrow> go_error + FunnelLibrary option" where
  "load_funnel ho c cfgPath center =
     (let p = co_FunnelConfigPath c;
          p' = (if \<not> ho_is_abs ho p \<and> cfgPath \<noteq> [] then ho_beside ho cfgPath p else p)
      in load_optional (LoadFunnelLibrary (ho_read_file ho)) (center = None \<and> p \<noteq> []) p')"

definition NewServiceContext :: "rank_host \<Rightarrow> Config \<Rightarrow> string \<Rightarrow> go_error + ServiceContext" where
  "NewServiceContext ho c cfgPath =
     and_then (load_rank_client c)
       (\<lambda>rank. and_then (NewFetcher (ho_getenv ho) (ho_decrypt ho) (ho_dial ho) (co_FeatureRedis c))
         (\<lambda>fetch. and_then (load_center ho c cfgPath)
           (\<lambda>center. and_then (load_funnel ho c cfgPath center)
             (\<lambda>funnel.
                Inr \<lparr>sc_Config = c, sc_Rank = rank, sc_Features = fetch, sc_Funnel = funnel, sc_Center = center,
                     sc_Recall = (if funnel \<noteq> None \<or> center \<noteq> None then Some (NewRegistry (fe_Recall fetch)) else None),
                     sc_AlgoKafka = New (co_KafkaPush c)\<rparr>))))"

section \<open>Routes\<close>

definition zero_recommend_request :: RecommendRequestJSON where
  "zero_recommend_request = \<lparr>rq_UUID = [], rq_UserID = 0, rq_Section = 0, rq_ExpIDs = [], rq_RetCount = 0,
     rq_DisablePersonal = 0, rq_DeviceID = [], rq_TerminalModel = [], rq_OS = [], rq_UserGroup = []\<rparr>"

text \<open>The rank client of a context, with the network of the moment of the call.\<close>

definition context_rank ::
  "(nat \<Rightarrow> nat) \<Rightarrow> (nat \<Rightarrow> string \<Rightarrow> bytes \<Rightarrow> http_outcome) \<Rightarrow> string list \<Rightarrow> ServiceContext \<Rightarrow> RankClient option" where
  "context_rank rng net sent s = map_option (\<lambda>c. as_RankClient rng net (Some c) sent) (sc_Rank s)"

definition route_logic :: "RankClient option \<Rightarrow> ServiceContext \<Rightarrow> Recommend" where
  "route_logic rank s =
     (let feat = Some (sc_Features s);
          l = (if sc_Center s \<noteq> None \<and> sc_Recall s \<noteq> None then NewRecommendCenter rank feat (sc_Center s) (sc_Recall s)
               else if sc_Funnel s \<noteq> None \<and> sc_Recall s \<noteq> None then NewRecommendFunnel rank feat (sc_Funnel s) (sc_Recall s)
               else NewRecommend rank feat)
      in l\<lparr>rm_AlgoKafka := Some (sc_AlgoKafka s)\<rparr>)"

text \<open>Run-time panics, as opposed to errors the logic returns.\<close>

definition is_panic :: "go_error \<Rightarrow> bool" where
  "is_panic e = (e = NilPanic \<or> e = IndexPanic \<or> e = ClosedChannelPanic)"

text \<open>
  \<open>refuse\<close> is the text of a decoding error, \<open>describe\<close> of an error of the logic, and \<open>recovered\<close> what
  the server makes of a panic.
\<close>

definition recommend_handler ::
  "go_env \<Rightarrow> log_host \<Rightarrow> (bytes \<Rightarrow> bytes) \<Rightarrow> (go_error \<Rightarrow> bytes) \<Rightarrow> (go_error \<Rightarrow> http_outcome) \<Rightarrow> RankClient option \<Rightarrow>
   ServiceContext \<Rightarrow> bytes \<Rightarrow> http_outcome \<times> ServiceContext" where
  "recommend_handler env lh refuse describe recovered rank s body =
     (case decode_first dec_RecommendRequestJSON zero_recommend_request body of
        None \<Rightarrow> (Reply 400 (refuse body), s)
      | Some req \<Rightarrow>
          (case Recommend_Handle env lh (route_logic rank s) req of
             Inl e \<Rightarrow> (if is_panic e then recovered e else Reply 500 (describe e), s)
           | Inr (resp, l) \<Rightarrow>
               (Reply 200 (json_print (enc_RecommendResponseJSON resp) @ [CHR 0x0A]),
                s\<lparr>sc_AlgoKafka := (case rm_AlgoKafka l of None \<Rightarrow> sc_AlgoKafka s | Some p \<Rightarrow> p)\<rparr>)))"

definition health_handler :: http_outcome where
  "health_handler = Reply 200 ''ok''"

definition show_bool :: "bool \<Rightarrow> string" where
  "show_bool b = (if b then ''true'' else ''false'')"

text \<open>The verb \<open>%q\<close> of \<open>fmt\<close> is a parameter.\<close>

definition ready_handler :: "(string \<Rightarrow> string) \<Rightarrow> ServiceContext \<Rightarrow> http_outcome" where
  "ready_handler quote s =
     (let q = (\<lambda>k. CHR 0x22 # k @ [CHR 0x22, CHR '':'']) in
      Reply 200
        ([CHR 0x7B] @ q ''rank_client'' @ show_bool (sc_Rank s \<noteq> None) @
         [CHR '',''] @ q ''rank_base_url'' @ quote (rs_BaseURL (co_RankService (sc_Config s))) @
         [CHR '',''] @ q ''funnel'' @ show_bool (sc_Funnel s \<noteq> None) @
         [CHR '',''] @ q ''center'' @ show_bool (sc_Center s \<noteq> None) @ [CHR 0x7D]))"

section \<open>What a context offers\<close>

text \<open>
  A context built from a configuration: a usable rank client exactly when endpoints are configured,
  never a center and a funnel together, a registry whenever there is one of them, and an open log pool.
\<close>

definition rank_client_ok :: "EndpointsConfig \<Rightarrow> RankHTTPClient option \<Rightarrow> bool" where
  "rank_client_ok eps rank =
     (case rank of
        None \<Rightarrow> Resolve eps = []
      | Some rc \<Rightarrow> (case rh_doer rc of None \<Rightarrow> False | Some d \<Rightarrow> doer_ok eps d))"

definition context_ok :: "ServiceContext \<Rightarrow> bool" where
  "context_ok s =
     (rank_client_ok (RankEndpoints (sc_Config s)) (sc_Rank s) \<and>
      (sc_Center s = None \<or> sc_Funnel s = None) \<and>
      (sc_Recall s = None) = (sc_Center s = None \<and> sc_Funnel s = None) \<and>
      (case sc_Center s of None \<Rightarrow> True | Some cb \<Rightarrow> cb_Recall cb \<noteq> None) \<and>
      pool_ok (co_KafkaPush (sc_Config s)) (sc_AlgoKafka s) \<and> po_close (sc_AlgoKafka s) = Open)"

lemma load_rank_client_ok:
  "load_rank_client c = Inr rank \<Longrightarrow> rank_client_ok (RankEndpoints c) rank"
  by (auto simp: rank_client_ok_def load_rank_client_def NewRankHTTPClient_def and_then_Inr NewHTTPDoer_ok split: if_splits)

lemma load_center_recall: "load_center ho c path = Inr (Some cb) \<Longrightarrow> cb_Recall cb \<noteq> None"
  by (auto simp: load_center_def and_then_Inr Let_def split: if_splits)

lemma load_funnel_center: "load_funnel ho c path center = Inr funnel \<Longrightarrow> center = None \<or> funnel = None"
  by (auto simp: load_funnel_def load_optional_def and_then_Inr Let_def split: if_splits)

lemma NewServiceContext_ok: "NewServiceContext ho c path = Inr s \<Longrightarrow> context_ok s"
proof -
  assume "NewServiceContext ho c path = Inr s"
  then obtain rank fetch center funnel where
    r: "load_rank_client c = Inr rank" and ce: "load_center ho c path = Inr center"
    and fu: "load_funnel ho c path center = Inr funnel"
    and s: "s = \<lparr>sc_Config = c, sc_Rank = rank, sc_Features = fetch, sc_Funnel = funnel, sc_Center = center,
                 sc_Recall = (if funnel \<noteq> None \<or> center \<noteq> None then Some (NewRegistry (fe_Recall fetch)) else None),
                 sc_AlgoKafka = New (co_KafkaPush c)\<rparr>"
    by (auto simp: NewServiceContext_def and_then_Inr)
  have "po_close (New (co_KafkaPush c)) = Open" by (simp add: New_def Let_def)
  then show ?thesis
    using load_rank_client_ok[OF r] load_funnel_center[OF fu] load_center_recall[of ho c path] ce New_ok[of "co_KafkaPush c"]
    unfolding context_ok_def s by (auto split: option.splits)
qed

section \<open>What the recommend route answers\<close>

lemma Serialize_nonempty: "Serialize r \<noteq> []"
  by (simp add: Serialize_def parts_def)

lemma Push_open:
  assumes "pool_ok cfg p" "po_close p = Open" "msg \<noteq> []"
  shows "\<exists>p'. Push msg p = Inr p' \<and> pool_ok cfg p' \<and> po_close p' = Open \<and>
    queued p' = queued p @ (if EnabledOn cfg \<and> int (length (queued p)) < queueSize cfg then [msg] else [])"
proof (cases "po_ch p")
  case None
  then have "Push msg p = Inr p" "\<not> EnabledOn cfg" using assms(1) by (simp_all add: Push_def pool_ok_def)
  then show ?thesis using assms by auto
next
  case (Some ch)
  have cap: "int (length (ch_buf ch)) < queueSize cfg \<longleftrightarrow> length (ch_buf ch) < ch_cap ch"
    using assms(1) Some by (auto simp: pool_ok_def)
  have push: "\<exists>p'. Push msg p = Inr p' \<and> po_close p' = Open \<and>
      queued p' = queued p @ (if int (length (queued p)) < queueSize cfg then [msg] else [])"
    using assms Some by (auto simp: Push_def pool_ok_def Enabled_def queued_def cap)
  then show ?thesis
    using step_ok[OF assms(1) pool_step.push] assms(1) Some by (fastforce simp: pool_ok_def)
qed

lemma json_wf_recommend: "json_wf (enc_RecommendResponseJSON r)"
  by (simp add: enc_RecommendResponseJSON_def enc_ItemRecallJSON_def omit_if_def)

definition log_line :: "log_host \<Rightarrow> ServiceContext \<Rightarrow> RecommendRequestJSON \<Rightarrow> ItemInfo list \<Rightarrow> string" where
  "log_line lh s req items =
     Serialize (BuildRecord (lh_host lh) (lh_now lh) (lh_score lh) (log_input (sc_AlgoKafka s) req (request_context req) items))"

lemma route_logic_pool: "rm_AlgoKafka (route_logic rank s) = Some (sc_AlgoKafka s)"
  by (simp add: route_logic_def Let_def)

lemma pushAlgoLog_route:
  assumes "context_ok s"
  shows "\<exists>p'. pushAlgoLog lh (route_logic rank s) req (request_context req) items =
      Inr ((route_logic rank s)\<lparr>rm_AlgoKafka := Some p'\<rparr>) \<and>
    pool_ok (co_KafkaPush (sc_Config s)) p' \<and> po_close p' = Open \<and>
    queued p' = queued (sc_AlgoKafka s) @
      (if EnabledOn (co_KafkaPush (sc_Config s)) \<and> int (length (queued (sc_AlgoKafka s))) < queueSize (co_KafkaPush (sc_Config s))
       then [log_line lh s req items] else [])"
proof -
  have ok: "pool_ok (co_KafkaPush (sc_Config s)) (sc_AlgoKafka s)" "po_close (sc_AlgoKafka s) = Open"
    using assms by (simp_all add: context_ok_def)
  have same: "(route_logic rank s)\<lparr>rm_AlgoKafka := Some (sc_AlgoKafka s)\<rparr> = route_logic rank s"
    by (simp add: route_logic_def Let_def)
  show ?thesis
  proof (cases "EnabledOn (co_KafkaPush (sc_Config s))")
    case True
    then have "Enabled (Some (sc_AlgoKafka s))" using ok(1) by (simp add: Enabled_def pool_ok_def)
    moreover obtain p' where "Push (log_line lh s req items) (sc_AlgoKafka s) = Inr p'" "pool_ok (co_KafkaPush (sc_Config s)) p'"
        "po_close p' = Open" "queued p' = queued (sc_AlgoKafka s) @
          (if EnabledOn (co_KafkaPush (sc_Config s)) \<and> int (length (queued (sc_AlgoKafka s))) < queueSize (co_KafkaPush (sc_Config s))
           then [log_line lh s req items] else [])"
      using Push_open[OF ok, of "log_line lh s req items"] Serialize_nonempty by (auto simp: log_line_def)
    ultimately show ?thesis
      by (intro exI[of _ p']) (simp add: pushAlgoLog_def route_logic_pool log_line_def Let_def)
  next
    case False
    then have "\<not> Enabled (Some (sc_AlgoKafka s))" using ok(1) by (simp add: Enabled_def pool_ok_def)
    then show ?thesis
      using False ok same by (intro exI[of _ "sc_AlgoKafka s"]) (simp add: pushAlgoLog_def route_logic_pool)
  qed
qed

lemma route_answers:
  assumes "context_ok s"
  shows "case decode_first dec_RecommendRequestJSON zero_recommend_request body of
      None \<Rightarrow> recommend_handler env lh refuse describe recovered rank s body = (Reply 400 (refuse body), s)
    | Some req \<Rightarrow>
        (case answer_request env (route_logic rank s) req (request_context req) of
           Inl e \<Rightarrow> recommend_handler env lh refuse describe recovered rank s body =
             (if is_panic e then recovered e else Reply 500 (describe e), s)
         | Inr (resp, items) \<Rightarrow>
             (case recommend_handler env lh refuse describe recovered rank s body of
                (NoReply _, _) \<Rightarrow> False
              | (Reply code b, s') \<Rightarrow>
                  code = 200 \<and> json_parse b = Some (json_repair (enc_RecommendResponseJSON resp)) \<and> context_ok s'
                  \<and> (let cfg = co_KafkaPush (sc_Config s); before = queued (sc_AlgoKafka s) in
                     queued (sc_AlgoKafka s') =
                       before @ (if EnabledOn cfg \<and> int (length before) < queueSize cfg then [log_line lh s req items] else []))))"
proof (cases "decode_first dec_RecommendRequestJSON zero_recommend_request body")
  case (Some req)
  show ?thesis
  proof (cases "answer_request env (route_logic rank s) req (request_context req)")
    case (Inl e)
    then show ?thesis using Some by (simp add: recommend_handler_def Recommend_Handle_def Let_def)
  next
    case (Inr ri)
    obtain resp items where ri: "ri = (resp, items)" by (cases ri)
    obtain p' where p: "pushAlgoLog lh (route_logic rank s) req (request_context req) items =
        Inr ((route_logic rank s)\<lparr>rm_AlgoKafka := Some p'\<rparr>)"
      "pool_ok (co_KafkaPush (sc_Config s)) p'" "po_close p' = Open"
      "queued p' = queued (sc_AlgoKafka s) @
        (if EnabledOn (co_KafkaPush (sc_Config s)) \<and> int (length (queued (sc_AlgoKafka s))) < queueSize (co_KafkaPush (sc_Config s))
         then [log_line lh s req items] else [])"
      using pushAlgoLog_route[OF assms] by blast
    have "context_ok (s\<lparr>sc_AlgoKafka := p'\<rparr>)"
      using assms p(2,3) by (simp add: context_ok_def)
    then show ?thesis
      using Some Inr p(1,4) json_parse_print_newline[OF json_wf_recommend[of resp]]
      by (simp add: recommend_handler_def Recommend_Handle_def ri Let_def)
  qed
qed (simp add: recommend_handler_def)

text \<open>C40: the recommend route, for any body. What does not decode is refused with 400; an error of the logic is a
  500 (a panic is left to the server); in both cases the service is unchanged. Otherwise the reply is a 200
  whose body parses to the logic's response (texts with invalid UTF-8 in it come out repaired), and exactly one log line of what was shown is queued if logging
  is on and the queue has room. The context stays as good as the constructor made it.\<close>

theorem recommend_route_answers:
  assumes "context_ok s"
  shows "case decode_first dec_RecommendRequestJSON zero_recommend_request body of
      None \<Rightarrow> recommend_handler env lh refuse describe recovered rank s body = (Reply 400 (refuse body), s)
    | Some req \<Rightarrow>
        (case answer_request env (route_logic rank s) req (request_context req) of
           Inl e \<Rightarrow> recommend_handler env lh refuse describe recovered rank s body =
             (if is_panic e then recovered e else Reply 500 (describe e), s)
         | Inr (resp, items) \<Rightarrow>
             (case recommend_handler env lh refuse describe recovered rank s body of
                (NoReply _, _) \<Rightarrow> False
              | (Reply code b, s') \<Rightarrow>
                  code = 200 \<and> json_parse b = Some (json_repair (enc_RecommendResponseJSON resp)) \<and> context_ok s'
                  \<and> (let cfg = co_KafkaPush (sc_Config s); before = queued (sc_AlgoKafka s) in
                     queued (sc_AlgoKafka s') =
                       before @ (if EnabledOn cfg \<and> int (length before) < queueSize cfg then [log_line lh s req items] else []))))"
  by (rule route_answers[OF assms])

text \<open>A service without rank endpoints, funnel or center, asked with an empty object.\<close>

definition stub_config :: Config where
  "stub_config = \<lparr>co_RankService = \<lparr>rs_BaseURL = [], rs_Endpoints = [], rs_LoadBalance = [], rs_TimeoutMs = 0\<rparr>,
     co_FunnelConfigPath = [], co_CenterRecallPath = [], co_CenterFilterPath = [], co_CenterShowControlPath = [],
     co_FeatureRedis = \<lparr>rc_Disabled = True, rc_Host = [], rc_Port = 0, rc_DB = 0, rc_Crypto = False, rc_PasswordHex = [],
       rc_UserKeyPattern = [], rc_ItemKeyPattern = [], rc_FilterExposureKey = [], rc_FilterFeatureLessKey = [],
       rc_FilterLabelKey = [], rc_RecallLanePrefix = [], rc_RecallCFUserKey = []\<rparr>,
     co_KafkaPush = small_config\<rparr>"

definition stub_context :: ServiceContext where
  "stub_context = \<lparr>sc_Config = stub_config, sc_Rank = None, sc_Features = NoOp, sc_Funnel = None, sc_Center = None,
     sc_Recall = None, sc_AlgoKafka = New small_config\<rparr>"

definition stub_host :: log_host where
  "stub_host = \<lparr>lh_host = ''host'', lh_now = 0, lh_score = (\<lambda>_. ''0.0000000'')\<rparr>"

lemma stub_context_new: "NewServiceContext ho stub_config [] = Inr stub_context"
proof -
  have "Resolve (RankEndpoints stub_config) = []"
    by (simp add: RankEndpoints_def stub_config_def Resolve_def normalize_url_def TrimSpace_def trim_right_def Let_def)
  then show ?thesis
    by (simp add: NewServiceContext_def load_rank_client_def NewFetcher_def load_center_def load_funnel_def
        load_optional_def stub_config_def stub_context_def Let_def)
qed

lemma recommend_route_answers_witness:
  "case recommend_handler go_env0 stub_host id (\<lambda>_. []) (\<lambda>_. Reply 500 []) None stub_context [CHR 0x7B, CHR 0x7D] of
     (NoReply _, _) \<Rightarrow> False
   | (Reply code b, s') \<Rightarrow> code = 200 \<and> length (queued (sc_AlgoKafka s')) = 1"
proof -
  have ok: "context_ok stub_context" by (rule NewServiceContext_ok[OF stub_context_new])
  have dec: "decode_first dec_RecommendRequestJSON zero_recommend_request [CHR 0x7B, CHR 0x7D] = Some zero_recommend_request"
    by (simp add: decode_first_def numeral_2_eq_2 skip_ws_def is_json_ws_def expect_def dec_RecommendRequestJSON_def dec_struct_def)
  have l: "route_logic None stub_context = (NewRecommend None (Some NoOp))\<lparr>rm_AlgoKafka := Some (New small_config)\<rparr>"
    by (simp add: route_logic_def stub_context_def Let_def)
  have ans: "answer_request go_env0 (route_logic None stub_context) zero_recommend_request ctx =
      Inr (buildRecommendResponse zero_recommend_request stub_items 0, stub_items)" for ctx
    unfolding l by (simp add: answer_request_def NewRecommend_def stubRankResponse_def rank_only_def
      Pipeline_Run_def rank_step_def zero_recommend_request_def)
  have cfg: "EnabledOn (co_KafkaPush (sc_Config stub_context))" "queueSize (co_KafkaPush (sc_Config stub_context)) = 1"
    "queued (sc_AlgoKafka stub_context) = []"
    by (simp_all add: stub_context_def stub_config_def small_config_def EnabledOn_def queueSize_def New_def queued_def Let_def)
  show ?thesis
    using recommend_route_answers[OF ok, where body = "[CHR 0x7B, CHR 0x7D]" and env = go_env0 and rank = None and lh = stub_host
        and refuse = id and describe = "\<lambda>_. []" and recovered = "\<lambda>_. Reply 500 []"]
    by (auto simp: dec ans cfg Let_def split: prod.splits http_outcome.splits)
qed

end
