(* ===== verification/Two_Services.thy ===== *)
theory Two_Services
  imports Recommend_Service
begin

text \<open>
  The two services together. The recommend service calls the rank service once per request at most, on a
  request it builds from the surviving candidates. Here: those requests fit the wire format, because decoded
  requests and lane ids are in the range of their types; two rank clients that agree on such requests give the
  same reply; and so the pair of services over HTTP is the recommend service with the ranking in process.
\<close>

section \<open>Ranges\<close>

lemma id64_fits: "id64 i = fits 64 i"
proof
  assume "id64 i"
  then show "fits 64 i" using fits_wrap[of 64 i] by (simp add: id64_def)
next
  assume "fits 64 i"
  then show "id64 i" unfolding id64_def by (intro wrap_signed_id) (auto simp: fits_def)
qed

definition recommend_fits :: "RecommendRequestJSON \<Rightarrow> bool" where
  "recommend_fits q =
     (fits 64 (rq_UserID q) \<and> fits 32 (rq_Section q) \<and> list_all (fits 32) (rq_ExpIDs q) \<and>
      fits 32 (rq_RetCount q) \<and> fits 32 (rq_DisablePersonal q) \<and>
      valid_utf8 (rq_UUID q) \<and> valid_utf8 (rq_DeviceID q) \<and> valid_utf8 (rq_TerminalModel q) \<and> valid_utf8 (rq_OS q))"

definition ctx_fits :: "RequestContext \<Rightarrow> bool" where
  "ctx_fits ctx =
     (fits 64 (rc_UserID ctx) \<and> fits 32 (rc_Section ctx) \<and> list_all (fits 32) (rc_ExpIDs ctx) \<and>
      fits 32 (rc_DisablePersonal ctx) \<and>
      valid_utf8 (rc_UUID ctx) \<and> valid_utf8 (rc_DeviceID ctx) \<and> valid_utf8 (rc_TerminalModel ctx) \<and> valid_utf8 (rc_OSType ctx))"

lemma request_context_fits: "recommend_fits req \<Longrightarrow> ctx_fits (request_context req)"
  by (simp add: recommend_fits_def ctx_fits_def request_context_def)

lemma user_context_fits: "ctx_fits (user_context feat rctx) = ctx_fits rctx"
  by (simp add: ctx_fits_def user_context_def Let_def)

lemma loadExposure_fits: "ctx_fits (loadExposure env feat rctx) = ctx_fits rctx"
  by (simp add: ctx_fits_def loadExposure_def Let_def split: option.split sum.split prod.split)

lemma dec_inv_fits: "0 < w \<Longrightarrow> w \<le> 64 \<Longrightarrow> dec_inv (fits w) (dec_int w)"
proof (rule dec_invI)
  fix x j
  assume w: "0 < w" "w \<le> 64" "fits w x"
  then have "wrap_signed w x = x" by (intro wrap_signed_id) (auto simp: fits_def)
  from dec_int_range[OF this, of j] show "fits w (fst (dec_int w x j))"
    using fits_wrap[OF w(1), of "fst (dec_int w x j)"] by simp
qed

lemma dec_recommend_fits: "dec_inv recommend_fits dec_RecommendRequestJSON"
proof -
  have u: "dec_inv recommend_fits (field (dec_int 64) rq_UserID rq_UserID_update)"
    by (rule dec_inv_field_of[OF dec_inv_fits]) (auto simp: recommend_fits_def)
  have i: "dec_inv recommend_fits (field (dec_int 32) rq_Section rq_Section_update)"
    "dec_inv recommend_fits (field (dec_int 32) rq_RetCount rq_RetCount_update)"
    "dec_inv recommend_fits (field (dec_int 32) rq_DisablePersonal rq_DisablePersonal_update)"
    by (rule dec_inv_field_of[OF dec_inv_fits]; auto simp: recommend_fits_def)+
  have l: "dec_inv recommend_fits (field (dec_slice 0 (dec_int 32)) rq_ExpIDs rq_ExpIDs_update)"
    by (rule dec_inv_field_of[OF dec_inv_slice[OF dec_inv_fits]]) (auto simp: recommend_fits_def fits_def)
  have t: "dec_inv recommend_fits (field dec_string rq_UUID rq_UUID_update)"
    "dec_inv recommend_fits (field dec_string rq_DeviceID rq_DeviceID_update)"
    "dec_inv recommend_fits (field dec_string rq_TerminalModel rq_TerminalModel_update)"
    "dec_inv recommend_fits (field dec_string rq_OS rq_OS_update)"
    by (rule dec_inv_field_of[OF dec_string_valid]; auto simp: recommend_fits_def)+
  have g: "dec_inv recommend_fits (field dec_string rq_UserGroup rq_UserGroup_update)"
    by (rule dec_inv_field_of[where P = "\<lambda>_. True", OF dec_inv_True]) (auto simp: recommend_fits_def)
  show ?thesis
    unfolding dec_RecommendRequestJSON_def by (rule dec_inv_struct) (simp add: u i l t g)
qed

lemma decode_first_inv:
  assumes "dec_inv P d" "P z" "decode_first d z s = Some v"
  shows "P v"
proof -
  obtain j ok where "d z j = (v, ok)"
    using assms(3) by (auto simp: decode_first_def simp del: jvalue.simps split: option.splits prod.splits if_splits)
  then show ?thesis using dec_invD[OF assms(1,2), of j] by simp
qed

lemma decoded_request_fits:
  assumes "decode_first dec_RecommendRequestJSON zero_recommend_request body = Some req"
  shows "recommend_fits req"
  by (rule decode_first_inv[OF dec_recommend_fits _ assms]) (simp add: recommend_fits_def zero_recommend_request_def fits_def)

section \<open>Clients that agree\<close>

text \<open>The request the funnels send: one group of all candidates.\<close>

definition main_request :: "RequestContext \<Rightarrow> ItemInfo list \<Rightarrow> int32 \<Rightarrow> MultiRankRequest" where
  "main_request rctx main ret =
     \<lparr>mq_Ctx = rctx, mq_Groups = [\<lparr>gr_Name = ''Main'', gr_ItemIDs = map it_ID main, gr_RetCount = ret\<rparr>],
      mq_PreRankTrunc = 0, mq_RankTrunc = 0, mq_RankProfile = []\<rparr>"

definition candidates :: "ItemInfo list \<Rightarrow> bool" where
  "candidates main = (ids64 main \<and> distinct (map it_ID main))"

text \<open>Two clients agree on every request within range and without repeated candidates.\<close>

definition agree :: "RankClient \<Rightarrow> RankClient \<Rightarrow> bool" where
  "agree r1 r2 =
     (\<forall>rctx main ret. ctx_fits rctx \<and> candidates main \<and> fits 32 ret \<longrightarrow>
        r1 (main_request rctx main ret) = r2 (main_request rctx main ret))"

lemma agreeD:
  "agree r1 r2 \<Longrightarrow> ctx_fits rctx \<Longrightarrow> candidates main \<Longrightarrow> fits 32 ret \<Longrightarrow>
   r1 (main_request rctx main ret) = r2 (main_request rctx main ret)"
  by (simp add: agree_def)

lemma rank_main_request:
  "rank_main (Some r) rctx main ret =
   and_then (r (main_request rctx main ret)) (\<lambda>resp. Inr (funnel_order main resp))"
  unfolding rank_main_def main_request_def funnel_order_def reorderGeneric_center by simp

lemma rank_main_agree:
  "agree r1 r2 \<Longrightarrow> ctx_fits rctx \<Longrightarrow> candidates main \<Longrightarrow> fits 32 ret \<Longrightarrow>
   rank_main (Some r1) rctx main ret = rank_main (Some r2) rctx main ret"
  by (simp add: rank_main_request agreeD)

lemma candidates_subseq: "subseq xs ys \<Longrightarrow> candidates ys \<Longrightarrow> candidates xs"
  using subseq_set[of xs ys] subseq_distinct[OF subseq_map]
  by (auto simp: candidates_def ids64_def list_all_iff)

lemma candidates_merge: "ids64 (concat lanes) \<Longrightarrow> candidates (merge_spec lanes n)"
  using subseq_set[OF merge_spec_subseq] merge_spec_distinct by (fastforce simp: candidates_def ids64_def list_all_iff)

subsection \<open>The center pipeline\<close>

lemma filter_pools_main:
  assumes "filter_pools lib rctx main0 exclusive0 = (main, exclusive)"
  shows "subseq main main0"
proof -
  have "subseq (CapKeepItemNum n (filter_ApplyFeatureFilters feats (filter_ApplyRuleFilters rctx rules main0))) main0" for n feats rules
    using keep_cap.run_subseq feature_stage.run_subseq subseq_order.order_trans[OF feature_stage.run_subseq]
    by (metis rules_filter subseq_filter_left subseq_order.order_trans)
  then show ?thesis using assms by (auto simp: filter_pools_def Let_def split: option.splits prod.splits if_splits)
qed

lemma run_profile_agree:
  assumes "go_runtime env" "agree r1 r2" "ctx_fits rctx" "recommend_fits req"
  shows "run_profile env (p\<lparr>ce_Rank := Some r1\<rparr>) cb reg req rctx prof = run_profile env (p\<lparr>ce_Rank := Some r2\<rparr>) cb reg req rctx prof"
proof -
  obtain erules mrules where rules: "center_ResolvedRecallLists (Some prof) (rc_ExpIDs rctx) = (erules, mrules)"
    by (cases "center_ResolvedRecallLists (Some prof) (rc_ExpIDs rctx)")
  let ?ctx = "loadExposure env (ce_Features p) rctx"
  show ?thesis
  proof (cases "runRecallLanes env (ce_Features p) reg rctx mrules")
    case (Inr batches)
    let ?main0 = "MainOnly batches (ru_AllMergeNum prof)" and ?pool = "runExclusiveLanes env (ce_Features p) reg rctx erules"
    obtain main pool where f: "filter_pools (cb_Filter cb) ?ctx ?main0 ?pool = (main, pool)"
      by (cases "filter_pools (cb_Filter cb) ?ctx ?main0 ?pool")
    have "candidates ?main0"
      using candidates_merge[OF recall_lanes_ids64[OF assms(1) Inr]] by (simp add: MainOnly_def MergeRecallLanes_merge_spec)
    from candidates_subseq[OF filter_pools_main[OF f] this] have c: "candidates main" .
    have ret: "fits 32 (center_ret req prof)" "fits 32 (wrap32 i)" for i
      using assms(4) fits_wrap[of 32] by (simp_all add: center_ret_def recommend_fits_def)
    have "rankAndShow env (p\<lparr>ce_Rank := Some r1\<rparr>) cb req ?ctx main pool (center_ret req prof) =
        rankAndShow env (p\<lparr>ce_Rank := Some r2\<rparr>) cb req ?ctx main pool (center_ret req prof)"
      using rank_main_agree[OF assms(2) _ c] assms(3) ret by (simp add: rankAndShow_def loadExposure_fits Let_def)
    then show ?thesis by (simp add: run_profile_def rules Inr f Let_def)
  qed (simp add: run_profile_def rules Let_def)
qed

lemma Center_Run_agree:
  assumes "go_runtime env" "agree r1 r2" "ctx_fits rctx" "recommend_fits req"
  shows "Center_Run env (p\<lparr>ce_Rank := Some r1\<rparr>) req rctx = Center_Run env (p\<lparr>ce_Rank := Some r2\<rparr>) req rctx"
proof -
  have same: "center_profile (p\<lparr>ce_Rank := r\<rparr>) rctx = center_profile p rctx" for r
    by (auto simp: center_profile_def split: option.split)
  have "ctx_fits ctx" if "center_profile p rctx = Inr (Some (cb, reg, ctx, prof))" for cb reg ctx prof
    using that assms(3) user_context_fits by (auto simp: center_profile_def Let_def split: option.splits if_splits)
  then show ?thesis
    using run_profile_agree[OF assms(1,2) _ assms(4)]
    by (cases "center_profile p rctx") (auto simp: Center_Run_def same split: option.split)
qed

subsection \<open>The funnel and the stub\<close>

lemma portraits_all:
  "list_all P xs \<Longrightarrow> (\<And>it b. P it \<Longrightarrow> P (it\<lparr>it_HasPortrait := b\<rparr>)) \<Longrightarrow> list_all P (fst (markAndDropNoPortrait feat xs))"
  using portraits_keep[of feat xs] by (auto simp: set_portraits_def list_all_iff)

lemma candidates_portraits: "candidates xs \<Longrightarrow> candidates (fst (markAndDropNoPortrait feat xs))"
  using portraits_all[of "\<lambda>it. id64 (it_ID it)" xs feat] subseq_distinct[OF portraits_ids, of xs feat]
  by (auto simp: candidates_def ids64_def)

lemma rankFunnel_agree:
  assumes "agree r1 r2" "ctx_fits rctx" "candidates merged" "fits 32 ret"
    and "rm_Pipeline l1 = rank_only (Some r1)" "rm_Pipeline l2 = rank_only (Some r2)"
  shows "rankAndShowFunnel l1 req rctx merged show ret = rankAndShowFunnel l2 req rctx merged show ret"
  using rank_main_agree[OF assms(1-3)] assms(4-6) fits_wrap[of 32]
  by (simp add: rankFunnel_center rank_only_def)

lemma stub_agree:
  assumes "agree r1 r2" "ctx_fits rctx"
    and "rm_Pipeline l1 = rank_only (Some r1)" "rm_Pipeline l2 = rank_only (Some r2)"
  shows "stubRankResponse l1 req rctx = stubRankResponse l2 req rctx"
proof -
  have c: "candidates stub_items"
    by (simp add: candidates_def ids64_def stub_items_def mk_item_def)
  have "rank_step (Some r) rctx stub_items = and_then (r (main_request rctx stub_items 3)) (\<lambda>resp. Inr (apply_reply stub_items resp))" for r
  proof -
    have "wrap32 3 = 3" by (simp add: wrap_signed_def)
    then show ?thesis by (simp add: rank_step_def main_request_def ids_def stub_items_def)
  qed
  then have "rank_step (Some r1) rctx stub_items = rank_step (Some r2) rctx stub_items"
    using agreeD[OF assms(1,2) c, of 3] by (simp add: fits_def)
  then show ?thesis using assms(3,4) by (simp add: stubRankResponse_def Pipeline_Run_def rank_only_def)
qed

lemma handleFunnel_agree:
  assumes "go_runtime env" "agree r1 r2" "ctx_fits rctx" "recommend_fits req"
    and "rm_Pipeline l1 = rank_only (Some r1)" "rm_Pipeline l2 = rank_only (Some r2)"
    and "rm_Features l1 = rm_Features l2" "rm_Funnel l1 = rm_Funnel l2"
  shows "handleFunnel env l1 reg req rctx = handleFunnel env l2 reg req rctx"
proof (cases "ResolveFunnel (rm_Funnel l2) (rc_ExpIDs rctx) (rc_UserGroup rctx)")
  case None
  then show ?thesis using stub_agree[OF assms(2,3,5,6)] by (simp add: handleFunnel_def assms(8))
next
  case (Some prof)
  obtain erules mrules where rules: "funnel_ResolvedRecallLists (Some prof) (rc_ExpIDs rctx) = (erules, mrules)"
    by (cases "funnel_ResolvedRecallLists (Some prof) (rc_ExpIDs rctx)")
  let ?f = "rm_Features l2"
  show ?thesis
  proof (cases "\<exists>eb mb. runRecallLanes env ?f reg rctx erules = Inr eb \<and> runRecallLanes env ?f reg rctx mrules = Inr mb")
    case True
    then obtain eb mb where e: "runRecallLanes env ?f reg rctx erules = Inr eb" and m: "runRecallLanes env ?f reg rctx mrules = Inr mb"
      by blast
    let ?ctx = "loadExposure env ?f rctx"
    let ?policies = "funnel_ResolvedFilterPolicies (Some prof) (rc_ExpIDs ?ctx)"
    let ?kept = "ApplyFilterPolicies ?ctx ?policies (fst (markAndDropNoPortrait ?f (MergeRecallLanes eb mb (fg_AllMergeNum prof))))"
    have "ids64 (concat (eb @ mb))"
      using recall_lanes_ids64[OF assms(1) e] recall_lanes_ids64[OF assms(1) m] by (simp add: ids64_def)
    then have "candidates ?kept"
      by (intro candidates_subseq[OF policy_stage.run_subseq] candidates_portraits)
        (simp add: MergeRecallLanes_merge_spec candidates_merge)
    moreover have "fits 32 (effectiveRetCount req (fg_FinalRetCount prof))"
      using assms(4) fits_wrap[of 32] by (simp add: effectiveRetCount_def recommend_fits_def Let_def)
    ultimately have "rankAndShowFunnel l1 req ?ctx ?kept show (effectiveRetCount req (fg_FinalRetCount prof)) =
        rankAndShowFunnel l2 req ?ctx ?kept show (effectiveRetCount req (fg_FinalRetCount prof))" for "show"
      using rankFunnel_agree[OF assms(2) _ _ _ assms(5,6)] assms(3) by (simp add: loadExposure_fits)
    then show ?thesis
      by (simp add: handleFunnel_def assms(7,8) Some rules runRules_center e m loadExposure_center Let_def)
  next
    case False
    then show ?thesis
      by (cases "runRecallLanes env ?f reg rctx erules"; cases "runRecallLanes env ?f reg rctx mrules")
        (simp_all add: handleFunnel_def assms(7,8) Some rules runRules_center)
  qed
qed

subsection \<open>The route\<close>

lemma answer_agree:
  assumes "go_runtime env" "agree r1 r2" "ctx_fits rctx" "recommend_fits req"
  shows "answer_request env (route_logic (Some r1) s) req rctx = answer_request env (route_logic (Some r2) s) req rctx"
proof -
  have l: "rm_Pipeline (route_logic (Some r) s) = rank_only (Some r)"
      "rm_Features (route_logic (Some r) s) = Some (sc_Features s)" for r
    by (simp_all add: route_logic_def NewRecommend_def NewRecommendFunnel_def NewRecommendCenter_def Let_def)
  have f: "rm_Funnel (route_logic (Some r1) s) = rm_Funnel (route_logic (Some r2) s)"
      "rm_Recall (route_logic (Some r1) s) = rm_Recall (route_logic (Some r2) s)"
    by (simp_all add: route_logic_def NewRecommend_def NewRecommendFunnel_def NewRecommendCenter_def Let_def)
  let ?c = "\<lambda>r. \<lparr>ce_Features = Some (sc_Features s), ce_Center = sc_Center s, ce_Recall = sc_Recall s, ce_Rank = Some r\<rparr>"
  have c: "rm_centerPL (route_logic (Some r) s) =
      (if sc_Center s \<noteq> None \<and> sc_Recall s \<noteq> None then Some (?c r) else None)" for r
    by (simp add: route_logic_def NewRecommend_def NewRecommendFunnel_def NewRecommendCenter_def Let_def)
  have run: "Center_Run env (?c r1) req rctx = Center_Run env (?c r2) req rctx"
    using Center_Run_agree[OF assms, of "?c r1"] by simp
  have "handleFunnel env (route_logic (Some r1) s) reg req rctx = handleFunnel env (route_logic (Some r2) s) reg req rctx" for reg
    by (rule handleFunnel_agree[OF assms]) (simp_all add: l f)
  moreover have "stubRankResponse (route_logic (Some r1) s) req rctx = stubRankResponse (route_logic (Some r2) s) req rctx"
    by (rule stub_agree[OF assms(2,3)]) (simp_all add: l)
  ultimately have rest: "(case x of Some reg \<Rightarrow> handleFunnel env (route_logic (Some r1) s) reg req rctx
        | None \<Rightarrow> stubRankResponse (route_logic (Some r1) s) req rctx) =
      (case x of Some reg \<Rightarrow> handleFunnel env (route_logic (Some r2) s) reg req rctx
        | None \<Rightarrow> stubRankResponse (route_logic (Some r2) s) req rctx)" for x
    by (cases x) simp_all
  show ?thesis unfolding answer_request_def c f rest by (simp add: run)
qed

lemma handler_agree:
  assumes "go_runtime env" "agree r1 r2"
  shows "recommend_handler env lh refuse describe recovered (Some r1) s body =
    recommend_handler env lh refuse describe recovered (Some r2) s body"
proof (cases "decode_first dec_RecommendRequestJSON zero_recommend_request body")
  case (Some req)
  have fits: "recommend_fits req" by (rule decoded_request_fits[OF Some])
  let ?push = "\<lambda>ctx items. if Enabled (Some (sc_AlgoKafka s))
      then Push (Serialize (BuildRecord (lh_host lh) (lh_now lh) (lh_score lh) (log_input (sc_AlgoKafka s) req ctx items))) (sc_AlgoKafka s)
      else Inr (sc_AlgoKafka s)"
  have same: "(route_logic r s)\<lparr>rm_AlgoKafka := Some (sc_AlgoKafka s)\<rparr> = route_logic r s" for r
    by (simp add: route_logic_def Let_def)
  have push: "pushAlgoLog lh (route_logic r s) req ctx items =
      and_then (?push ctx items) (\<lambda>p. Inr ((route_logic r s)\<lparr>rm_AlgoKafka := Some p\<rparr>))" for r ctx items
    unfolding pushAlgoLog_def route_logic_pool by (simp add: same Let_def)
  have ans: "answer_request env (route_logic (Some r1) s) req (request_context req) =
      answer_request env (route_logic (Some r2) s) req (request_context req)"
    by (rule answer_agree[OF assms request_context_fits[OF fits] fits])
  show ?thesis
  proof (cases "answer_request env (route_logic (Some r2) s) req (request_context req)")
    case (Inr ri)
    obtain resp items where ri: "ri = (resp, items)" by (cases ri)
    show ?thesis
      by (cases "?push (request_context req) items")
        (simp_all add: recommend_handler_def Some Recommend_Handle_def ans Inr ri push del: if_split)
  qed (simp add: recommend_handler_def Some Recommend_Handle_def ans)
qed (simp add: recommend_handler_def)

section \<open>The services over HTTP and in process\<close>

text \<open>
  What the network and the spelling of scores have to give: the link carries any body, and \<open>strconv\<close> spells
  every score the service returns for a request in range without repeated candidates.
\<close>

definition link_total :: "rank_link \<Rightarrow> bool" where
  "link_total k =
     (link_ok k \<and> (\<forall>raw. link_carries k raw) \<and>
      (\<forall>rctx main ret. ctx_fits rctx \<and> candidates main \<and> fits 32 ret \<longrightarrow> link_spells k (main_request rctx main ret)))"

lemma main_request_fits:
  "ctx_fits rctx \<Longrightarrow> candidates main \<Longrightarrow> fits 32 ret \<Longrightarrow> request_fits (rank_body (main_request rctx main ret))"
  by (simp add: request_fits_def rank_body_def main_request_def ctx_fits_def group_fits_def candidates_def ids64_def
      id64_fits fits_def[of _ 0] list.pred_map comp_def Let_def)

lemma link_total_agrees: "link_total k \<Longrightarrow> agree (link_rank k) (link_local k)"
  unfolding agree_def link_total_def
  by (intro allI impI link_call) (simp add: link_admits_def main_request_fits)

lemma context_rank_link:
  "sc_Rank s = Some (link_client k) \<Longrightarrow> context_rank (lk_rng k) (lk_net k) (lk_sent k) s = Some (link_rank k)"
  by (simp add: context_rank_def link_rank_def)

subsection \<open>A link that carries everything\<close>

text \<open>Integral scores are spelled by their digits.\<close>

lemma round_abs_int:
  assumes "0 < n"
  shows "\<exists>m. round_abs p emin (of_int n) = of_int m"
proof -
  define q where "q = quantum p emin (of_int n)"
  have r: "round_abs p emin (of_int n) = of_int (round_half_even (of_int n / 2 powi q)) * 2 powi q"
    using assms by (simp add: round_abs_def q_def)
  show ?thesis
  proof (cases "0 \<le> q")
    case True
    then have "(2 :: rat) powi q = of_int (2 ^ nat q)" by (simp add: power_int_def)
    then show ?thesis unfolding r by (metis of_int_mult)
  next
    case False
    then have p2: "(2 :: rat) powi q = 1 / of_int (2 ^ nat (- q))" by (simp add: power_int_def inverse_eq_divide power_one_over)
    have "of_int n / 2 powi q = (of_int (n * 2 ^ nat (- q)) :: rat)" unfolding p2 by simp
    then have "round_abs p emin (of_int n) = of_int (n * 2 ^ nat (- q)) * 2 powi q" unfolding r by (simp only: round_half_even_of_int)
    then have "round_abs p emin (of_int n) = of_int n" unfolding p2 by simp
    then show ?thesis by blast
  qed
qed

definition int_fmt :: "float32 \<Rightarrow> string option" where
  "int_fmt v =
     (case v of
        Fin r \<Rightarrow> (let l = Itoa \<lfloor>r\<rfloor> in if jnumber l = Some (l, []) \<and> float32_literal l = Some v then Some l else None)
      | _ \<Rightarrow> None)"

lemma int_fmt_ok: "fmt_ok int_fmt"
  by (auto simp: fmt_ok_def spells_def int_fmt_def Let_def split: float64.split)

lemma parse_nat_dec: "parse_decimal (nat_dec n) = Some (False, of_nat n)"
proof -
  have d: "list_all is_digit (nat_dec n)" by (rule nat_dec_digits)
  then obtain c t where c: "nat_dec n = c # t" "is_digit c" by (cases "nat_dec n") auto
  then have "take_sign (nat_dec n) = (False, nat_dec n)" by (auto simp: take_sign_def is_digit_def)
  moreover have "span_digits (nat_dec n) = (nat_dec n, [])" using d by (simp add: span_digits_def list_all_iff)
  ultimately show ?thesis using dec_nat_dec[of n] by (simp add: parse_decimal_def dec_exponent_def)
qed

lemma int_fmt_spells:
  assumes "0 < n" "n < 2 ^ 100"
  shows "spells int_fmt (float32_of_int n)"
proof -
  let ?r = "round_bin 24 (-149) (of_int n)"
  obtain m where m: "?r = of_int m" using round_abs_int[OF assms(1)] assms(1) by (auto simp: round_bin_def)
  have "round_bin 24 (-149) 1 \<le> ?r" using assms(1) by (intro round_bin_mono) simp_all
  then have pos: "0 < m" using m by simp
  have "?r \<le> 2 * of_int n"
  proof (rule round_bin_double)
    have "(2 :: rat) powi - 149 \<le> 1" using powi2_le_iff[of "-149" 0] by simp
    also have "1 \<le> (of_int n :: rat)" using assms(1) by simp
    finally show "(2 :: rat) powi - 149 \<le> of_int n" .
  qed simp
  also have "\<dots> < 2 powi 128"
  proof -
    have "(of_int n :: rat) < of_int (2 ^ 100)" using assms(2) by (simp only: of_int_less_iff)
    then show ?thesis by (simp add: power_int_def)
  qed
  finally have big: "\<bar>of_int m :: rat\<bar> < 2 powi 128" using m pos by simp
  have grid: "on_grid 24 (-149) (of_int m)" using on_grid_round_bin[of 24 "-149" "of_int n"] by (simp add: m)
  have mk: "mk32 False (of_int m) = Fin (of_int m)" using fmake_on_grid[OF grid big] pos by simp
  have f: "float32_of_int n = Fin (of_int m)"
    using m big pos by (simp add: float32_of_int_def fmake_def Let_def not_le)
  have lit: "Itoa m = nat_dec (nat m)" using pos by (simp add: Itoa_def)
  have "jnumber (nat_dec (nat m)) = Some (nat_dec (nat m), [])"
    by (rule jnumber_digits(1)[OF nat_dec_digits]) (use pos nat_dec_head[of "nat m"] in auto)
  moreover have "float32_literal (nat_dec (nat m)) = Some (Fin (of_int m))"
    using pos mk by (simp add: float32_literal_def parse_nat_dec is_finite_def Let_def)
  ultimately show ?thesis by (simp add: spells_def f int_fmt_def lit Let_def)
qed

definition demo_net :: "nat \<Rightarrow> string \<Rightarrow> bytes \<Rightarrow> http_outcome" where
  "demo_net k url raw =
     (if k = 0 then Reply 503 ''busy''
      else fst (rank_handler rank_env0 int_fmt id (\<lambda>_. Reply 500 []) call_service raw []))"

text \<open>Two endpoints, the first of which is busy; the rank service in mock mode.\<close>

definition demo_link :: rank_link where
  "demo_link = \<lparr>lk_runtime = rank_env0, lk_fmt = int_fmt, lk_refuse = id, lk_recovered = \<lambda>_. Reply 500 [],
     lk_service = call_service, lk_service_sent = [],
     lk_endpoints = \<lparr>ep_BaseURL = [], ep_Endpoints = [''http://a'', ''http://b''], ep_LoadBalance = ''round_robin''\<rparr>,
     lk_doer = \<lparr>hd_Balancer = Some (roundRobin [''http://a'', ''http://b''] 0), hd_MaxAttempts = 2\<rparr>,
     lk_path = ''/v1/rank/multi'', lk_rng = \<lambda>_. 0, lk_net = demo_net, lk_sent = []\<rparr>"

lemma demo_resolve:
  "Resolve \<lparr>ep_BaseURL = [], ep_Endpoints = [''http://a'', ''http://b''], ep_LoadBalance = ''round_robin''\<rparr> =
     [''http://a'', ''http://b'']"
  by code_simp

lemma handler_final:
  assumes "rank_runtime rt" "svc_ok svc"
  shows "\<not> retryable (fst (rank_handler rt fmt refuse recovered svc raw sent))"
proof (cases "decode_first dec_MultiRankRequestJSON zero_rank_request raw")
  case (Some q)
  obtain resp svc' sent' where "Handle rt svc q sent = Inr (resp, svc', sent')"
    using rank_runtime.Handle_answer[OF assms] by blast
  then show ?thesis by (simp add: rank_handler_def Some retryable_def)
qed (simp add: rank_handler_def retryable_def)

lemma demo_carries: "link_carries demo_link raw"
  using handler_final[OF rank0.rank_runtime_axioms call_service_ok, of int_fmt id "\<lambda>_. Reply 500 []" raw "[]"]
  by (simp add: link_carries_def demo_link_def demo_resolve demo_net_def numeral_2_eq_2 served_def retryable_def)

lemma candidates_length: "candidates main \<Longrightarrow> length main \<le> 2 ^ 64"
proof -
  assume c: "candidates main"
  then have "it_ID ` set main \<subseteq> {- (2 ^ 63)..<2 ^ 63}"
    by (auto simp: candidates_def ids64_def id64_fits fits_def list_all_iff)
  then have "card (it_ID ` set main) \<le> card {- (2 ^ 63 :: int)..<2 ^ 63}" by (intro card_mono) auto
  moreover have "card (it_ID ` set main) = length main"
    using c distinct_card[of "map it_ID main"] by (simp add: candidates_def)
  ultimately show ?thesis by simp
qed

lemma mock_scores:
  assumes "s \<in> set (mockRankGroup rank_env0 js ret)"
  shows "\<exists>n i. 0 < n \<and> n \<le> int (length js) \<and> i \<in> set js \<and>
    s = \<lparr>si_ItemID = i, si_PreRank = float32_of_int n, si_Rank = float32_of_int n, si_ReRank = float32_of_int n\<rparr>"
proof -
  let ?rows = "map (\<lambda>(i, idx). (i, float32_of_int (int idx + 1), idx)) (zip js [0..<length js])"
  let ?score = "\<lambda>(i, s, idx :: nat). \<lparr>si_ItemID = i, si_PreRank = s, si_Rank = s, si_ReRank = s\<rparr>"
  have "set (limit n (map ?score (rt_sort_rows rank_env0 less ?rows))) \<subseteq> ?score ` set ?rows" for n less
    using upto_n_set[of n "map ?score (rt_sort_rows rank_env0 less ?rows)"] slice_sort.sort_set[OF rank0.sort_rows]
    by (auto simp: limit_def)
  then have "s \<in> ?score ` set ?rows" using assms unfolding mockRankGroup_def Let_def by blast
  then obtain k where "k < length js" "s = ?score (js ! k, float32_of_int (int k + 1), k)" by (auto simp: set_zip)
  then show ?thesis by (intro exI[of _ "int k + 1"] exI[of _ "js ! k"]) auto
qed

lemma demo_spells:
  assumes "ctx_fits rctx" "candidates main" "fits 32 ret"
  shows "link_spells demo_link (main_request rctx main ret)"
proof -
  have ok: "scores_ok int_fmt (scores_json s)" if s: "s \<in> set (mockRankGroup rank_env0 (map it_ID main) ret)" for s
  proof -
    obtain n i where n: "0 < n" "n \<le> int (length main)" "i \<in> it_ID ` set main"
        "s = \<lparr>si_ItemID = i, si_PreRank = float32_of_int n, si_Rank = float32_of_int n, si_ReRank = float32_of_int n\<rparr>"
      using mock_scores[OF s] by auto
    have "n < 2 ^ 100" using n(2) candidates_length[OF assms(2)] by simp
    moreover have "fits 64 i" using n(3) assms(2) by (auto simp: candidates_def ids64_def id64_fits list_all_iff)
    ultimately show ?thesis using int_fmt_spells[OF n(1)] by (simp add: n(4) scores_ok_def scores_json_def)
  qed
  have e: "fits 32 (firstExp (rc_ExpIDs rctx))"
    using assms(1) by (cases "rc_ExpIDs rctx") (simp_all add: ctx_fits_def firstExp_def fits_def)
  show ?thesis
    using assms(1) ok e
    by (simp add: link_spells_def demo_link_def Handle_def rank_plan_def EngineFor_def call_service_def mock_service_def
        mock_engine_def rank_body_def main_request_def RankGroupExt_def response_ok_def ExpInfo_fits_def ctx_fits_def
        list_all_iff Let_def)
qed

lemma demo_link_total: "link_total demo_link"
proof -
  have "link_ok demo_link"
    using rank0.rank_runtime_axioms call_service_ok by (simp add: link_ok_def doer_ok_def demo_link_def demo_resolve)
  then show ?thesis by (simp add: link_total_def demo_carries demo_spells)
qed

section \<open>The composition\<close>

text \<open>C1: the two services over HTTP are the recommend service with the ranking in process. For every body,
  every mode of the service and every state of its context, the reply and the queued log line of the pair are those of a service that calls the
  rank engine directly, as long as some endpoint the failover reaches runs the rank service and JSON can spell the scores
  it gives (it cannot spell NaN or an infinity).\<close>

theorem services_over_http:
  assumes "go_runtime env" "link_total k" "sc_Rank s = Some (link_client k)"
  shows "recommend_handler env lh refuse describe recovered (context_rank (lk_rng k) (lk_net k) (lk_sent k) s) s body =
    recommend_handler env lh refuse describe recovered (Some (link_local k)) s body"
  unfolding context_rank_link[OF assms(3)]
  by (rule handler_agree[OF assms(1) link_total_agrees[OF assms(2)]])

text \<open>A service in stub mode before the busy endpoint, asked with an empty object: the three stub items come
  back in the order of the mock ranking.\<close>

definition linked_config :: Config where
  "linked_config = stub_config\<lparr>co_RankService := \<lparr>rs_BaseURL = [], rs_Endpoints = [''http://a'', ''http://b''],
     rs_LoadBalance = ''round_robin'', rs_TimeoutMs = 0\<rparr>\<rparr>"

definition linked_context :: ServiceContext where
  "linked_context = stub_context\<lparr>sc_Config := linked_config, sc_Rank := Some (link_client demo_link)\<rparr>"

lemma linked_rank: "sc_Rank linked_context = Some (link_client demo_link)"
  by (simp add: linked_context_def)

lemma linked_context_ok: "context_ok linked_context"
  using NewServiceContext_ok[OF stub_context_new]
  by (simp add: context_ok_def linked_context_def linked_config_def stub_context_def stub_config_def RankEndpoints_def
      rank_client_ok_def link_client_def demo_link_def doer_ok_def demo_resolve)

lemma decode_empty_object:
  "decode_first dec_RecommendRequestJSON zero_recommend_request [CHR 0x7B, CHR 0x7D] = Some zero_recommend_request"
  by (simp add: decode_first_def numeral_2_eq_2 skip_ws_def is_json_ws_def expect_def dec_RecommendRequestJSON_def dec_struct_def)

lemma mock_three:
  "mockRankGroup rank_env0 [a, b, c] 3 =
     [\<lparr>si_ItemID = c, si_PreRank = Fin 3, si_Rank = Fin 3, si_ReRank = Fin 3\<rparr>,
      \<lparr>si_ItemID = b, si_PreRank = Fin 2, si_Rank = Fin 2, si_ReRank = Fin 2\<rparr>,
      \<lparr>si_ItemID = a, si_PreRank = Fin 1, si_Rank = Fin 1, si_ReRank = Fin 1\<rparr>]"
  using float32_small[of 1] float32_small[of 2] float32_small[of 3]
  by (simp add: mockRankGroup_def rank_env0_def go_insertion_sort_def limit_def upt_rec less_float64_def Let_def)

definition demo_reply :: "RecommendResponseJSON \<times> ItemInfo list" where
  "demo_reply =
     (\<lparr>rr_UserID = 0, rr_ItemIDs = [10003, 10002, 10001],
       rr_Recall = map (\<lambda>i. \<lparr>ir_ItemID = i, ir_RecallType = ''stub_hot''\<rparr>) [10003, 10002, 10001]\<rparr>,
      [(mk_item 10003 ''stub_hot'')\<lparr>it_Score := Fin 3\<rparr>, (mk_item 10002 ''stub_hot'')\<lparr>it_Score := Fin 2\<rparr>,
       (mk_item 10001 ''stub_hot'')\<lparr>it_Score := Fin 1\<rparr>])"

lemma demo_answer:
  "answer_request go_env0 (route_logic (Some (link_local demo_link)) linked_context) zero_recommend_request ctx = Inr demo_reply"
proof -
  have l: "route_logic (Some r) linked_context = (NewRecommend (Some r) (Some NoOp))\<lparr>rm_AlgoKafka := Some (New small_config)\<rparr>" for r
    by (simp add: route_logic_def linked_context_def stub_context_def Let_def)
  have w: "wrap32 3 = 3" by (simp add: wrap_signed_def)
  have "local_rank rank_env0 call_service []
      \<lparr>mq_Ctx = ctx, mq_Groups = [\<lparr>gr_Name = ''Main'', gr_ItemIDs = [10001, 10002, 10003], gr_RetCount = 3\<rparr>],
       mq_PreRankTrunc = 0, mq_RankTrunc = 0, mq_RankProfile = []\<rparr> =
    Inr (Some (rank_reply \<lparr>pj_UUID = rc_UUID ctx, pj_UserID = rc_UserID ctx,
      pj_Exp = (let e = firstExp (rc_ExpIDs ctx) in \<lparr>ej_PreRankExpID = e, ej_RankExpID = e, ej_ReRankExpID = e\<rparr>),
      pj_RankedGroups = [\<lparr>rj_Name = ''Main'', rj_ItemScores = map scores_json (mockRankGroup rank_env0 [10001, 10002, 10003] 3)\<rparr>]\<rparr>))"
    by (simp add: local_rank_def Handle_def rank_plan_def EngineFor_def call_service_def mock_service_def mock_engine_def
        rank_body_def RankGroupExt_def Let_def)
  then show ?thesis
    unfolding l by (simp add: answer_request_def NewRecommend_def stubRankResponse_def rank_only_def Pipeline_Run_def
        rank_step_def ids_def stub_items_def mk_item_def w link_local_def demo_link_def mock_three rank_reply_def
        scores_json_def apply_reply_def kit_reorderByRank_def index_by_id_def append_unseen_def
        buildRecommendResponse_def zero_recommend_request_def demo_reply_def Let_def)
qed

lemma services_over_http_witness:
  "fst (recommend_handler go_env0 stub_host id (\<lambda>_. []) (\<lambda>_. Reply 500 [])
     (context_rank (lk_rng demo_link) (lk_net demo_link) (lk_sent demo_link) linked_context) linked_context [CHR 0x7B, CHR 0x7D]) =
   Reply 200 (json_print (enc_RecommendResponseJSON (fst demo_reply)) @ [CHR 0x0A])
   \<and> rr_ItemIDs (fst demo_reply) = [10003, 10002, 10001]"
proof -
  obtain p' where p: "pushAlgoLog stub_host (route_logic (Some (link_local demo_link)) linked_context) zero_recommend_request
      (request_context zero_recommend_request) (snd demo_reply) = Inr p'"
    using pushAlgoLog_route[OF linked_context_ok] by blast
  show ?thesis
    unfolding services_over_http[OF env0.go_runtime_axioms demo_link_total linked_rank]
    using p by (auto simp: recommend_handler_def decode_empty_object Recommend_Handle_def demo_answer case_prod_beta Let_def)
      (simp add: demo_reply_def)
qed

section \<open>What a client of the recommend service sees\<close>

text \<open>For the shape of a reply it is enough that no answer of the rank client scores an item twice; it may fail.\<close>

definition tidy :: "RankClient option \<Rightarrow> bool" where
  "tidy client =
     (case client of
        None \<Rightarrow> True
      | Some r \<Rightarrow>
          (\<forall>rctx main ret resp. ctx_fits rctx \<and> candidates main \<and> fits 32 ret \<longrightarrow>
             r (main_request rctx main ret) = Inr resp \<longrightarrow> no_repeats resp))"

definition reply_sound :: "RecommendRequestJSON \<Rightarrow> RecommendResponseJSON \<Rightarrow> bool" where
  "reply_sound req resp =
     (rr_UserID resp = rq_UserID req \<and> distinct (rr_ItemIDs resp) \<and> map ir_ItemID (rr_Recall resp) = rr_ItemIDs resp \<and>
      (0 < rq_RetCount req \<longrightarrow> int (length (rr_ItemIDs resp)) \<le> rq_RetCount req))"

lemma response_sound:
  assumes "response_of req ret r" "distinct (map it_ID (re_Items r))" "0 < rq_RetCount req \<Longrightarrow> ret = rq_RetCount req"
  shows "reply_sound req (re_Resp r)"
proof -
  have "distinct (map it_ID (cap_list ret (re_Items r)))"
    using assms(2) by (simp add: cap_list_def take_map[symmetric])
  moreover have "int (length (cap_list n xs)) \<le> n" if "0 < n" for n and xs :: "ItemInfo list"
    using that by (simp add: cap_list_def)
  ultimately show ?thesis using assms(1,3) by (auto simp: reply_sound_def response_of_def comp_def)
qed

lemma build_sound:
  assumes "distinct (map it_ID items)" "0 < rq_RetCount req \<Longrightarrow> ret = rq_RetCount req"
  shows "reply_sound req (buildResponse req items ret)"
  using response_sound[OF buildResponse_caps[of req ret items]] assms by simp

lemma apply_reply_funnel: "apply_reply items resp = funnel_order items resp"
proof -
  have "kit_reorderByRank items [] = items" by (simp add: kit_reorderByRank_def)
  then show ?thesis
    unfolding apply_reply_def funnel_order_def reorderGeneric_center kit_center_reorder
    by (auto split: option.split list.split)
qed

lemma rank_main_distinct:
  assumes "tidy client" "ctx_fits rctx" "candidates main" "fits 32 ret" "rank_main client rctx main ret = Inr out"
  shows "distinct (map it_ID out)"
proof (cases client)
  case (Some r)
  obtain resp where resp: "r (main_request rctx main ret) = Inr resp" "out = funnel_order main resp"
    using assms(5) by (auto simp: Some rank_main_request and_then_Inr)
  then have "no_repeats resp" using assms(1-4) by (auto simp: tidy_def Some)
  then have "mset (map it_ID out) = mset (map it_ID main)"
    using apply_reply_permutes[of main resp] assms(3) resp(2) by (simp add: apply_reply_funnel candidates_def)
  then show ?thesis using assms(3) mset_eq_imp_distinct_iff by (fastforce simp: candidates_def)
qed (use assms(5) in \<open>simp add: rank_main_def\<close>)

lemma profile_sound:
  assumes "go_runtime env" "tidy (ce_Rank p)" "ctx_fits rctx" "recommend_fits req"
    and "run_profile env p cb reg req rctx prof = Inr (Some r)"
  shows "reply_sound req (re_Resp r)"
proof -
  obtain erules mrules where rules: "center_ResolvedRecallLists (Some prof) (rc_ExpIDs rctx) = (erules, mrules)"
    by (cases "center_ResolvedRecallLists (Some prof) (rc_ExpIDs rctx)")
  let ?ctx = "loadExposure env (ce_Features p) rctx" and ?ret = "center_ret req prof"
  obtain batches where batches: "runRecallLanes env (ce_Features p) reg rctx mrules = Inr batches"
    using assms(5) by (cases "runRecallLanes env (ce_Features p) reg rctx mrules") (simp_all add: run_profile_def rules Let_def)
  let ?main0 = "MainOnly batches (ru_AllMergeNum prof)" and ?pool = "runExclusiveLanes env (ce_Features p) reg rctx erules"
  obtain main pool where f: "filter_pools (cb_Filter cb) ?ctx ?main0 ?pool = (main, pool)"
    by (cases "filter_pools (cb_Filter cb) ?ctx ?main0 ?pool")
  have "candidates ?main0"
    using candidates_merge[OF recall_lanes_ids64[OF assms(1) batches]] by (simp add: MainOnly_def MergeRecallLanes_merge_spec)
  from candidates_subseq[OF filter_pools_main[OF f] this] have c: "candidates main" .
  have ret: "fits 32 ?ret" "fits 32 (wrap32 i)" "0 < rq_RetCount req \<Longrightarrow> ?ret = rq_RetCount req" for i
    using assms(4) fits_wrap[of 32] by (simp_all add: center_ret_def recommend_fits_def)
  have empty: "reply_sound req \<lparr>rr_UserID = rq_UserID req, rr_ItemIDs = [], rr_Recall = []\<rparr>"
    by (simp add: reply_sound_def)
  have run: "rankAndShow env p cb req ?ctx main pool ?ret = Inr (Some r)" if "main \<noteq> [] \<or> pool \<noteq> Map.empty"
    using assms(5) that by (auto simp: run_profile_def rules batches f Let_def split: if_splits)
  show ?thesis
  proof (cases "main = []")
    case True
    show ?thesis
    proof (cases "pool = Map.empty")
      case True
      then show ?thesis using \<open>main = []\<close> assms(5) empty by (auto simp: run_profile_def rules batches f Let_def)
    next
      case False
      have "distinct (map it_ID (show_items env (ce_Features p) (cb_Show cb) ?ctx [] pool))"
        using strategies_distinct by (auto simp: show_items_def ApplyStrategies_def split: option.split)
      from build_sound[OF this ret(3)] show ?thesis
        using \<open>main = []\<close> run False by (auto simp: rankAndShow_def Let_def)
    qed
  next
    case False
    define n where "n = (if ?ret \<le> 0 then wrap32 (int (length main)) else ?ret)"
    have n: "fits 32 n" "0 < rq_RetCount req \<Longrightarrow> n = rq_RetCount req" using ret by (auto simp: n_def)
    obtain out where out: "rank_main (ce_Rank p) ?ctx main n = Inr out"
        "re_Resp r = buildResponse req (show_items env (ce_Features p) (cb_Show cb) ?ctx out pool) n"
      using run[OF disjI1[OF False]] False by (auto simp: rankAndShow_def and_then_Inr n_def Let_def)
    have "distinct (map it_ID out)"
      by (rule rank_main_distinct[OF assms(2) _ c n(1) out(1)]) (use assms(3) in \<open>simp add: loadExposure_fits\<close>)
    then have "distinct (map it_ID (show_items env (ce_Features p) (cb_Show cb) ?ctx out pool))"
      using strategies_distinct by (auto simp: show_items_def ApplyStrategies_def split: option.split)
    then show ?thesis unfolding out(2) by (rule build_sound) (rule n(2))
  qed
qed

lemma center_sound:
  assumes "go_runtime env" "tidy (ce_Rank p)" "ctx_fits rctx" "recommend_fits req" "Center_Run env p req rctx = Inr (Some r)"
  shows "reply_sound req (re_Resp r)"
proof -
  obtain cb reg ctx prof where plan: "center_profile p rctx = Inr (Some (cb, reg, ctx, prof))"
      and run: "run_profile env p cb reg req ctx prof = Inr (Some r)"
    using assms(5) by (auto simp: Center_Run_def and_then_Inr split: option.splits)
  have "ctx_fits ctx"
    using plan assms(3) user_context_fits by (auto simp: center_profile_def Let_def split: option.splits if_splits)
  from profile_sound[OF assms(1,2) this assms(4) run] show ?thesis .
qed

lemma stub_sound:
  assumes "tidy client" "rm_Pipeline l = rank_only client" "ctx_fits rctx" "stubRankResponse l req rctx = Inr (resp, items)"
  shows "reply_sound req resp"
proof -
  have c: "candidates stub_items" by (simp add: candidates_def ids64_def stub_items_def mk_item_def)
  have step: "rank_step (Some r) rctx stub_items = rank_main (Some r) rctx stub_items 3" for r
  proof -
    have "wrap32 3 = 3" by (simp add: wrap_signed_def)
    then show ?thesis
      unfolding rank_main_request apply_reply_funnel[symmetric] by (simp add: rank_step_def main_request_def ids_def stub_items_def)
  qed
  obtain out where out: "rank_step client rctx stub_items = Inr out" "resp = buildResponse req out (rq_RetCount req)"
    using assms(2,4) by (auto simp: stubRankResponse_def Pipeline_Run_def rank_only_def buildResponse_copy and_then_Inr)
  have "distinct (map it_ID out)"
  proof (cases client)
    case None
    then show ?thesis using c out(1) by (auto simp: rank_step_def candidates_def)
  next
    case (Some r)
    show ?thesis
      by (rule rank_main_distinct[OF assms(1,3) c, of 3]) (use out(1) in \<open>simp_all add: Some step fits_def\<close>)
  qed
  then show ?thesis unfolding out(2) by (rule build_sound) simp
qed

lemma funnel_sound:
  assumes "go_runtime env" "tidy client" "rm_Pipeline l = rank_only client" "ctx_fits rctx" "recommend_fits req"
    and "handleFunnel env l reg req rctx = Inr (resp, items)"
  shows "reply_sound req resp"
proof (cases "ResolveFunnel (rm_Funnel l) (rc_ExpIDs rctx) (rc_UserGroup rctx)")
  case None
  then show ?thesis using stub_sound[OF assms(2-4)] assms(6) by (auto simp: handleFunnel_def)
next
  case (Some prof)
  obtain erules mrules where rules: "funnel_ResolvedRecallLists (Some prof) (rc_ExpIDs rctx) = (erules, mrules)"
    by (cases "funnel_ResolvedRecallLists (Some prof) (rc_ExpIDs rctx)")
  let ?f = "rm_Features l"
  let ?ctx = "loadExposure env ?f rctx" and ?ret = "effectiveRetCount req (fg_FinalRetCount prof)"
  obtain eb mb where e: "runRecallLanes env ?f reg rctx erules = Inr eb" and m: "runRecallLanes env ?f reg rctx mrules = Inr mb"
    using assms(6) by (cases "runRecallLanes env ?f reg rctx erules"; cases "runRecallLanes env ?f reg rctx mrules")
      (simp_all add: handleFunnel_def Some rules runRules_center)
  let ?policies = "funnel_ResolvedFilterPolicies (Some prof) (rc_ExpIDs ?ctx)"
  let ?kept = "ApplyFilterPolicies ?ctx ?policies (fst (markAndDropNoPortrait ?f (MergeRecallLanes eb mb (fg_AllMergeNum prof))))"
  have "ids64 (concat (eb @ mb))"
    using recall_lanes_ids64[OF assms(1) e] recall_lanes_ids64[OF assms(1) m] by (simp add: ids64_def)
  then have c: "candidates ?kept"
    by (intro candidates_subseq[OF policy_stage.run_subseq] candidates_portraits)
      (simp add: MergeRecallLanes_merge_spec candidates_merge)
  have ret: "fits 32 ?ret" "0 < rq_RetCount req \<Longrightarrow> ?ret = rq_RetCount req"
    using assms(5) fits_wrap[of 32] by (simp_all add: effectiveRetCount_def recommend_fits_def Let_def)
  have empty: "reply_sound req \<lparr>rr_UserID = rq_UserID req, rr_ItemIDs = [], rr_Recall = []\<rparr>"
    by (simp add: reply_sound_def)
  have ranked: "reply_sound req resp" if r: "rankAndShowFunnel l req ?ctx ?kept cfg ?ret = Inr (resp, items)" for cfg
  proof -
    let ?n = "if ?ret \<le> 0 then wrap32 (int (length ?kept)) else ?ret"
    obtain out where out: "rank_main client ?ctx ?kept ?n = Inr out" "resp = buildResponse req (ApplyShowControl cfg out) ?n"
      using r assms(3) by (auto simp: rankFunnel_center rank_only_def and_then_Inr Let_def buildResponse_copy)
    have "distinct (map it_ID out)"
      by (rule rank_main_distinct[OF assms(2) _ c _ out(1)]) (use assms(4) ret(1) fits_wrap[of 32] in \<open>simp_all add: loadExposure_fits\<close>)
    then have "distinct (map it_ID (ApplyShowControl cfg out))" by (rule show_cap.run_distinct)
    then show ?thesis unfolding out(2) by (rule build_sound) (use ret(2) in simp)
  qed
  show ?thesis
    using assms(6) ranked empty
    by (auto simp: handleFunnel_def Some rules runRules_center e m loadExposure_center Let_def split: if_splits)
qed

lemma answer_sound:
  assumes "go_runtime env" "tidy client" "ctx_fits rctx" "recommend_fits req"
    and "answer_request env (route_logic client s) req rctx = Inr (resp, items)"
  shows "reply_sound req resp"
proof -
  let ?l = "route_logic client s"
  have l: "rm_Pipeline ?l = rank_only client"
    by (simp add: route_logic_def NewRecommend_def NewRecommendFunnel_def NewRecommendCenter_def Let_def)
  have c: "rm_centerPL ?l = Some p \<Longrightarrow> ce_Rank p = client" for p
    by (auto simp: route_logic_def NewRecommend_def NewRecommendFunnel_def NewRecommendCenter_def Let_def split: if_splits)
  have rest: "reply_sound req resp"
    if "(case (if rm_Funnel ?l \<noteq> None then rm_Recall ?l else None) of
           Some reg \<Rightarrow> handleFunnel env ?l reg req rctx | None \<Rightarrow> stubRankResponse ?l req rctx) = Inr (resp, items)"
    using that funnel_sound[OF assms(1,2) l assms(3,4)] stub_sound[OF assms(2) l assms(3)] by (auto split: option.splits if_splits)
  show ?thesis
  proof (cases "rm_centerPL ?l")
    case None
    then show ?thesis using assms(5) rest by (simp add: answer_request_def)
  next
    case (Some p)
    then show ?thesis
      using assms(5) rest center_sound[OF assms(1) _ assms(3,4), of p] c[OF Some] assms(2)
      by (auto simp: answer_request_def and_then_Inr split: option.splits)
  qed
qed

subsection \<open>A network of rank services, up or down\<close>

text \<open>
  An outcome of posting a body to the rank path: anything but a 200, or the reply of a rank service, in a
  state its constructor makes and its requests keep (\<open>svc_ok\<close>), whose spelling of scores reads back.
\<close>

definition rank_outcome :: "bytes \<Rightarrow> http_outcome \<Rightarrow> bool" where
  "rank_outcome raw r =
     (case r of
        NoReply _ \<Rightarrow> True
      | Reply code _ \<Rightarrow>
          if code = 200
          then (\<exists>rt fmt refuse recovered svc sent. rank_runtime rt \<and> svc_ok svc \<and> fmt_ok fmt \<and>
                  fst (rank_handler rt fmt refuse recovered svc raw sent) = r)
          else True)"

definition rank_network :: "(nat \<Rightarrow> string \<Rightarrow> bytes \<Rightarrow> http_outcome) \<Rightarrow> bool" where
  "rank_network net = (\<forall>k url raw. rank_outcome raw (net k url raw))"

lemma honest_reply:
  assumes "rank_outcome (json_print (enc_MultiRankRequestJSON (rank_body q))) (Reply 200 b)"
    and "request_fits (rank_body q)" "check_reply q b = Inr resp"
  shows "list_all2 group_scored (mq_Groups q) (mp_Groups resp)"
proof -
  let ?raw = "json_print (enc_MultiRankRequestJSON (rank_body q))"
  obtain rt fmt refuse recovered svc sent where ok: "rank_runtime rt" "svc_ok svc" "fmt_ok fmt"
    and reply: "fst (rank_handler rt fmt refuse recovered svc ?raw sent) = Reply 200 b"
    using assms(1) by (auto simp: rank_outcome_def)
  obtain p svc' sent' where h: "Handle rt svc (rank_body q) sent = Inr (p, svc', sent')" "pj_UUID p = qj_UUID (rank_body q)"
      "list_all2 group_answer (qj_ItemGroups (rank_body q)) (pj_RankedGroups p)"
    using rank_runtime.Handle_answer[OF ok(1,2)] by blast
  have b: "b = (case enc_MultiRankResponseJSON fmt p of None \<Rightarrow> [] | Some j \<Rightarrow> json_print j @ [CHR 0x0A])"
    using reply by (simp add: rank_handler_def decode_request[OF assms(2)] h(1))
  obtain wire where wire: "unmarshal_ok dec_MultiRankResponseJSON zero_rank_response b = Some wire" "resp = rank_reply wire"
    using assms(3) by (auto simp: check_reply_def Let_def split: option.splits if_splits)
  have "json_parse [] = None" by (simp add: json_parse_def skip_ws_def)
  then obtain j where j: "enc_MultiRankResponseJSON fmt p = Some j"
    using wire(1) unfolding b by (cases "enc_MultiRankResponseJSON fmt p") (simp_all add: unmarshal_ok_def unmarshal_def)
  have "valid_utf8 (rj_Name r) \<and> list_all (\<lambda>s. fits 64 (sj_ItemID s)) (rj_ItemScores r)"
    if "group_answer g r" "group_fits g" for g r
  proof -
    have "set (map sj_ItemID (rj_ItemScores r)) \<subseteq> set (gj_ItemIDs g)"
      using that(1) set_mset_mono unfolding group_answer_def by (metis set_mset_mset)
    then show ?thesis using that by (auto simp: group_answer_def group_fits_def list_all_iff)
  qed
  then have ids: "list_all (\<lambda>r. valid_utf8 (rj_Name r) \<and> list_all (\<lambda>s. fits 64 (sj_ItemID s)) (rj_ItemScores r)) (pj_RankedGroups p)"
    using h(3) assms(2) unfolding request_fits_def list_all2_conv_all_nth list_all_length by (metis)
  then have "list_all (\<lambda>g. list_all (scores_ok fmt) (rj_ItemScores g)) (pj_RankedGroups p)"
    by (intro enc_response_spells[OF ok(3) j]) (auto simp: list_all_iff)
  then have d: "pj_RankedGroups (fst (dec_MultiRankResponseJSON zero_rank_response j)) = pj_RankedGroups p \<and> json_ok j"
    using dec_response_groups[OF _ j] ids assms(2) h(2) by (auto simp: request_fits_def list_all_iff)
  then have "json_parse b = Some j" by (simp add: b j json_ok_def json_parse_print_newline json_repair_valid)
  then have "pj_RankedGroups wire = pj_RankedGroups p"
    using wire(1) d by (auto simp: unmarshal_ok_def unmarshal_def split: prod.splits if_splits)
  then have "list_all2 group_answer (qj_ItemGroups (rank_body q)) (pj_RankedGroups wire)" using h(3) by simp
  from group_answer_reply[OF this] show ?thesis by (simp add: wire(2))
qed

lemma rank_network_tidy:
  assumes "rank_network net"
  shows "tidy (context_rank rng net sent s)"
proof -
  have "no_repeats (Some resp)"
    if f: "ctx_fits rctx" "candidates main" "fits 32 ret"
      and call: "fst (RankHTTPClient_MultiRank rng net (Some c) (main_request rctx main ret) sent) = Inr resp"
    for c rctx main ret resp
  proof -
    let ?q = "main_request rctx main ret"
    let ?raw = "json_print (enc_MultiRankRequestJSON (rank_body ?q))"
    obtain doer b st where post: "PostBytes rng net doer (rh_Path c) ?raw sent = (Inr b, st)" "check_reply ?q b = Inr resp"
      using call by (auto simp: RankHTTPClient_MultiRank_def Let_def split: option.splits prod.splits sum.splits)
    have "rank_outcome ?raw (Reply 200 b)"
      using PostBytes_reply[OF post(1)] assms unfolding rank_network_def by metis
    from honest_reply[OF this main_request_fits[OF f] post(2)]
    obtain g where g: "mp_Groups resp = [g]" "mset (map sc_ItemID (rg_Items g)) \<subseteq># mset (map it_ID main)"
      by (auto simp: main_request_def list_all2_Cons1 group_scored_def)
    then show ?thesis
      using f(2) mset_subset_distinct[of "map sc_ItemID (rg_Items g)" "map it_ID main"] by (simp add: no_repeats_def candidates_def)
  qed
  then show ?thesis
    by (auto simp: tidy_def context_rank_def as_RankClient_def map_sum_def split: option.split sum.splits)
qed

text \<open>Without a 200 from any endpoint a call fails.\<close>

lemma outage_fails:
  assumes "\<And>k url raw b. net k url raw \<noteq> Reply 200 b"
  shows "\<exists>e. as_RankClient rng net (Some c) sent req = Inl e"
proof (cases "fst (RankHTTPClient_MultiRank rng net (Some c) req sent)")
  case (Inr resp)
  then obtain doer b st where "PostBytes rng net doer (rh_Path c) (json_print (enc_MultiRankRequestJSON (rank_body req))) sent = (Inr b, st)"
    by (auto simp: RankHTTPClient_MultiRank_def Let_def split: option.splits prod.splits sum.splits)
  then show ?thesis using PostBytes_reply assms by blast
qed (simp add: as_RankClient_def)

lemma rank_outcomeI:
  "rank_runtime rt \<Longrightarrow> svc_ok svc \<Longrightarrow> fmt_ok fmt \<Longrightarrow> rank_outcome raw (fst (rank_handler rt fmt refuse recovered svc raw sent))"
  unfolding rank_outcome_def by (cases "fst (rank_handler rt fmt refuse recovered svc raw sent)") (auto, metis)

lemma demo_network: "rank_network demo_net"
  using rank_outcomeI[OF rank0.rank_runtime_axioms call_service_ok int_fmt_ok]
  by (simp add: rank_network_def demo_net_def) (simp add: rank_outcome_def)

end
