(* ===== verification/Programs.thy ===== *)
theory Programs
  imports Two_Services
begin

text \<open>
  The two programs as they run: \<open>main.go\<close> of both services, their route tables
  (\<open>handler/routes.go\<close>), and sessions of the recommend program, in which requests and the turns of the Kafka worker
  alternate in any order. Flags, the loader of configuration files and the HTTP server are those of the
  standard library and go-zero: the loader and the start of the server are parameters, and the server is
  taken to hand a request to the route with its method and path.
\<close>

section \<open>Starting\<close>

text \<open>A program exits with an error (\<open>log.Fatal\<close>, \<open>MustLoad\<close>, \<open>MustNewServer\<close>), or listens: its state and the line it prints.\<close>

datatype 'c started = Exits go_error | Listens 'c string

record ('c, 'r) rest_lib =
  gz_load :: "string \<Rightarrow> go_error + 'c \<times> 'r"
  gz_server :: "'r \<Rightarrow> go_error option"
  gz_host :: "'r \<Rightarrow> string"
  gz_port :: "'r \<Rightarrow> int"

definition configFile :: "string \<Rightarrow> string option \<Rightarrow> string" where
  "configFile usual flag = (case flag of None \<Rightarrow> usual | Some p \<Rightarrow> p)"

definition listening :: "string \<Rightarrow> ('c, 'r) rest_lib \<Rightarrow> 'r \<Rightarrow> string" where
  "listening name gz r =
     name @ '' listening on '' @ gz_host gz r @ [CHR '':''] @ Itoa (gz_port gz r) @ [CHR 0x0A]"

definition recommend_main :: "(Config, 'r) rest_lib \<Rightarrow> rank_host \<Rightarrow> string option \<Rightarrow> ServiceContext started" where
  "recommend_main gz ho flag =
     (let path = configFile ''etc/recommend-api.yaml'' flag in
      case gz_load gz path of
        Inl e \<Rightarrow> Exits e
      | Inr (c0, r) \<Rightarrow>
          (let c = ApplyEnvOverrides (ho_getenv ho) c0 in
           case gz_server gz r of
             Some e \<Rightarrow> Exits e
           | None \<Rightarrow>
               (case NewServiceContext ho c path of
                  Inl e \<Rightarrow> Exits e
                | Inr ctx \<Rightarrow> Listens ctx (listening ''recommend-api'' gz r))))"

definition rank_service_main :: "(RankConfig, 'r) rest_lib \<Rightarrow> rank_host \<Rightarrow> string option \<Rightarrow> RankService started" where
  "rank_service_main gz ho flag =
     (let path = configFile ''etc/rank-api.yaml'' flag in
      case gz_load gz path of
        Inl e \<Rightarrow> Exits e
      | Inr (c, r) \<Rightarrow>
          (case gz_server gz r of
             Some e \<Rightarrow> Exits e
           | None \<Rightarrow>
               (case NewRankService ho c path of
                  Inl e \<Rightarrow> Exits e
                | Inr svc \<Rightarrow> Listens svc (listening ''rank-api'' gz r))))"

lemma recommend_main_ok: "recommend_main gz ho flag = Listens s line \<Longrightarrow> context_ok s"
  by (auto simp: recommend_main_def Let_def dest!: NewServiceContext_ok split: sum.splits option.splits prod.splits)

lemma rank_main_ok: "rank_service_main gz ho flag = Listens svc line \<Longrightarrow> svc_ok svc"
  by (auto simp: rank_service_main_def Let_def dest!: NewRankService_ok split: sum.splits option.splits prod.splits)

section \<open>Routes\<close>

text \<open>A route table: by method and path, what a handler does with the state and a body.\<close>

type_synonym 's routes = "((string \<times> string) \<times> ('s \<Rightarrow> bytes \<Rightarrow> http_outcome \<times> 's)) list"

text \<open>The answers that come from libraries: refusing a body, an error as text, after a panic, quoting, and no route.\<close>

record server_lib =
  sl_refuse :: "bytes \<Rightarrow> bytes"
  sl_describe :: "go_error \<Rightarrow> bytes"
  sl_crash :: "go_error \<Rightarrow> bytes"
  sl_quote :: "string \<Rightarrow> string"
  sl_other :: "string \<Rightarrow> string \<Rightarrow> http_outcome"

text \<open>
  The outside at a request: Redis and the runtime, what the log needs, and the network of the rank client with
  the number of endpoints its balancer has given out by then.
\<close>

record moment =
  mo_env :: go_env
  mo_log :: log_host
  mo_rng :: "nat \<Rightarrow> nat"
  mo_net :: "nat \<Rightarrow> string \<Rightarrow> bytes \<Rightarrow> http_outcome"
  mo_sent :: "string list"
  mo_calls :: nat

definition client_after :: "(nat \<Rightarrow> nat) \<Rightarrow> nat \<Rightarrow> RankHTTPClient \<Rightarrow> RankHTTPClient" where
  "client_after rng n c =
     c\<lparr>rh_doer := map_option (\<lambda>d. d\<lparr>hd_Balancer := map_option ((\<lambda>b. snd (Next rng b)) ^^ n) (hd_Balancer d)\<rparr>) (rh_doer c)\<rparr>"

definition rank_at :: "moment \<Rightarrow> ServiceContext \<Rightarrow> RankClient option" where
  "rank_at m s =
     context_rank (mo_rng m) (mo_net m) (mo_sent m)
       (s\<lparr>sc_Rank := map_option (client_after (mo_rng m) (mo_calls m)) (sc_Rank s)\<rparr>)"

definition recommend_routes :: "server_lib \<Rightarrow> moment \<Rightarrow> ServiceContext routes" where
  "recommend_routes sl m =
     [((''GET'', ''/health''), \<lambda>s body. (health_handler, s)),
      ((''GET'', ''/v1/ready''), \<lambda>s body. (ready_handler (sl_quote sl) s, s)),
      ((''POST'', ''/v1/recommend''), \<lambda>s body.
         recommend_handler (mo_env m) (mo_log m) (sl_refuse sl) (sl_describe sl) (\<lambda>e. Reply 500 (sl_crash sl e)) (rank_at m s) s body)]"

definition rank_routes :: "server_lib \<Rightarrow> rank_env \<Rightarrow> (float32 \<Rightarrow> string option) \<Rightarrow> (RankService \<times> string list) routes" where
  "rank_routes sl rt fmt =
     [((''GET'', ''/health''), \<lambda>s body. (rank_health, s)),
      ((''POST'', ''/v1/rank/multi''), \<lambda>(svc, sent) body.
         rank_handler rt fmt (sl_refuse sl) (\<lambda>e. Reply 500 (sl_crash sl e)) svc body sent)]"

definition dispatch :: "server_lib \<Rightarrow> 's routes \<Rightarrow> string \<Rightarrow> string \<Rightarrow> bytes \<Rightarrow> 's \<Rightarrow> http_outcome \<times> 's" where
  "dispatch sl routes meth path body s =
     (case map_of routes (meth, path) of None \<Rightarrow> (sl_other sl meth path, s) | Some h \<Rightarrow> h s body)"

section \<open>Sessions of the recommend program\<close>

datatype process_event = Asked moment string string bytes | WorkerTurn

definition worker_turn :: "ServiceContext \<Rightarrow> ServiceContext" where
  "worker_turn s = (case loop_step (sc_AlgoKafka s) of None \<Rightarrow> s | Some p \<Rightarrow> s\<lparr>sc_AlgoKafka := p\<rparr>)"

fun serve :: "server_lib \<Rightarrow> ServiceContext \<Rightarrow> process_event list \<Rightarrow> http_outcome list \<times> ServiceContext" where
  "serve sl s [] = ([], s)"
| "serve sl s (Asked m meth path body # es) =
     (let (r, s1) = dispatch sl (recommend_routes sl m) meth path body s; (rs, s2) = serve sl s1 es in (r # rs, s2))"
| "serve sl s (WorkerTurn # es) = serve sl (worker_turn s) es"

fun requests :: "process_event list \<Rightarrow> (moment \<times> string \<times> string \<times> bytes) list" where
  "requests [] = []"
| "requests (Asked m meth path body # es) = (m, meth, path, body) # requests es"
| "requests (WorkerTurn # es) = requests es"

section \<open>The log of a session\<close>

text \<open>What the pool holds and has handed over, in order.\<close>

definition log_of :: "ServiceContext \<Rightarrow> string list" where
  "log_of s = po_delivered (sc_AlgoKafka s) @ in_hand (sc_AlgoKafka s) @ queued (sc_AlgoKafka s)"

text \<open>The log line a request is due: one if it is a recommendation that the logic answers.\<close>

definition due_lines :: "ServiceContext \<Rightarrow> moment \<times> string \<times> string \<times> bytes \<Rightarrow> string list" where
  "due_lines s rq =
     (case rq of (m, meth, path, body) \<Rightarrow>
        if meth = ''POST'' \<and> path = ''/v1/recommend'' then
          (case decode_first dec_RecommendRequestJSON zero_recommend_request body of
             None \<Rightarrow> []
           | Some req \<Rightarrow>
               (case answer_request (mo_env m) (route_logic (rank_at m s) s) req (request_context req) of
                  Inl _ \<Rightarrow> []
                | Inr (resp, items) \<Rightarrow> [log_line (mo_log m) s req items]))
        else [])"

text \<open>Contexts of one program differ in the content of the pool only.\<close>

definition of_program :: "ServiceContext \<Rightarrow> ServiceContext \<Rightarrow> bool" where
  "of_program s0 s = (context_ok s \<and> s = s0\<lparr>sc_AlgoKafka := sc_AlgoKafka s\<rparr>)"

lemma pushAlgoLog_keeps:
  "pushAlgoLog lh l req ctx items = Inr l' \<Longrightarrow> rm_AlgoKafka l = Some p \<Longrightarrow> rm_AlgoKafka l' = Some p' \<Longrightarrow>
   po_delivered p' = po_delivered p \<and> in_hand p' = in_hand p"
  by (auto simp: pushAlgoLog_def Push_def and_then_Inr in_hand_def Let_def split: if_splits option.splits)

lemma answer_pool: "answer_request env (l\<lparr>rm_AlgoKafka := p\<rparr>) req rctx = answer_request env l req rctx"
proof -
  let ?l = "l\<lparr>rm_AlgoKafka := p\<rparr>"
  have fields: "rm_Features ?l = rm_Features l" "rm_Funnel ?l = rm_Funnel l" "rm_centerPL ?l = rm_centerPL l"
    "rm_Recall ?l = rm_Recall l" by simp_all
  have parts: "rankAndShowFunnel ?l = rankAndShowFunnel l" "funnel_loadExposure env ?l = funnel_loadExposure env l"
    "stubRankResponse ?l = stubRankResponse l"
    by (intro ext; simp add: rankAndShowFunnel_def funnel_loadExposure_def stubRankResponse_def)+
  show ?thesis unfolding answer_request_def handleFunnel_def fields parts by (rule refl)
qed

lemma answer_program:
  assumes "of_program s0 s"
  shows "answer_request env (route_logic (rank_at m s) s) req rctx = answer_request env (route_logic (rank_at m s0) s0) req rctx"
proof -
  obtain p where p: "s = s0\<lparr>sc_AlgoKafka := p\<rparr>" using assms by (auto simp: of_program_def)
  have "rank_at m s = rank_at m s0" by (simp add: rank_at_def context_rank_def p)
  moreover have "route_logic r s = (route_logic r s0)\<lparr>rm_AlgoKafka := Some p\<rparr>" for r
    by (simp add: route_logic_def p Let_def)
  ultimately show ?thesis by (simp only: answer_pool)
qed

lemma due_lines_program:
  assumes "context_ok s0" "of_program s0 s"
  shows "due_lines s rq = due_lines s0 rq"
proof -
  obtain p where p: "s = s0\<lparr>sc_AlgoKafka := p\<rparr>" using assms(2) by (auto simp: of_program_def)
  have cfg: "po_cfg p = po_cfg (sc_AlgoKafka s0)"
    using assms by (simp add: of_program_def context_ok_def pool_ok_def p)
  have line: "log_line lh s req items = log_line lh s0 req items" for lh req items
    by (simp add: log_line_def log_input_def APIType_def DataType_def cfg p)
  show ?thesis unfolding due_lines_def answer_program[OF assms(2)] line by (rule refl)
qed

definition room :: "ServiceContext \<Rightarrow> bool" where
  "room s = (EnabledOn (co_KafkaPush (sc_Config s)) \<and>
     int (length (queued (sc_AlgoKafka s))) < queueSize (co_KafkaPush (sc_Config s)))"

lemma recommend_log:
  assumes "context_ok s"
    and "recommend_handler (mo_env m) (mo_log m) refuse describe recovered (rank_at m s) s body = (r, s')"
  shows "\<exists>p. s' = s\<lparr>sc_AlgoKafka := p\<rparr> \<and> context_ok s' \<and>
    (let ms = (if room s then due_lines s (m, ''POST'', ''/v1/recommend'', body) else []) in
     log_of s' = log_of s @ ms \<and> queued p = queued (sc_AlgoKafka s) @ ms)"
proof (cases "decode_first dec_RecommendRequestJSON zero_recommend_request body")
  case None
  then have "s' = s" using assms(2) by (simp add: recommend_handler_def)
  then show ?thesis using assms(1) None by (intro exI[of _ "sc_AlgoKafka s"]) (simp add: due_lines_def)
next
  case (Some req)
  let ?l = "route_logic (rank_at m s) s"
  show ?thesis
  proof (cases "answer_request (mo_env m) ?l req (request_context req)")
    case (Inl e)
    then have "s' = s" using assms(2) Some by (simp add: recommend_handler_def Recommend_Handle_def Let_def)
    then show ?thesis using assms(1) Some Inl by (intro exI[of _ "sc_AlgoKafka s"]) (simp add: due_lines_def)
  next
    case (Inr ri)
    obtain resp items where ri: "ri = (resp, items)" by (cases ri)
    obtain p where p: "pushAlgoLog (mo_log m) ?l req (request_context req) items = Inr (?l\<lparr>rm_AlgoKafka := Some p\<rparr>)"
        "pool_ok (co_KafkaPush (sc_Config s)) p" "po_close p = Open"
        "queued p = queued (sc_AlgoKafka s) @ (if room s then [log_line (mo_log m) s req items] else [])"
      using pushAlgoLog_route[OF assms(1), of "mo_log m" "rank_at m s" req items] unfolding room_def by blast
    have keeps: "po_delivered p = po_delivered (sc_AlgoKafka s)" "in_hand p = in_hand (sc_AlgoKafka s)"
      using pushAlgoLog_keeps[OF p(1) route_logic_pool] by simp_all
    have s': "s' = s\<lparr>sc_AlgoKafka := p\<rparr>"
      using assms(2) Some Inr p(1) by (simp add: recommend_handler_def Recommend_Handle_def ri Let_def)
    then show ?thesis
      using assms(1) p(2-4) keeps Some Inr by (intro exI[of _ p]) (simp add: log_of_def due_lines_def context_ok_def ri)
  qed
qed

lemma worker_log:
  assumes "of_program s0 s"
  shows "of_program s0 (worker_turn s) \<and> log_of (worker_turn s) = log_of s \<and>
    length (queued (sc_AlgoKafka (worker_turn s))) \<le> length (queued (sc_AlgoKafka s))"
proof (cases "loop_step (sc_AlgoKafka s)")
  case (Some p)
  have ok: "pool_ok (co_KafkaPush (sc_Config s)) (sc_AlgoKafka s)" "po_close (sc_AlgoKafka s) = Open"
    using assms by (simp_all add: of_program_def context_ok_def)
  have p: "pool_ok (co_KafkaPush (sc_Config s)) p" "po_close p = Open" "length (queued p) \<le> length (queued (sc_AlgoKafka s))"
    using step_ok[OF ok(1) work[OF Some]] ok(2) Some
    by (auto simp: loop_step_def queued_def split: worker.splits option.splits list.splits if_splits)
  show ?thesis
    using assms p step_log[OF ok(1) work[OF Some]]
    by (simp add: worker_turn_def Some of_program_def context_ok_def log_of_def accepts_def)
      (metis ServiceContext.surjective ServiceContext.update_convs(7))
qed (use assms in \<open>simp add: worker_turn_def\<close>)

section \<open>What a session gives\<close>

definition recommend_reply :: "ServiceContext \<Rightarrow> moment \<Rightarrow> bytes \<Rightarrow> http_outcome \<Rightarrow> bool" where
  "recommend_reply s m body r =
     (case r of
        NoReply _ \<Rightarrow> False
      | Reply code b \<Rightarrow>
          (case decode_first dec_RecommendRequestJSON zero_recommend_request body of
             None \<Rightarrow> code = 400
           | Some req \<Rightarrow>
               (case answer_request (mo_env m) (route_logic (rank_at m s) s) req (request_context req) of
                  Inl _ \<Rightarrow> code = 500
                | Inr (resp, _) \<Rightarrow>
                    code = 200 \<and> json_parse b = Some (json_repair (enc_RecommendResponseJSON resp)) \<and> reply_sound req resp)))"

definition answered :: "server_lib \<Rightarrow> ServiceContext \<Rightarrow> moment \<times> string \<times> string \<times> bytes \<Rightarrow> http_outcome \<Rightarrow> bool" where
  "answered sl s rq r =
     (case rq of (m, meth, path, body) \<Rightarrow>
        if meth = ''GET'' \<and> path = ''/health'' then r = Reply 200 ''ok''
        else if meth = ''GET'' \<and> path = ''/v1/ready'' then r = ready_handler (sl_quote sl) s
        else if meth = ''POST'' \<and> path = ''/v1/recommend'' then recommend_reply s m body r
        else r = sl_other sl meth path)"

text \<open>
  What a moment has to offer: the runtime's bounds, and endpoints that are rank services as far as they answer with 200.
  Any of them may be down, refuse or fail, and the context may have no rank client at all.
\<close>

definition moment_ok :: "moment \<Rightarrow> bool" where
  "moment_ok m = (go_runtime (mo_env m) \<and> rank_network (mo_net m))"

lemma moment_tidy: "moment_ok m \<Longrightarrow> tidy (rank_at m s)"
  unfolding moment_ok_def rank_at_def by (rule rank_network_tidy) simp

lemma of_program_rank:
  assumes "of_program s0 s"
  shows "rank_at m s = rank_at m s0" "ready_handler q s = ready_handler q s0" "sc_Config s = sc_Config s0"
proof -
  obtain p where "s = s0\<lparr>sc_AlgoKafka := p\<rparr>" using assms by (auto simp: of_program_def)
  then show "rank_at m s = rank_at m s0" "ready_handler q s = ready_handler q s0" "sc_Config s = sc_Config s0"
    by (simp_all add: rank_at_def context_rank_def ready_handler_def)
qed

lemma recommend_step:
  assumes "context_ok s0" "of_program s0 s" "moment_ok m"
    and "recommend_handler (mo_env m) (mo_log m) refuse describe (\<lambda>e. Reply 500 (crash e)) (rank_at m s) s body = (r, s')"
  shows "recommend_reply s0 m body r \<and> of_program s0 s' \<and>
    (let ms = (if room s then due_lines s0 (m, ''POST'', ''/v1/recommend'', body) else []) in
     log_of s' = log_of s @ ms \<and> queued (sc_AlgoKafka s') = queued (sc_AlgoKafka s) @ ms)"
proof -
  have s: "context_ok s" "s = s0\<lparr>sc_AlgoKafka := sc_AlgoKafka s\<rparr>" using assms(2) by (simp_all add: of_program_def)
  have env: "go_runtime (mo_env m)" using assms(3) by (simp add: moment_ok_def)
  let ?d = "decode_first dec_RecommendRequestJSON zero_recommend_request body"
  note ra = route_answers[OF s(1), where body = body and env = "mo_env m" and lh = "mo_log m" and refuse = refuse and describe = describe
      and recovered = "\<lambda>e. Reply 500 (crash e)" and rank = "rank_at m s", unfolded assms(4)]
  have "recommend_reply s m body r"
  proof (cases ?d)
    case None
    then show ?thesis using ra by (simp add: recommend_reply_def)
  next
    case (Some req)
    note fits = decoded_request_fits[OF Some]
    have "reply_sound req resp"
      if "answer_request (mo_env m) (route_logic (rank_at m s) s) req (request_context req) = Inr (resp, items)" for resp items
      by (rule answer_sound[OF env moment_tidy[OF assms(3)] request_context_fits[OF fits] fits that])
    then show ?thesis using ra Some by (auto simp: recommend_reply_def split: sum.splits http_outcome.splits if_splits)
  qed
  then have "recommend_reply s0 m body r" unfolding recommend_reply_def answer_program[OF assms(2)] .
  moreover obtain p where "s' = s\<lparr>sc_AlgoKafka := p\<rparr>" "context_ok s'"
      "let ms = (if room s then due_lines s0 (m, ''POST'', ''/v1/recommend'', body) else []) in
       log_of s' = log_of s @ ms \<and> queued p = queued (sc_AlgoKafka s) @ ms"
    using recommend_log[OF s(1) assms(4)] unfolding due_lines_program[OF assms(1,2)] by blast
  moreover have "s\<lparr>sc_AlgoKafka := p\<rparr> = s0\<lparr>sc_AlgoKafka := p\<rparr>" by (subst s(2)) simp
  ultimately show ?thesis by (simp add: of_program_def)
qed

lemma request_step:
  assumes "context_ok s0" "of_program s0 s" "moment_ok m"
    and "dispatch sl (recommend_routes sl m) meth path body s = (r, s')"
  shows "answered sl s0 (m, meth, path, body) r \<and> of_program s0 s' \<and>
    (let ms = (if room s then due_lines s0 (m, meth, path, body) else []) in
     log_of s' = log_of s @ ms \<and> queued (sc_AlgoKafka s') = queued (sc_AlgoKafka s) @ ms)"
proof (cases "meth = ''POST'' \<and> path = ''/v1/recommend''")
  case True
  then show ?thesis
    using recommend_step[OF assms(1-3), of "sl_refuse sl" "sl_describe sl" "sl_crash sl" body r s'] assms(4)
    by (simp add: dispatch_def recommend_routes_def answered_def Let_def)
next
  case False
  then have "due_lines s0 (m, meth, path, body) = []" by (auto simp: due_lines_def)
  then show ?thesis
    using False assms(2,4) of_program_rank[OF assms(2)]
    by (auto simp: dispatch_def recommend_routes_def answered_def health_handler_def split: if_splits)
qed

definition due :: "ServiceContext \<Rightarrow> process_event list \<Rightarrow> string list" where
  "due s es = concat (map (due_lines s) (requests es))"

definition logged :: "ServiceContext \<Rightarrow> nat \<Rightarrow> string list \<Rightarrow> string list \<Rightarrow> bool" where
  "logged s waiting lines ms =
     (let cfg = co_KafkaPush (sc_Config s) in
      subseq ms lines \<and> (if EnabledOn cfg then int (waiting + length lines) \<le> queueSize cfg \<longrightarrow> ms = lines else ms = []))"

lemma serve_session:
  assumes "context_ok s0" "of_program s0 s" "list_all (\<lambda>(m, _). moment_ok m) (requests es)"
  shows "case serve sl s es of (rs, s') \<Rightarrow>
    list_all2 (answered sl s0) (requests es) rs \<and> of_program s0 s' \<and>
    (\<exists>ms. log_of s' = log_of s @ ms \<and> logged s0 (length (queued (sc_AlgoKafka s))) (due s0 es) ms)"
  using assms(2,3)
proof (induction sl s es rule: serve.induct)
  case (1 sl s)
  then show ?case by (simp add: logged_def due_def Let_def)
next
  case (2 sl s m meth path body es)
  obtain r s1 where d: "dispatch sl (recommend_routes sl m) meth path body s = (r, s1)"
    by (cases "dispatch sl (recommend_routes sl m) meth path body s")
  have m: "moment_ok m" "list_all (\<lambda>(m, _). moment_ok m) (requests es)" using 2(3) by simp_all
  note step = request_step[OF assms(1) 2(2) m(1) d]
  obtain rs s' where rs: "serve sl s1 es = (rs, s')" by (cases "serve sl s1 es")
  let ?line = "due_lines s0 (m, meth, path, body)" and ?w = "length (queued (sc_AlgoKafka s))"
  define now where "now = (if room s then ?line else [])"
  have q: "length (queued (sc_AlgoKafka s1)) = ?w + length now" "log_of s1 = log_of s @ now"
    using step by (simp_all add: now_def Let_def)
  obtain ms where ms: "log_of s' = log_of s1 @ ms" "logged s0 (?w + length now) (due s0 es) ms"
    and rest: "list_all2 (answered sl s0) (requests es) rs" "of_program s0 s'"
    using 2(1)[OF d[symmetric] refl _ m(2)] step unfolding rs q(1) by auto
  have room: "room s = (EnabledOn (co_KafkaPush (sc_Config s0)) \<and> int ?w < queueSize (co_KafkaPush (sc_Config s0)))"
    by (simp add: room_def of_program_rank(3)[OF 2(2)])
  have full: "[] = ?line" if "int ?w + (int (length ?line) + int n) \<le> Q" "\<not> int ?w < Q" for n Q
    using that by (cases ?line) auto
  have "length ?line \<le> 1" by (auto simp: due_lines_def split: option.split sum.split prod.split)
  then have "logged s0 ?w (due s0 (Asked m meth path body # es)) (now @ ms)"
    using ms(2) by (auto simp: logged_def due_def now_def room Let_def list_emb_append_mono intro: full split: if_splits)
  then have "log_of s' = log_of s @ (now @ ms) \<and> logged s0 ?w (due s0 (Asked m meth path body # es)) (now @ ms)"
    using ms(1) q(2) by simp
  then show ?case using step rest by (auto simp: d rs)
next
  case (3 sl s es)
  from worker_log[OF 3(2)] have w: "of_program s0 (worker_turn s)" "log_of (worker_turn s) = log_of s"
    "length (queued (sc_AlgoKafka (worker_turn s))) \<le> length (queued (sc_AlgoKafka s))" by simp_all
  have "requests (WorkerTurn # es) = requests es" "due s0 (WorkerTurn # es) = due s0 es" by (simp_all add: due_def)
  then show ?case using 3(1)[OF w(1)] 3(3) w(2,3) by (fastforce simp: logged_def Let_def split: prod.splits if_splits)
qed

text \<open>C2: once \<open>main\<close> of the recommend service listens, every session of requests, in any order with the turns of
  the Kafka worker and with the outside changing between them, is answered request by request: the health and
  ready routes as fixed by the configuration; a recommendation with 400 when its body does not decode, with 500 when
  the logic fails, and otherwise with the logic's response, which has distinct items, at most as many as asked for; every other path by the
  server. The context changes in its log pool only, and the pool holds and has handed over a subsequence of the due log
  lines in request order: all of them when they fit the queue, none when logging is off. There need be no rank
  client, and endpoints may be down or answer errors; those that answer with 200 are taken to be rank services.\<close>

theorem recommend_program_serves:
  assumes "recommend_main gz ho flag = Listens s line" "list_all (\<lambda>(m, _). moment_ok m) (requests es)"
  shows "case serve sl s es of (rs, s') \<Rightarrow>
    list_all2 (answered sl s) (requests es) rs \<and> context_ok s' \<and> s' = s\<lparr>sc_AlgoKafka := sc_AlgoKafka s'\<rparr>
    \<and> logged s 0 (due s es) (log_of s')"
proof -
  obtain cfg where "sc_AlgoKafka s = New cfg"
    using assms(1) by (auto simp: recommend_main_def NewServiceContext_def and_then_Inr Let_def
        split: sum.splits option.splits prod.splits)
  then have "log_of s = []" "queued (sc_AlgoKafka s) = []" using New_log[of cfg] by (simp_all add: log_of_def)
  moreover have ok: "context_ok s" by (rule recommend_main_ok[OF assms(1)])
  moreover have "of_program s s" using ok by (simp add: of_program_def)
  ultimately show ?thesis using serve_session[OF ok _ assms(2), of s] by (auto simp: of_program_def)
qed

definition demo_gz :: "(Config, string) rest_lib" where
  "demo_gz = \<lparr>gz_load = \<lambda>path. Inr (linked_config, ''0.0.0.0''), gz_server = \<lambda>r. None, gz_host = id, gz_port = \<lambda>r. 8888\<rparr>"

definition demo_host :: rank_host where
  "demo_host = \<lparr>ho_getenv = \<lambda>v. [], ho_decrypt = \<lambda>k b. b, ho_dial = \<lambda>a p d. Inl (BackendError ''none''),
     ho_read_file = \<lambda>p. Inl (BackendError ''none''), ho_float = \<lambda>s. None, ho_is_abs = \<lambda>p. True, ho_beside = \<lambda>a b. b\<rparr>"

definition demo_moment :: moment where
  "demo_moment = \<lparr>mo_env = go_env0, mo_log = stub_host, mo_rng = \<lambda>_. 0, mo_net = demo_net, mo_sent = [], mo_calls = 0\<rparr>"

text \<open>The same moment with no endpoint reachable.\<close>

definition outage :: moment where
  "outage = demo_moment\<lparr>mo_net := \<lambda>k url raw. NoReply (TransportError ''down'')\<rparr>"

definition demo_server :: server_lib where
  "demo_server = \<lparr>sl_refuse = id, sl_describe = \<lambda>e. [], sl_crash = \<lambda>e. [], sl_quote = id, sl_other = \<lambda>m p. Reply 404 []\<rparr>"

definition demo_session :: "process_event list" where
  "demo_session =
     [Asked demo_moment ''GET'' ''/health'' [], WorkerTurn, Asked demo_moment ''POST'' ''/v1/recommend'' [CHR 0x7B, CHR 0x7D],
      WorkerTurn, Asked outage ''POST'' ''/v1/recommend'' [CHR 0x7B, CHR 0x7D], WorkerTurn]"

lemma demo_main: "recommend_main demo_gz demo_host None = 
  Listens linked_context (listening ''recommend-api'' demo_gz ''0.0.0.0'')"
proof -
  have trim: "TrimSpace [] = []" by (simp add: TrimSpace_def trim_right_def)
  have env: "ApplyEnvOverrides (ho_getenv demo_host) linked_config = linked_config"
    by (simp add: ApplyEnvOverrides_def override_redis_def override_kafka_def env_override_def demo_host_def trim Let_def)
  have eps: "RankEndpoints linked_config =
      \<lparr>ep_BaseURL = [], ep_Endpoints = [''http://a'', ''http://b''], ep_LoadBalance = ''round_robin''\<rparr>"
    by (simp add: RankEndpoints_def linked_config_def)
  have "NewBalancer [''http://a'', ''http://b''] ''round_robin'' = Some (roundRobin [''http://a'', ''http://b''] 0)"
    by code_simp
  then have "NewServiceContext demo_host linked_config path = Inr linked_context" for path
    by (simp add: NewServiceContext_def load_rank_client_def eps demo_resolve NewRankHTTPClient_def NewHTTPDoer_def
        NewFetcher_def load_center_def load_funnel_def load_optional_def)
      (simp add: linked_context_def linked_config_def stub_config_def stub_context_def link_client_def demo_link_def Let_def)
  then show ?thesis by (simp add: recommend_main_def demo_gz_def env Let_def)
qed

lemma demo_moment_ok: "moment_ok demo_moment"
  using env0.go_runtime_axioms demo_network by (simp add: moment_ok_def demo_moment_def)

lemma outage_ok: "moment_ok outage"
  using env0.go_runtime_axioms by (simp add: moment_ok_def outage_def demo_moment_def rank_network_def rank_outcome_def)

lemma demo_answers:
  "answer_request go_env0 (route_logic (rank_at demo_moment linked_context) linked_context) zero_recommend_request
     (request_context zero_recommend_request) = Inr demo_reply"
proof -
  have rank: "rank_at demo_moment linked_context = Some (link_rank demo_link)"
    using context_rank_link[of "linked_context\<lparr>sc_Rank := Some (link_client demo_link)\<rparr>" demo_link]
    by (simp add: rank_at_def demo_moment_def linked_rank client_after_def link_client_def demo_link_def)
  have "recommend_fits zero_recommend_request" by (simp add: recommend_fits_def zero_recommend_request_def fits_def)
  then show ?thesis
    using answer_agree[OF env0.go_runtime_axioms link_total_agrees[OF demo_link_total] request_context_fits] demo_answer
    by (simp add: rank)
qed

lemma outage_answers:
  "\<exists>e. answer_request go_env0 (route_logic (rank_at outage linked_context) linked_context) req ctx = Inl e"
proof -
  obtain c where rank: "rank_at outage linked_context = Some (as_RankClient (\<lambda>_. 0) (\<lambda>k url raw. NoReply (TransportError ''down'')) (Some c) [])"
    by (simp add: rank_at_def outage_def demo_moment_def linked_rank context_rank_def)
  define r where "r = as_RankClient (\<lambda>_. 0) (\<lambda>k url raw. NoReply (TransportError ''down'')) (Some c) []"
  have l: "route_logic (Some r) linked_context = (NewRecommend (Some r) (Some NoOp))\<lparr>rm_AlgoKafka := Some (New small_config)\<rparr>"
    by (simp add: route_logic_def linked_context_def stub_context_def Let_def)
  have fails: "\<exists>e. r q = Inl e" for q unfolding r_def by (rule outage_fails) simp
  have "\<exists>e. rank_step (Some r) ctx stub_items = Inl e"
    using fails[of "whole_request ctx stub_items"] by (auto simp: rank_step_call stub_items_def)
  then show ?thesis
    unfolding rank r_def[symmetric] l by (auto simp: answer_request_def NewRecommend_def stubRankResponse_def rank_only_def Pipeline_Run_def)
qed

lemma demo_due: "length (due linked_context demo_session) = 1"
proof -
  obtain e where "answer_request go_env0 (route_logic (rank_at outage linked_context) linked_context) zero_recommend_request
      (request_context zero_recommend_request) = Inl e" using outage_answers by blast
  then show ?thesis
    using demo_answers by (simp add: due_def demo_session_def due_lines_def decode_empty_object case_prod_beta)
      (simp add: demo_moment_def outage_def case_prod_beta)
qed

text \<open>A session with two recommendations, the second in an outage: the server says it is well, recommends, fails with
  500, and has logged one line.\<close>

lemma recommend_program_serves_witness:
  "case serve demo_server linked_context demo_session of (rs, s') \<Rightarrow>
     length rs = 3 \<and> hd rs = Reply 200 ''ok''
     \<and> (case rs ! 1 of NoReply _ \<Rightarrow> False
        | Reply code b \<Rightarrow> code = 200 \<and> json_parse b = Some (json_repair (enc_RecommendResponseJSON (fst demo_reply))))
     \<and> (case rs ! 2 of NoReply _ \<Rightarrow> False | Reply code b \<Rightarrow> code = 500)
     \<and> length (log_of s') = 1"
proof -
  have ok: "list_all (\<lambda>(m, _). moment_ok m) (requests demo_session)"
    by (simp add: demo_session_def demo_moment_ok outage_ok)
  have cfg: "EnabledOn (co_KafkaPush (sc_Config linked_context))" "queueSize (co_KafkaPush (sc_Config linked_context)) = 1"
    by (simp_all add: linked_context_def linked_config_def stub_context_def stub_config_def small_config_def EnabledOn_def queueSize_def)
  have l: "logged linked_context 0 (due linked_context demo_session) ms \<Longrightarrow> length ms = 1" for ms
    by (auto simp: logged_def cfg demo_due Let_def)
  have env: "mo_env demo_moment = go_env0" "mo_env outage = go_env0" by (simp_all add: outage_def demo_moment_def)
  obtain e where out: "answer_request go_env0 (route_logic (rank_at outage linked_context) linked_context) zero_recommend_request
      (request_context zero_recommend_request) = Inl e" using outage_answers by blast
  obtain rs s' where run: "serve demo_server linked_context demo_session = (rs, s')"
    by (cases "serve demo_server linked_context demo_session")
  have all: "list_all2 (answered demo_server linked_context) (requests demo_session) rs" and
    log: "logged linked_context 0 (due linked_context demo_session) (log_of s')"
    using recommend_program_serves[OF demo_main ok, where sl = demo_server] by (simp_all add: run)
  obtain r0 r1 r2 where rs: "rs = [r0, r1, r2]" and r: "r0 = Reply 200 ''ok''"
      "recommend_reply linked_context demo_moment [CHR 0x7B, CHR 0x7D] r1" "recommend_reply linked_context outage [CHR 0x7B, CHR 0x7D] r2"
    using all by (auto simp: demo_session_def answered_def list_all2_Cons1)
  have "case r1 of NoReply _ \<Rightarrow> False
      | Reply code b \<Rightarrow> code = 200 \<and> json_parse b = Some (json_repair (enc_RecommendResponseJSON (fst demo_reply)))"
    using r(2) by (cases r1) (simp_all add: recommend_reply_def decode_empty_object env demo_answers case_prod_beta)
  moreover have "case r2 of NoReply _ \<Rightarrow> False | Reply code b \<Rightarrow> code = 500"
    using r(3) by (cases r2) (simp_all add: recommend_reply_def decode_empty_object env out)
  ultimately show ?thesis using r(1) l[OF log] by (simp add: run rs numeral_2_eq_2)
qed

section \<open>Sessions of the rank program\<close>

type_synonym rank_asked = "rank_env \<times> (float32 \<Rightarrow> string option) \<times> string \<times> string \<times> bytes"

fun rank_serve :: "server_lib \<Rightarrow> RankService \<times> string list \<Rightarrow> rank_asked list \<Rightarrow> http_outcome list \<times> RankService \<times> string list" where
  "rank_serve sl s [] = ([], s)"
| "rank_serve sl s ((rt, fmt, meth, path, body) # rqs) =
     (let (r, s1) = dispatch sl (rank_routes sl rt fmt) meth path body s; (rs, s2) = rank_serve sl s1 rqs in (r # rs, s2))"

definition rank_answered :: "server_lib \<Rightarrow> rank_asked \<Rightarrow> http_outcome \<Rightarrow> bool" where
  "rank_answered sl rq r =
     (case rq of (rt, fmt, meth, path, body) \<Rightarrow>
        if meth = ''GET'' \<and> path = ''/health'' then r = Reply 200 ''ok''
        else if meth = ''POST'' \<and> path = ''/v1/rank/multi'' then
          (case decode_first dec_MultiRankRequestJSON zero_rank_request body of
             None \<Rightarrow> r = Reply 400 (sl_refuse sl body)
           | Some req \<Rightarrow>
               (\<exists>resp. r = Reply 200 (case enc_MultiRankResponseJSON fmt resp of None \<Rightarrow> [] | Some j \<Rightarrow> json_print j @ [CHR 0x0A]) \<and>
                  pj_UUID resp = qj_UUID req \<and> pj_UserID resp = qj_UserID req \<and>
                  list_all2 group_answer (qj_ItemGroups req) (pj_RankedGroups resp)))
        else r = sl_other sl meth path)"

definition same_registry :: "RankService \<Rightarrow> RankService \<Rightarrow> bool" where
  "same_registry svc svc' = (svc_ok svc' \<and> rs_engines svc' = rs_engines svc \<and> rs_rankExp svc' = rs_rankExp svc)"

lemma rank_request_step:
  assumes "rank_runtime rt" "svc_ok svc" "dispatch sl (rank_routes sl rt fmt) meth path body (svc, sent) = (r, svc', sent')"
  shows "rank_answered sl (rt, fmt, meth, path, body) r \<and> same_registry svc svc'"
proof -
  have "rank_answered sl (rt, fmt, ''POST'', ''/v1/rank/multi'', body) r \<and> same_registry svc svc'"
    if "rank_handler rt fmt (sl_refuse sl) (\<lambda>e. Reply 500 (sl_crash sl e)) svc body sent = (r, svc', sent')"
  proof (cases "decode_first dec_MultiRankRequestJSON zero_rank_request body")
    case (Some req)
    then show ?thesis
      using rank_runtime.Handle_answer[OF assms(1,2), of req sent] that
      by (auto simp: rank_handler_def rank_answered_def same_registry_def)
  qed (use that assms(2) in \<open>auto simp: rank_handler_def rank_answered_def same_registry_def\<close>)
  then show ?thesis
    using assms(2,3) by (auto simp: dispatch_def rank_routes_def rank_answered_def rank_health_def same_registry_def split: if_splits)
qed

lemma rank_session:
  assumes "svc_ok svc" "list_all (\<lambda>(rt, _). rank_runtime rt) rqs" "rank_serve sl (svc, sent) rqs = (rs, svc', sent')"
  shows "list_all2 (rank_answered sl) rqs rs \<and> same_registry svc svc'"
  using assms
proof (induction rqs arbitrary: svc sent rs)
  case (Cons rq rqs)
  obtain rt fmt meth path body where rq: "rq = (rt, fmt, meth, path, body)" by (cases rq)
  obtain r svc1 sent1 where d: "dispatch sl (rank_routes sl rt fmt) meth path body (svc, sent) = (r, svc1, sent1)"
    by (cases "dispatch sl (rank_routes sl rt fmt) meth path body (svc, sent)") auto
  obtain rs' where rs: "rank_serve sl (svc1, sent1) rqs = (rs', svc', sent')" "rs = r # rs'"
    using Cons.prems(3) by (auto simp: rq d split: prod.splits)
  have "rank_answered sl rq r" "same_registry svc svc1"
    using rank_request_step[OF _ Cons.prems(1) d] Cons.prems(2) by (simp_all add: rq)
  then show ?case using Cons.IH[of svc1 sent1 rs'] Cons.prems(2) rs by (simp add: same_registry_def)
qed (simp add: same_registry_def)

text \<open>C3: once \<open>main\<close> of the rank service listens, every session is answered request by request: a body that does not
  decode with 400, any other rank request with 200 and one ranked group per group of the request, by name and with
  candidates of that group only; the registry of engines stays as it was built.\<close>

theorem rank_program_serves:
  assumes "rank_service_main gz ho flag = Listens svc line" "list_all (\<lambda>(rt, _). rank_runtime rt) rqs"
  shows "case rank_serve sl (svc, []) rqs of (rs, svc', _) \<Rightarrow>
    list_all2 (rank_answered sl) rqs rs \<and> same_registry svc svc'"
  using rank_session[OF rank_main_ok[OF assms(1)] assms(2)] by (auto split: prod.split)

definition demo_rank_gz :: "(RankConfig, string) rest_lib" where
  "demo_rank_gz =
     \<lparr>gz_load = \<lambda>path. Inr
        (\<lparr>cf_RankEngine = (eg_cfg mock_engine)\<lparr>rk_Mode := ''mock''\<rparr>, cf_RankProfiles = [], cf_RankModelBundles = [],
          cf_RankExpConfPath = [],
          cf_FeatureRedis = \<lparr>fr_Disabled = True, fr_Host = [], fr_Port = 0, fr_DB = 0, fr_Crypto = False, fr_PasswordHex = [],
            fr_UserKeyPattern = [], fr_ItemKeyPattern = []\<rparr>\<rparr>, ''0.0.0.0''),
      gz_server = \<lambda>r. None, gz_host = id, gz_port = \<lambda>r. 9999\<rparr>"

lemma demo_rank_main: "rank_service_main demo_rank_gz demo_host None = Listens call_service (listening ''rank-api'' demo_rank_gz ''0.0.0.0'')"
proof -
  let ?tf = "rk_TFServing (eg_cfg mock_engine)"
  have "Resolve (TFEndpoints ?tf) = []"
    by (simp add: TFEndpoints_def mock_engine_def Resolve_def normalize_url_def TrimSpace_def trim_right_def Let_def)
  then have tf: "NewTFPredictor ?tf = Inr None" by (simp add: NewTFPredictor_def)
  have "new_engine demo_host NoOp ((eg_cfg mock_engine)\<lparr>rk_Mode := ''mock''\<rparr>) =
      Inr (mock_engine\<lparr>eg_cfg := (eg_cfg mock_engine)\<lparr>rk_Mode := ''mock''\<rparr>\<rparr>)"
    using tf by (simp add: new_engine_def NewEngine_def mock_engine_def)
  then show ?thesis
    by (simp add: rank_service_main_def demo_rank_gz_def NewRankService_def NewFetcher_def AsFeaturestore_def load_rank_exp_def
        call_service_def mock_service_def Let_def)
qed

lemma rank_program_serves_witness:
  "case rank_serve demo_server (call_service, [])
      [(rank_env0, int_fmt, ''GET'', ''/health'', []), (rank_env0, int_fmt, ''POST'', ''/v1/rank/multi'', [CHR 0x7B, CHR 0x7D])] of
     (rs, svc, _) \<Rightarrow> length rs = 2 \<and> hd rs = Reply 200 ''ok'' \<and> (\<exists>b. rs ! 1 = Reply 200 b) \<and> same_registry call_service svc"
proof -
  have dec: "decode_first dec_MultiRankRequestJSON zero_rank_request [CHR 0x7B, CHR 0x7D] = Some zero_rank_request"
    by (simp add: decode_first_def numeral_2_eq_2 skip_ws_def is_json_ws_def expect_def dec_MultiRankRequestJSON_def dec_struct_def)
  show ?thesis
    using rank_program_serves[OF demo_rank_main, where sl = demo_server
        and rqs = "[(rank_env0, int_fmt, ''GET'', ''/health'', []), (rank_env0, int_fmt, ''POST'', ''/v1/rank/multi'', [CHR 0x7B, CHR 0x7D])]"]
      rank0.rank_runtime_axioms
    by (auto simp: rank_answered_def dec list_all2_Cons1 simp del: rank_serve.simps split: prod.splits)
qed

end
