(* ===== verification/Kafka_Consume.thy ===== *)
theory Kafka_Consume
  imports Main "HOL-Library.Sublist"
begin

text \<open>
  \<open>scripts/kafka_consume_latest.go\<close>: a command that reads a topic from its first offset until the deadline, a
  failed read or a message that contains the text asked for, and prints one message. The clock and the reader
  are outside: a turn of the loop is the answer of the clock and the outcome of the read.
\<close>

record turn =
  tu_in_time :: bool
  tu_read :: "string option"

datatype printed = Printed string | NothingReceived

definition Contains :: "string \<Rightarrow> string \<Rightarrow> bool" where
  "Contains s part = sublist part s"

fun read_loop :: "string \<Rightarrow> turn list \<Rightarrow> string \<Rightarrow> string" where
  "read_loop wanted [] latest = latest"
| "read_loop wanted (t # ts) latest =
     (if \<not> tu_in_time t then latest
      else
        (case tu_read t of
           None \<Rightarrow> latest
         | Some s \<Rightarrow> if wanted \<noteq> [] \<and> Contains s wanted then s else read_loop wanted ts s))"

definition consume_main :: "string \<Rightarrow> turn list \<Rightarrow> printed" where
  "consume_main wanted ts =
     (let latest = read_loop wanted ts [] in if latest = [] then NothingReceived else Printed latest)"

text \<open>The messages that arrive before the loop is left by the clock or an error.\<close>

fun received :: "turn list \<Rightarrow> string list" where
  "received [] = []"
| "received (t # ts) =
     (if tu_in_time t then (case tu_read t of None \<Rightarrow> [] | Some s \<Rightarrow> s # received ts) else [])"

lemma read_loop_received:
  "read_loop wanted ts latest =
   (case (if wanted = [] then None else find (\<lambda>s. Contains s wanted) (received ts)) of
      Some s \<Rightarrow> s
    | None \<Rightarrow> last (latest # received ts))"
  by (induction ts arbitrary: latest) (auto split: option.split)

text \<open>The command prints the first message that contains the text asked for; when none does, or no text is
  asked for, the last message received; and it reports a failure when there is none or it is empty.\<close>

lemma consume_main_prints:
  "consume_main wanted ts =
   (let seen = received ts in
    case (if wanted = [] then None else find (\<lambda>s. Contains s wanted) seen) of
      Some s \<Rightarrow> Printed s
    | None \<Rightarrow> if seen = [] \<or> last seen = [] then NothingReceived else Printed (last seen))"
proof -
  have "s \<noteq> []" if "find (\<lambda>s. Contains s wanted) (received ts) = Some s" "wanted \<noteq> []" for s
    using that by (auto simp: find_Some_iff Contains_def)
  then show ?thesis
    by (auto simp: consume_main_def read_loop_received Let_def split: option.split)
qed

end
