(* ===== verification/Spec2Isabelle.thy ===== *)
theory Spec2Isabelle
  imports Item_Filters Pipeline Show_Control Recall_Lanes Upstream Rank_Client Rank_Engine
    Rank_Call Center_Pipeline Kafka_Pool Algo_Log Config_Print Redis_Crypt Recommend Recommend_Service Two_Services Programs Kafka_Consume
begin

text \<open>
  A verification development of \<open>recsys_go\<close>: a recommendation funnel of two Go services.

  \<^bold>\<open>The program.\<close> The recommend service (\<open>src/services/recommend\<close>) answers a request with a
  list of items. It resolves the variants of its configuration from the experiment ids of the request, runs
  recall lanes that read ids from Redis, merges them, filters them, asks the rank service
  (\<open>src/services/rank\<close>) over HTTP for scores, reorders, applies the show control and cuts. It then queues a
  log line for Kafka. It works in one of three modes (\<open>logic/recommendlogic.go\<close>): the center pipeline
  (\<open>pipeline/center.go\<close>), the funnel, and a generic pipeline on stub items. The rank service holds
  engines (factorization machines from files, or TF-Serving behind HTTP) and ranks every group of a request in a
  coarse, a fine and a re-rank stage. \<open>src/pkg\<close> holds what they share.

  \<^bold>\<open>Theories, in dependency order, and the code each models.\<close>

  Go itself:
  \<^item> \<open>Prelude\<close>: wrapping integers (\<open>int\<close> with \<open>wrap32\<close>/\<open>wrap64\<close>), slices, maps, and the locales
    \<open>drop_stage\<close> and \<open>drop_chain\<close>: a stage that may only drop items, and a chain of such stages.
  \<^item> \<open>Go_Float\<close>: \<open>float64\<close>/\<open>float32\<close> as exact values with NaN and infinities, rounding to nearest even;
    \<open>Go_Sort\<close>: \<open>sort.Slice\<close> by contract (locale \<open>slice_sort\<close>: some permutation, ordered when the less function
    is a strict weak order) with an executable instance; \<open>Go_Text\<close>: \<open>strings\<close> and \<open>strconv\<close>;
    \<open>Go_Utf8\<close>: what \<open>unicode/utf8\<close> accepts, and the replacement of other bytes by U+FFFD;
    \<open>Go_Json\<close> and \<open>Json_Print\<close>: the decoder and the encoder of \<open>encoding/json\<close> for the shapes used, with that
    replacement on both sides.

  Shared packages:
  \<^item> \<open>Recsys_Items\<close>: \<open>pkg/recsyskit/item.go\<close>, \<open>context.go\<close>, \<open>exclusive.go\<close>, \<open>rank_client.go\<close> and the
    error values; \<open>Recall_Merge\<close>: \<open>funnel_merge.go\<close> and \<open>merge/merge.go\<close>; \<open>Pipeline\<close>:
    \<open>pipeline.go\<close>.
  \<^item> \<open>Funnel_Config\<close>: \<open>funnel_config.go\<close>, \<open>centerconfig/resolve.go\<close>, \<open>bundle.go\<close>; the variant choice is
    the locale \<open>ab_pick\<close>, interpreted on each of the three copies in the code (\<open>ResolveFunnel\<close>,
    \<open>resolveMapRecommend\<close>, and the rank service's in \<open>Rank_Config\<close>); \<open>Config_Load\<close>:
    the loaders (\<open>centerconfig/load.go\<close>, \<open>LoadFunnelLibrary\<close>); \<open>Config_Print\<close>: printed libraries load back.
  \<^item> \<open>Item_Filters\<close>: \<open>funnel_filter.go\<close>, the filter half of \<open>centerconfig/apply.go\<close>, and
    \<open>internal/filter\<close>; every filter is an interpretation of \<open>drop_stage\<close>.
  \<^item> \<open>Feature_Store\<close>: keys, fetchers over a Redis parameter, filter and recall blobs, portraits, sessions
    (locales \<open>batch_reader\<close>, \<open>redis_store\<close>); \<open>Feature_Merge\<close>: \<open>merge.go\<close>; \<open>Recall_Tag\<close>:
    \<open>recall_tag.go\<close>, \<open>liveredirect.go\<close>; \<open>Redis_Crypt\<close>: \<open>pkg/redisdecrypt\<close> and the fetcher built from the
    configuration.
  \<^item> \<open>Upstream\<close>: \<open>pkg/upstream\<close> (locale \<open>balancer\<close>); \<open>Wire_DTO\<close>, \<open>Rank_Client\<close>: \<open>transporthttp\<close>;
    \<open>Algo_Log\<close>: \<open>pkg/algolog\<close>; \<open>Kafka_Pool\<close>: \<open>pkg/kafkapush\<close>.

  The rank service: \<open>FM_Model\<close> (\<open>fm.go\<close>, \<open>trans.go\<close>, \<open>features.go\<close>), \<open>Rank_Config\<close>,
  \<open>Rank_Engine\<close> (\<open>engine.go\<close>, \<open>tfserving.go\<close>), \<open>Multi_Rank\<close> (\<open>svc/servicecontext.go\<close>,
  \<open>logic/multiranklogic.go\<close>, \<open>handler/routes.go\<close>).

  The recommend service: \<open>Recall_Lanes\<close> (\<open>internal/recall\<close>), \<open>Show_Control\<close> (\<open>centerconfig/show.go\<close>, the
  rest of \<open>apply.go\<close>, \<open>internal/show\<close>), \<open>Center_Pipeline\<close> (\<open>internal/pipeline\<close>), \<open>Recommend\<close>
  (\<open>internal/logic\<close>), \<open>Recommend_Service\<close> (configuration, environment overrides, service context, routes).

  Both services together: \<open>Rank_Call\<close> composes the client, the failover and the rank service's handler. Its
  locale \<open>ranker\<close> says what the pipelines need of a ranker: groups come back in order and by name, with
  some of their own candidates. The locale is interpreted twice, on the rank service called in process and on the
  same service behind its HTTP client; \<open>Center_Pipeline\<close> and \<open>Recommend\<close> prove their results in it
  once. \<open>Two_Services\<close> puts the two programs together: decoded requests and lane ids stay in the range of
  their Go types, so every rank call of the recommend service survives the wire, and the pair of services over
  HTTP behaves as one program. \<open>Programs\<close> starts both programs (\<open>main.go\<close>) and follows their sessions: any
  sequence of requests, for the recommend program in any order with the turns of its Kafka worker, with or without
  rank endpoints and through outages of them (\<open>rank_network\<close>: an endpoint may fail in any way, but one
  that answers with 200 is a rank service). \<open>Kafka_Consume\<close>
  is the command \<open>scripts/kafka_consume_latest.go\<close>.

  \<^bold>\<open>Conventions.\<close> A struct is a record with one field per field; a nil pointer or map is
  \<open>None\<close>; a Go error is the left of a sum, and so are the two run-time panics the code can reach
  (\<open>NilPanic\<close>, \<open>ClosedChannelPanic\<close>, and \<open>IndexPanic\<close> for indexing). Strings and byte slices are lists of
  \<open>char\<close>. A map that a \<open>range\<close> statement visits is an association list in the order of the visit, with nothing
  assumed about the order. What is outside the repository is a parameter: Redis contents and failures, HTTP
  outcomes per call, the clock, the random stream, the elementary functions of \<open>math\<close> (with the bounds
  used as assumptions of \<open>go_runtime\<close> and \<open>rank_runtime\<close>), the AES block function and its inverse,
  rare spellings of \<open>strconv\<close> floats, \<open>filepath\<close>, the host name.

  \<^bold>\<open>What the lemmas show.\<close>
  \<^item> Recall and merge: \<open>MergeRecallLanes\<close> refines ``first occurrence of every id, cut to the budget''; lanes
    answer with at most their number of items; tag allocation stays in its budget.
  \<^item> Configuration: variant indexing stays in bounds; the three resolvers keep one contract; loading gives
    back what a file spells, and finite factors.
  \<^item> Filters and show: what is kept, by specification; provenance and distinctness of what is shown; the paged
    insert's exact result; what MMR picks, when it is a permutation, and how its loop ends.
  \<^item> Ranking: reordering is a permutation; what a group's ranking returns; the coarse cut keeps the best;
    prediction bounds; FM keys; document merging.
  \<^item> Across the network: failover order, fairness of the round robin, JSON round trips, and
    \<open>rank_call_is_local\<close>: a call over HTTP returns what the service computes in process.
    \<open>Center_Run_serves\<close> and \<open>handleFunnel_serves\<close> follow a request through lanes, filters, rank call,
    show control and response; \<open>services_over_http\<close> lifts the refinement of one call to every posted body and mode of
    the recommend service. \<open>recommend_program_serves\<close> and \<open>rank_program_serves\<close> say what clients can rely on in
    whole sessions of the started programs.
  \<^item> Logging: the log line's fields can be read back when no text holds a pipe; the Kafka pool delivers exactly what
    it accepted, in order, in every interleaving of pushes, worker turns and close, and close returns.

  \<^bold>\<open>Bounds and fuel.\<close> The JSON reader recurses on fuel \<open>2 * length + 2\<close>; every call consumes a character
  or descends into one bracket, so it does not run out on a text that long. Loops over slices
  are structural; loops on shrinking data (\<open>encrypt_blocks\<close>, the page loop of the forced insert, MMR) have a
  \<open>termination\<close> proof or recurse on the number of rounds. The pool is a step relation; \<open>Close_drains\<close> bounds the worker turns
  after the close by the queue's content.

  \<^bold>\<open>Not modelled.\<close> \<open>pkg/featurekit\<close> (type declarations nothing uses) and the aliases of
  \<open>rank/internal/featurestore\<close>, flag parsing and the yaml loader (parameters of the two \<open>main\<close>), the HTTP
  server and its connections, time-outs and cancellation of contexts, and the Kafka writer and reader. Concurrency is
  modelled where requests meet: the log pool, whose worker alternates with requests in any order. Requests are
  otherwise independent except for the balancer's counter: one call threads it, and a session leaves open how many
  endpoints the balancer has given out when a request arrives.
  Floating point is that of amd64, without fused multiply-add.
\<close>

end
